theory Spec2Isabelle
  imports Complex_Main "HOL-Library.Sublist" "HOL-Library.Log_Nat" "HOL-Library.Monad_Syntax"
begin

section \<open>Strings and numbers of the lyrics service\<close>

text \<open>
  The service is \<^verbatim>\<open>server/src/services/lyrics.ts\<close>. A JavaScript string is a sequence
  of UTF-16 code units; it is modelled as the list of its code units, each a natural
  number below 65536. A JavaScript number that passed \<^verbatim>\<open>Number.isFinite\<close> is modelled
  as the rational it denotes, and a value that is \<^verbatim>\<open>NaN\<close> or infinite is \<open>None\<close>.
\<close>

type_synonym jsstring = "nat list"
type_synonym jsnumber = rat

subsection \<open>Arithmetic on numbers\<close>

text \<open>
  A JavaScript number is an IEEE 754 double. The result of \<^verbatim>\<open>+\<close>, \<^verbatim>\<open>-\<close>, \<^verbatim>\<open>*\<close> and \<^verbatim>\<open>/\<close> on
  finite numbers, the value of a decimal literal, and \<^verbatim>\<open>Number\<close> of a string of decimal
  digits, are the exact result rounded to the nearest double, a tie going to the double
  with the even significand: \<open>nearestDouble\<close>. A double has a significand of 53 bits; its
  unit in the last place is \<open>2\<close> to the power \<open>e - 52\<close> in the binade \<open>[2^e, 2^(e+1))\<close>
  for \<open>e\<close> from \<open>-1022\<close> on, and \<open>2\<close> to the power \<open>-1074\<close> below. A rounded result of
  magnitude \<open>2^1024\<close> or more is infinite: \<open>toDouble\<close> is then \<open>None\<close>.
\<close>

definition roundHalfEven :: "rat \<Rightarrow> int" where
  "roundHalfEven x =
     (let f = \<lfloor>x\<rfloor>; d = x - of_int f
      in if d < 1 / 2 then f else if 1 / 2 < d then f + 1 else if even f then f else f + 1)"

definition binade :: "rat \<Rightarrow> int" where
  \<comment> \<open>for \<open>0 < x\<close>, the \<open>e\<close> with \<open>2^e \<le> x < 2^(e+1)\<close>\<close>
  "binade x =
     (let d = bitlen (fst (quotient_of x)) - bitlen (snd (quotient_of x))
      in if 2 powi d \<le> x then d else d - 1)"

definition ulp :: "rat \<Rightarrow> rat" where
  "ulp x = 2 powi (max (binade x) (- 1022) - 52)"

definition roundPos :: "rat \<Rightarrow> rat" where
  \<comment> \<open>the double nearest to \<open>x\<close>, for \<open>0 \<le> x\<close>\<close>
  "roundPos x = of_int (roundHalfEven (x / ulp x)) * ulp x"

definition nearestDouble :: "rat \<Rightarrow> rat" where
  "nearestDouble x = sgn x * roundPos \<bar>x\<bar>"

definition toDouble :: "rat \<Rightarrow> jsnumber option" where
  "toDouble x = (if \<bar>nearestDouble x\<bar> < 2 ^ 1024 then Some (nearestDouble x) else None)"

datatype ScriptType = latin | korean | japanese | cyrillic | mixed | unknown

record ScriptCounts =
  c_latin :: nat
  c_hangul :: nat
  c_hiragana :: nat
  c_katakana :: nat
  c_han :: nat
  c_cyrillic :: nat

subsection \<open>scriptCharCounts\<close>

text \<open>
  The source loops \<^verbatim>\<open>for (const ch of input)\<close>, that is over code points, and tests
  each against six character classes without the \<^verbatim>\<open>u\<close> flag. Every class lies below
  the surrogate range \<^verbatim>\<open>D800..DFFF\<close>, so a code point outside the basic plane (two
  surrogate units) matches none of them, exactly like its two units taken one by one:
  counting over code units gives the same six numbers.
\<close>

definition isLatinCh :: "nat \<Rightarrow> bool" where
  "isLatinCh ch = ((65 \<le> ch \<and> ch \<le> 90) \<or> (97 \<le> ch \<and> ch \<le> 122))"

definition isHangulCh :: "nat \<Rightarrow> bool" where
  "isHangulCh ch = (44032 \<le> ch \<and> ch \<le> 55215)"

definition isHiraganaCh :: "nat \<Rightarrow> bool" where
  "isHiraganaCh ch = (12352 \<le> ch \<and> ch \<le> 12447)"

definition isKatakanaCh :: "nat \<Rightarrow> bool" where
  "isKatakanaCh ch = (12448 \<le> ch \<and> ch \<le> 12543)"

definition isHanCh :: "nat \<Rightarrow> bool" where
  "isHanCh ch = ((13312 \<le> ch \<and> ch \<le> 19903) \<or> (19968 \<le> ch \<and> ch \<le> 40959))"

definition isCyrillicCh :: "nat \<Rightarrow> bool" where
  "isCyrillicCh ch = (1024 \<le> ch \<and> ch \<le> 1279)"

definition bump :: "bool \<Rightarrow> nat \<Rightarrow> nat" where
  "bump b n = (if b then n + 1 else n)"

definition countStep :: "ScriptCounts \<Rightarrow> nat \<Rightarrow> ScriptCounts" where
  "countStep c ch =
     \<lparr> c_latin = bump (isLatinCh ch) (c_latin c),
       c_hangul = bump (isHangulCh ch) (c_hangul c),
       c_hiragana = bump (isHiraganaCh ch) (c_hiragana c),
       c_katakana = bump (isKatakanaCh ch) (c_katakana c),
       c_han = bump (isHanCh ch) (c_han c),
       c_cyrillic = bump (isCyrillicCh ch) (c_cyrillic c) \<rparr>"

definition zeroCounts :: ScriptCounts where
  "zeroCounts = \<lparr> c_latin = 0, c_hangul = 0, c_hiragana = 0, c_katakana = 0,
                  c_han = 0, c_cyrillic = 0 \<rparr>"

definition scriptCharCounts :: "jsstring \<Rightarrow> ScriptCounts" where
  "scriptCharCounts input = foldl countStep zeroCounts input"

definition c_japanese :: "ScriptCounts \<Rightarrow> nat" where
  "c_japanese c = c_hiragana c + c_katakana c + c_han c"

subsection \<open>detectScript\<close>

definition scriptTop :: "ScriptCounts \<Rightarrow> nat" where
  "scriptTop c = max (c_latin c) (max (c_hangul c) (max (c_japanese c) (c_cyrillic c)))"

definition scriptKinds :: "ScriptCounts \<Rightarrow> nat" where
  "scriptKinds c =
     length (filter (\<lambda>b. b) [c_latin c > 0, c_hangul c > 0, c_japanese c > 0, c_cyrillic c > 0])"

definition detectScript :: "jsstring \<Rightarrow> ScriptType" where
  "detectScript text =
     (let c = scriptCharCounts text; top = scriptTop c in
      if top \<le> 1 then unknown
      else if scriptKinds c \<ge> 3 then mixed
      else if top = c_hangul c then korean
      else if top = c_japanese c then japanese
      else if top = c_cyrillic c then cyrillic
      else latin)"

definition detectExpectedScriptFromMeta :: "jsstring \<Rightarrow> jsstring \<Rightarrow> ScriptType" where
  "detectExpectedScriptFromMeta title channelTitle =
     (let titleScript = detectScript title in
      if titleScript \<noteq> unknown \<and> titleScript \<noteq> mixed then titleScript
      else detectScript (title @ [32] @ channelTitle))"

subsection \<open>isScriptCompatible\<close>

text \<open>
  \<^verbatim>\<open>Math.floor(c.latin * 0.6)\<close> is taken over the rationals. (For a count \<open>n\<close> that a
  string can have, the double nearest to \<open>0.6\<close> times \<open>n\<close> rounds to the integer
  \<open>3n/5\<close> when \<open>n\<close> is a multiple of five and is otherwise at least \<open>0.2\<close> away from one,
  so the floor is the same.)
\<close>

definition isScriptCompatible :: "jsstring \<Rightarrow> ScriptType \<Rightarrow> bool" where
  "isScriptCompatible text expected =
     (if expected = unknown \<or> expected = mixed then True
      else
        let c = scriptCharCounts text;
            jp = c_japanese c;
            total = c_latin c + c_hangul c + jp + c_cyrillic c
        in
        if total = 0 then False
        else if expected = korean then
          (if c_cyrillic c > 0 then False else c_hangul c \<ge> 2 \<or> c_latin c \<ge> 2)
        else if expected = japanese then
          (if c_cyrillic c > 0 then False else jp \<ge> 2 \<or> c_latin c \<ge> 2)
        else if expected = cyrillic then c_cyrillic c \<ge> 2
        else c_latin c \<ge> 2 \<and>
             c_hangul c + jp + c_cyrillic c
               \<le> max 2 (nat \<lfloor>(of_nat (c_latin c) :: rat) * (6 / 10)\<rfloor>))"

section \<open>Text cleaning\<close>

definition ascii :: "string \<Rightarrow> jsstring" where
  "ascii s = map of_char s"

text \<open>
  The builtins of the JavaScript runtime whose tables are not part of the repository are
  parameters of the model: \<^verbatim>\<open>String.prototype.toLowerCase\<close>, the Unicode property
  classes \<^verbatim>\<open>\p{L}\<close> and \<^verbatim>\<open>\p{N}\<close> (as one predicate on code points), and the
  conversion \<^verbatim>\<open>Number(string)\<close> followed by \<^verbatim>\<open>Number.isFinite\<close> (\<open>None\<close> for a
  result that is not finite).
\<close>

record Builtins =
  toLowerCase :: "jsstring \<Rightarrow> jsstring"
  isLetterOrNumber :: "nat \<Rightarrow> bool"
  toNumber :: "jsstring \<Rightarrow> jsnumber option"

definition isSpaceCh :: "nat \<Rightarrow> bool" where
  \<comment> \<open>the class \<^verbatim>\<open>\s\<close> of ECMAScript, which is also what \<^verbatim>\<open>trim\<close> removes\<close>
  "isSpaceCh ch =
     (ch = 9 \<or> ch = 10 \<or> ch = 11 \<or> ch = 12 \<or> ch = 13 \<or> ch = 32 \<or> ch = 160 \<or>
      ch = 5760 \<or> (8192 \<le> ch \<and> ch \<le> 8202) \<or> ch = 8232 \<or> ch = 8233 \<or>
      ch = 8239 \<or> ch = 8287 \<or> ch = 12288 \<or> ch = 65279)"

definition trim :: "jsstring \<Rightarrow> jsstring" where
  "trim s = rev (dropWhile isSpaceCh (rev (dropWhile isSpaceCh s)))"

definition startsWith :: "jsstring \<Rightarrow> jsstring \<Rightarrow> bool" where
  "startsWith s pat = (take (length pat) s = pat)"

fun includesStr :: "jsstring \<Rightarrow> jsstring \<Rightarrow> bool" where
  "includesStr [] pat = (pat = [])"
| "includesStr (x # xs) pat = (startsWith (x # xs) pat \<or> includesStr xs pat)"

fun replaceAll :: "jsstring \<Rightarrow> jsstring \<Rightarrow> jsstring \<Rightarrow> jsstring" where
  \<comment> \<open>\<^verbatim>\<open>s.replace(/pat/g, rep)\<close> for a literal, non-empty pattern\<close>
  "replaceAll pat rep [] = []"
| "replaceAll pat rep (x # xs) =
     (if pat \<noteq> [] \<and> startsWith (x # xs) pat
      then rep @ replaceAll pat rep (drop (length pat - 1) xs)
      else x # replaceAll pat rep xs)"

fun replaceFirst :: "nat \<Rightarrow> nat \<Rightarrow> jsstring \<Rightarrow> jsstring" where
  \<comment> \<open>\<^verbatim>\<open>s.replace(",", ".")\<close>: a string pattern replaces the first occurrence only\<close>
  "replaceFirst a b [] = []"
| "replaceFirst a b (x # xs) = (if x = a then b # xs else x # replaceFirst a b xs)"

fun splitOn :: "nat \<Rightarrow> jsstring \<Rightarrow> jsstring list" where
  \<comment> \<open>\<^verbatim>\<open>s.split(c)\<close> for a one-character separator; the empty string gives one empty part\<close>
  "splitOn c [] = [[]]"
| "splitOn c (x # xs) =
     (if x = c then [] # splitOn c xs
      else (case splitOn c xs of [] \<Rightarrow> [[x]] | h # rest \<Rightarrow> (x # h) # rest))"

fun splitLines :: "jsstring \<Rightarrow> jsstring list" where
  \<comment> \<open>\<^verbatim>\<open>content.split(/\r?\n/)\<close>\<close>
  "splitLines [] = [[]]"
| "splitLines [x] = (if x = 10 then [[], []] else [[x]])"
| "splitLines (x # y # ys) =
     (if x = 10 then [] # splitLines (y # ys)
      else if x = 13 \<and> y = 10 then [] # splitLines ys
      else (case splitLines (y # ys) of [] \<Rightarrow> [[x]] | h # rest \<Rightarrow> (x # h) # rest))"

fun beforeFirst :: "jsstring \<Rightarrow> jsstring \<Rightarrow> jsstring" where
  \<comment> \<open>\<^verbatim>\<open>s.split(pat)[0]\<close> for a non-empty pattern\<close>
  "beforeFirst pat [] = []"
| "beforeFirst pat (x # xs) =
     (if startsWith (x # xs) pat then [] else x # beforeFirst pat xs)"

fun joinWith :: "jsstring \<Rightarrow> jsstring list \<Rightarrow> jsstring" where
  "joinWith sep [] = []"
| "joinWith sep [x] = x"
| "joinWith sep (x # y # ys) = x @ sep @ joinWith sep (y # ys)"

definition decodeHtmlEntities :: "jsstring \<Rightarrow> jsstring" where
  "decodeHtmlEntities input =
     replaceAll (ascii ''&nbsp;'') (ascii '' '')
       (replaceAll (ascii ''&#39;'') [39]
         (replaceAll (ascii ''&quot;'') [34]
           (replaceAll (ascii ''&gt;'') (ascii ''>'')
             (replaceAll (ascii ''&lt;'') (ascii ''<'')
               (replaceAll (ascii ''&amp;'') (ascii ''&'') input)))))"

function stripTags :: "jsstring \<Rightarrow> jsstring" where
  \<comment> \<open>\<^verbatim>\<open>s.replace(/<[^>]*>/g, " ")\<close>: a \<^verbatim>\<open><\<close> matches up to the next \<^verbatim>\<open>>\<close>, if any\<close>
  "stripTags [] = []"
| "stripTags (x # xs) =
     (if x = 60 \<and> 62 \<in> set xs
      then 32 # stripTags (tl (dropWhile (\<lambda>c. c \<noteq> 62) xs))
      else x # stripTags xs)"
  by pat_completeness auto
termination
  by (relation "measure length")
     (auto simp: less_Suc_eq_le intro!: le_trans[OF diff_le_self length_dropWhile_le])

function collapseSpaces :: "jsstring \<Rightarrow> jsstring" where
  \<comment> \<open>\<^verbatim>\<open>s.replace(/\s+/g, " ")\<close>\<close>
  "collapseSpaces [] = []"
| "collapseSpaces (x # xs) =
     (if isSpaceCh x then 32 # collapseSpaces (dropWhile isSpaceCh xs)
      else x # collapseSpaces xs)"
  by pat_completeness auto
termination
  by (relation "measure length") (auto simp: less_Suc_eq_le length_dropWhile_le)

definition cleanCaptionText :: "jsstring \<Rightarrow> jsstring" where
  "cleanCaptionText input = trim (collapseSpaces (stripTags (decodeHtmlEntities input)))"

function collapseNewlines :: "jsstring \<Rightarrow> jsstring" where
  \<comment> \<open>\<^verbatim>\<open>s.replace(/\n{3,}/g, "\n\n")\<close>\<close>
  "collapseNewlines [] = []"
| "collapseNewlines (x # xs) =
     (if x = 10 \<and> length (takeWhile (\<lambda>c. c = 10) xs) \<ge> 2
      then [10, 10] @ collapseNewlines (dropWhile (\<lambda>c. c = 10) xs)
      else x # collapseNewlines xs)"
  by pat_completeness auto
termination
  by (relation "measure length") (auto simp: less_Suc_eq_le length_dropWhile_le)

definition normalizePlainLyrics :: "jsstring \<Rightarrow> jsstring" where
  "normalizePlainLyrics input = trim (collapseNewlines (filter (\<lambda>c. c \<noteq> 13) input))"

definition isBracketOnly :: "jsstring \<Rightarrow> bool" where
  \<comment> \<open>the test \<^verbatim>\<open>/^\[[^\]]+\]$/\<close>\<close>
  "isBracketOnly line =
     (case line of
        [] \<Rightarrow> False
      | x # rest \<Rightarrow> x = 91 \<and> rest \<noteq> [] \<and> last rest = 93 \<and>
                   butlast rest \<noteq> [] \<and> 93 \<notin> set (butlast rest))"

definition splitPlainLyrics :: "jsstring \<Rightarrow> jsstring list" where
  "splitPlainLyrics input =
     filter (\<lambda>line. length line > 0 \<and> \<not> isBracketOnly line)
       (map cleanCaptionText (splitOn 10 (normalizePlainLyrics input)))"

section \<open>Format parsers\<close>

record LyricsLine =
  line_t :: jsnumber
  line_text :: jsstring

text \<open>
  The three parsers and the aligner end with the same loop, which keeps an item unless
  the last kept item has the same text and a time within the threshold.
\<close>

definition farApart :: "rat \<Rightarrow> jsnumber \<Rightarrow> jsnumber \<Rightarrow> bool" where
  \<comment> \<open>\<^verbatim>\<open>Math.abs(a - b) > thr\<close> for a decimal literal \<^verbatim>\<open>thr\<close>: the difference is a double,
      infinite when it overflows, and the literal is the double nearest to it\<close>
  "farApart thr a b =
     (case toDouble (a - b) of
        None \<Rightarrow> True
      | Some d \<Rightarrow> nearestDouble thr < \<bar>d\<bar>)"

definition keepAfter :: "rat \<Rightarrow> LyricsLine option \<Rightarrow> LyricsLine \<Rightarrow> bool" where
  "keepAfter thr prev item =
     (case prev of
        None \<Rightarrow> True
      | Some p \<Rightarrow> line_text p \<noteq> line_text item \<or> farApart thr (line_t p) (line_t item))"

fun dedupeFrom :: "rat \<Rightarrow> LyricsLine option \<Rightarrow> LyricsLine list \<Rightarrow> LyricsLine list" where
  "dedupeFrom thr prev [] = []"
| "dedupeFrom thr prev (item # rest) =
     (if keepAfter thr prev item then item # dedupeFrom thr (Some item) rest
      else dedupeFrom thr prev rest)"

definition dedupeAdjacent :: "rat \<Rightarrow> LyricsLine list \<Rightarrow> LyricsLine list" where
  "dedupeAdjacent thr items = dedupeFrom thr None items"

subsection \<open>parseLrc\<close>

definition isDigitCh :: "nat \<Rightarrow> bool" where
  "isDigitCh ch = (48 \<le> ch \<and> ch \<le> 57)"

definition digitsValue :: "jsstring \<Rightarrow> nat" where
  "digitsValue ds = foldl (\<lambda>a d. 10 * a + (d - 48)) 0 ds"

definition numberOfDigits :: "jsstring \<Rightarrow> jsnumber option" where
  \<comment> \<open>\<^verbatim>\<open>Number\<close> of a string of decimal digits, when it is finite\<close>
  "numberOfDigits ds = toDouble (of_nat (digitsValue ds))"

definition lrcSeconds :: "jsstring \<Rightarrow> jsstring \<Rightarrow> jsstring \<Rightarrow> jsnumber option" where
  \<comment> \<open>the three \<^verbatim>\<open>Number.isFinite\<close> tests and \<^verbatim>\<open>mm * 60 + ss + ff / 100\<close>, when it is
      finite (the caller drops a time that is not)\<close>
  "lrcSeconds mm ss ff =
     do {
       m \<leftarrow> numberOfDigits mm;
       s \<leftarrow> numberOfDigits ss;
       f \<leftarrow> numberOfDigits ff;
       a \<leftarrow> toDouble (m * 60);
       b \<leftarrow> toDouble (a + s);
       c \<leftarrow> toDouble (f / 100);
       toDouble (b + c)
     }"

definition lrcFraction :: "jsstring \<Rightarrow> jsstring option" where
  \<comment> \<open>the optional group \<^verbatim>\<open>(?:\.(\d+))?$\<close>: \<^verbatim>\<open>m[3] || 0\<close> when the rest matches\<close>
  "lrcFraction r3 =
     (case r3 of
        [] \<Rightarrow> Some (ascii ''0'')
      | d # ff \<Rightarrow> if d = 46 \<and> ff \<noteq> [] \<and> list_all isDigitCh ff then Some ff else None)"

definition parseLrcTimestamp :: "jsstring \<Rightarrow> jsnumber option" where
  \<comment> \<open>\<^verbatim>\<open>/^(\d+):(\d+)(?:\.(\d+))?$/\<close>\<close>
  "parseLrcTimestamp raw =
     (let mm = takeWhile isDigitCh raw; r1 = dropWhile isDigitCh raw;
          ss = takeWhile isDigitCh (tl r1); r3 = dropWhile isDigitCh (tl r1)
      in if mm = [] \<or> r1 = [] \<or> hd r1 \<noteq> 58 \<or> ss = [] then None
         else Option.bind (lrcFraction r3) (lrcSeconds mm ss))"

function lrcTags :: "jsstring \<Rightarrow> jsstring list" where
  \<comment> \<open>the first groups of \<^verbatim>\<open>line.matchAll(/\[([^\]]+)\]/g)\<close>\<close>
  "lrcTags [] = []"
| "lrcTags (x # xs) =
     (if x = 91 \<and> takeWhile (\<lambda>c. c \<noteq> 93) xs \<noteq> [] \<and> dropWhile (\<lambda>c. c \<noteq> 93) xs \<noteq> []
      then takeWhile (\<lambda>c. c \<noteq> 93) xs # lrcTags (tl (dropWhile (\<lambda>c. c \<noteq> 93) xs))
      else lrcTags xs)"
  by pat_completeness auto
termination
  by (relation "measure length")
     (auto simp: less_Suc_eq_le intro!: le_trans[OF diff_le_self length_dropWhile_le])

function stripLrcTags :: "jsstring \<Rightarrow> jsstring" where
  \<comment> \<open>\<^verbatim>\<open>line.replace(/\[[^\]]+\]/g, " ")\<close>\<close>
  "stripLrcTags [] = []"
| "stripLrcTags (x # xs) =
     (if x = 91 \<and> takeWhile (\<lambda>c. c \<noteq> 93) xs \<noteq> [] \<and> dropWhile (\<lambda>c. c \<noteq> 93) xs \<noteq> []
      then 32 # stripLrcTags (tl (dropWhile (\<lambda>c. c \<noteq> 93) xs))
      else x # stripLrcTags xs)"
  by pat_completeness auto
termination
  by (relation "measure length")
     (auto simp: less_Suc_eq_le intro!: le_trans[OF diff_le_self length_dropWhile_le])

definition lrcLine :: "jsstring \<Rightarrow> LyricsLine list" where
  \<comment> \<open>what one pass of the loop over the lines pushes to \<^verbatim>\<open>out\<close>\<close>
  "lrcLine line =
     (let matches = lrcTags line in
      if length matches = 0 then []
      else
        let text = cleanCaptionText (stripLrcTags line) in
        if text = [] then []
        else map (\<lambda>ts. \<lparr> line_t = ts, line_text = text \<rparr>)
                 (List.map_filter parseLrcTimestamp matches))"

definition parseLrc :: "jsstring \<Rightarrow> LyricsLine list" where
  "parseLrc content =
     dedupeAdjacent (8 / 10) (sort_key line_t (concat (map lrcLine (splitLines content))))"

subsection \<open>parseVtt\<close>

definition vttSeconds :: "jsnumber option \<Rightarrow> jsnumber option \<Rightarrow> jsnumber option \<Rightarrow> jsnumber option" where
  \<comment> \<open>the \<^verbatim>\<open>Number.isFinite\<close> tests and \<^verbatim>\<open>h * 3600 + m * 60 + sec\<close>, when it is finite\<close>
  "vttSeconds hours minutes seconds =
     do {
       h \<leftarrow> hours;
       m \<leftarrow> minutes;
       sec \<leftarrow> seconds;
       a \<leftarrow> toDouble (h * 3600);
       b \<leftarrow> toDouble (m * 60);
       c \<leftarrow> toDouble (a + b);
       toDouble (c + sec)
     }"

definition vttMinutes :: "jsnumber option \<Rightarrow> jsnumber option \<Rightarrow> jsnumber option" where
  \<comment> \<open>the \<^verbatim>\<open>Number.isFinite\<close> tests and \<^verbatim>\<open>m * 60 + sec\<close>, when it is finite\<close>
  "vttMinutes minutes seconds =
     do {
       m \<leftarrow> minutes;
       sec \<leftarrow> seconds;
       a \<leftarrow> toDouble (m * 60);
       toDouble (a + sec)
     }"

definition parseVttTime :: "Builtins \<Rightarrow> jsstring \<Rightarrow> jsnumber option" where
  "parseVttTime B raw =
     (let s = replaceFirst 44 46 (trim raw); parts = splitOn 58 s in
      if length parts = 3 then
        vttSeconds (toNumber B (parts ! 0)) (toNumber B (parts ! 1)) (toNumber B (parts ! 2))
      else if length parts = 2 then
        vttMinutes (toNumber B (parts ! 0)) (toNumber B (parts ! 1))
      else None)"

definition isBlankLine :: "jsstring \<Rightarrow> bool" where
  "isBlankLine s = (trim s = [])"

function vttCues :: "Builtins \<Rightarrow> jsstring list \<Rightarrow> LyricsLine list" where
  \<comment> \<open>the first loop of \<^verbatim>\<open>parseVtt\<close>: the list is \<^verbatim>\<open>srcLines\<close> from index \<^verbatim>\<open>i\<close> on\<close>
  "vttCues B [] = []"
| "vttCues B (l # rest) =
     (let line = trim l in
      if line = [] \<or> startsWith line (ascii ''WEBVTT'') \<or> startsWith line (ascii ''NOTE'')
         \<or> startsWith line (ascii ''STYLE'')
      then vttCues B rest
      else if \<not> includesStr line (ascii ''-->'') then vttCues B rest
      else
        (case parseVttTime B (beforeFirst [32] (trim (beforeFirst (ascii ''-->'') line))) of
           None \<Rightarrow> vttCues B rest
         | Some startTs \<Rightarrow>
             let textLines = map trim (takeWhile (\<lambda>s. \<not> isBlankLine s) rest);
                 after = drop 1 (dropWhile (\<lambda>s. \<not> isBlankLine s) rest);
                 text = cleanCaptionText (joinWith [32] textLines)
             in if text = [] then vttCues B after
                else \<lparr> line_t = startTs, line_text = text \<rparr> # vttCues B after))"
  by pat_completeness auto
termination
  by (relation "measure (\<lambda>(B, ls). length ls)")
     (auto simp: less_Suc_eq_le intro!: le_trans[OF diff_le_self length_dropWhile_le])

definition parseVtt :: "Builtins \<Rightarrow> jsstring \<Rightarrow> LyricsLine list" where
  "parseVtt B content =
     sort_key line_t (dedupeAdjacent (8 / 10) (vttCues B (splitLines content)))"

subsection \<open>Transcription segments\<close>

record WhisperSegment =
  seg_start :: jsnumber
  seg_text :: jsstring

text \<open>
  An element of the \<^verbatim>\<open>segments\<close> array of the parsed JSON, seen through the two
  coercions the parser applies to it: \<^verbatim>\<open>Number(s.start)\<close> when it is finite, and
  \<^verbatim>\<open>String(s.text || "")\<close>. The argument of \<open>parseWhisperSegments\<close> is \<open>None\<close> when
  \<^verbatim>\<open>JSON.parse\<close> throws, and the empty list when \<^verbatim>\<open>segments\<close> is not an array.
\<close>

record WhisperJsonSegment =
  wj_start :: "jsnumber option"
  wj_text :: jsstring

definition parseWhisperSegments :: "WhisperJsonSegment list option \<Rightarrow> WhisperSegment list" where
  "parseWhisperSegments raw =
     (case raw of
        None \<Rightarrow> []
      | Some segments \<Rightarrow>
          sort_key seg_start
            (filter (\<lambda>s. seg_start s \<ge> 0 \<and> length (seg_text s) > 0)
              (List.map_filter
                 (\<lambda>j. case wj_start j of
                         None \<Rightarrow> None
                       | Some st \<Rightarrow> Some \<lparr> seg_start = st, seg_text = cleanCaptionText (wj_text j) \<rparr>)
                 segments)))"

definition parseWhisperJson :: "WhisperJsonSegment list option \<Rightarrow> LyricsLine list" where
  "parseWhisperJson raw =
     dedupeAdjacent (6 / 10)
       (map (\<lambda>s. \<lparr> line_t = seg_start s, line_text = seg_text s \<rparr>) (parseWhisperSegments raw))"

definition stringifySegments :: "WhisperSegment list \<Rightarrow> WhisperJsonSegment list option" where
  \<comment> \<open>\<^verbatim>\<open>JSON.stringify({ segments })\<close> as \<^verbatim>\<open>JSON.parse\<close> reads it back\<close>
  "stringifySegments segs =
     Some (map (\<lambda>s. \<lparr> wj_start = Some (seg_start s), wj_text = seg_text s \<rparr>) segs)"

subsection \<open>alignPlainLyricsWithSegments\<close>

definition roundJs :: "rat \<Rightarrow> int" where
  \<comment> \<open>\<^verbatim>\<open>Math.round\<close>: halves go up\<close>
  "roundJs x = \<lfloor>x + 1 / 2\<rfloor>"

text \<open>
  The quotient \<^verbatim>\<open>idx / (lines.length - 1)\<close> and the product with
  \<^verbatim>\<open>segments.length - 1\<close> are doubles; the index and the two lengths are integers below
  \<open>2^32\<close>, which are doubles themselves, and neither result can overflow.
\<close>

definition alignedLine :: "nat \<Rightarrow> WhisperSegment list \<Rightarrow> nat \<times> jsstring \<Rightarrow> LyricsLine" where
  "alignedLine n segments p =
     (case p of (idx, line) \<Rightarrow>
        let ratio = (if n = 1 then 0 else nearestDouble (of_nat idx / of_nat (n - 1)));
            segIdx = min (int (length segments) - 1)
                         (max 0 (roundJs (nearestDouble (ratio * of_int (int (length segments) - 1)))))
        in \<lparr> line_t = seg_start (segments ! nat segIdx), line_text = line \<rparr>)"

definition alignPlainLyricsWithSegments :: "jsstring \<Rightarrow> WhisperSegment list \<Rightarrow> LyricsLine list" where
  "alignPlainLyricsWithSegments plainLyrics segments =
     (let lines = splitPlainLyrics plainLyrics in
      if length lines < 4 \<or> length segments < 4 then []
      else
        let timed = map (alignedLine (length lines) segments) (List.enumerate 0 lines)
        in dedupeAdjacent (5 / 10) (sort_key line_t timed))"

section \<open>Candidates, scoring and deduplication\<close>

datatype Source = captions | catalog | catalog_aligned | stt | none_source
datatype Mode = timed | plain
datatype SyncMethod = native | ai | none_sync

text \<open>
  \<^verbatim>\<open>Omit<LyricsCandidate, "score">\<close> is the record \<open>RawCandidate\<close>; an optional field is
  an \<open>option\<close>.
\<close>

record RawCandidate =
  raw_id :: jsstring
  raw_label :: jsstring
  raw_source :: Source
  raw_mode :: Mode
  raw_lines :: "LyricsLine list"
  raw_plainLyrics :: "jsstring option"
  raw_syncMethod :: "SyncMethod option"

record LyricsCandidate =
  cand_id :: jsstring
  cand_label :: jsstring
  cand_source :: Source
  cand_mode :: Mode
  cand_lines :: "LyricsLine list"
  cand_plainLyrics :: "jsstring option"
  cand_syncMethod :: "SyncMethod option"
  cand_score :: jsnumber

record LyricsResponse =
  videoId :: jsstring
  source :: Source
  mode :: Mode
  lines :: "LyricsLine list"
  plainLyrics :: "jsstring option"
  syncMethod :: "SyncMethod option"
  selectedCandidateId :: "jsstring option"
  candidates :: "LyricsCandidate list option"

definition orEmpty :: "jsstring option \<Rightarrow> jsstring" where
  \<comment> \<open>\<^verbatim>\<open>x || ""\<close> on an optional string\<close>
  "orEmpty x = (case x of None \<Rightarrow> [] | Some s \<Rightarrow> s)"

definition hasCompatibleLyricsPayload :: "LyricsResponse \<Rightarrow> ScriptType \<Rightarrow> bool" where
  "hasCompatibleLyricsPayload payload expectedScript =
     (let timedText = joinWith [32] (map line_text (lines payload));
          plainText = orEmpty (plainLyrics payload);
          allText = trim (timedText @ [32] @ plainText)
      in if allText = [] then True else isScriptCompatible allText expectedScript)"

subsection \<open>normalizedLyricsFingerprint\<close>

definition isHighSurrogate :: "nat \<Rightarrow> bool" where
  "isHighSurrogate u = (55296 \<le> u \<and> u \<le> 56319)"

definition isLowSurrogate :: "nat \<Rightarrow> bool" where
  "isLowSurrogate u = (56320 \<le> u \<and> u \<le> 57343)"

definition codePoint :: "nat \<Rightarrow> nat \<Rightarrow> nat" where
  "codePoint h l = (h - 55296) * 1024 + (l - 56320) + 65536"

fun replaceNonWord :: "Builtins \<Rightarrow> jsstring \<Rightarrow> jsstring" where
  \<comment> \<open>\<^verbatim>\<open>s.replace(/[^\p{L}\p{N}\s]/gu, " ")\<close>: with the \<^verbatim>\<open>u\<close> flag a surrogate pair is
      one character\<close>
  "replaceNonWord B [] = []"
| "replaceNonWord B [x] = [if isLetterOrNumber B x \<or> isSpaceCh x then x else 32]"
| "replaceNonWord B (x # y # ys) =
     (if isHighSurrogate x \<and> isLowSurrogate y
      then (if isLetterOrNumber B (codePoint x y) then x # y # replaceNonWord B ys
            else 32 # replaceNonWord B ys)
      else (if isLetterOrNumber B x \<or> isSpaceCh x then x else 32) # replaceNonWord B (y # ys))"

definition fingerprintText :: "Builtins \<Rightarrow> jsstring \<Rightarrow> jsstring" where
  "fingerprintText B s = trim (collapseSpaces (replaceNonWord B (toLowerCase B s)))"

definition normalizedLyricsFingerprint ::
  "Builtins \<Rightarrow> Mode \<Rightarrow> LyricsLine list \<Rightarrow> jsstring \<Rightarrow> jsstring" where
  "normalizedLyricsFingerprint B m ls plainText =
     (let timedFp = fingerprintText B (joinWith [10] (map line_text ls));
          plainFp = fingerprintText B plainText
      in if m = timed then take 2400 timedFp else take 2400 plainFp)"

subsection \<open>scoreLyricsCandidate\<close>

definition scoreLyricsCandidate :: "RawCandidate \<Rightarrow> ScriptType \<Rightarrow> jsnumber" where
  "scoreLyricsCandidate candidate expectedScript =
     (let lineCount = length (raw_lines candidate);
          plainLen = length (orEmpty (raw_plainLyrics candidate));
          base = (if raw_source candidate = captions then 96
                  else if raw_source candidate = catalog
                    then (if raw_mode candidate = timed then 90 else 84)
                  else if raw_source candidate = catalog_aligned then 82
                  else if raw_source candidate = stt then 48
                  else 0);
          sync1 = (if raw_syncMethod candidate = Some native then 7 else 0);
          sync2 = (if raw_syncMethod candidate = Some ai then 2 else 0);
          density = (if raw_mode candidate = timed then min 16 (lineCount div 6)
                     else min 10 (plainLen div 120));
          allText = trim (joinWith [32] (map line_text (raw_lines candidate)) @ [32]
                          @ orEmpty (raw_plainLyrics candidate));
          bonus = (if allText \<noteq> [] \<and> isScriptCompatible allText expectedScript then 8 else 0)
      in of_nat (base + sync1 + sync2 + density + bonus))"

definition withScore :: "ScriptType \<Rightarrow> RawCandidate \<Rightarrow> LyricsCandidate" where
  \<comment> \<open>\<^verbatim>\<open>{ ...c, score: scoreLyricsCandidate(c, expectedScript) }\<close>\<close>
  "withScore expectedScript c =
     \<lparr> cand_id = raw_id c, cand_label = raw_label c, cand_source = raw_source c,
       cand_mode = raw_mode c, cand_lines = raw_lines c,
       cand_plainLyrics = raw_plainLyrics c, cand_syncMethod = raw_syncMethod c,
       cand_score = scoreLyricsCandidate c expectedScript \<rparr>"

subsection \<open>pickTopCandidates\<close>

definition sliceTo :: "int \<Rightarrow> 'a list \<Rightarrow> 'a list" where
  \<comment> \<open>\<^verbatim>\<open>xs.slice(0, limit)\<close> for an integer limit: a negative one counts from the end\<close>
  "sliceTo limit xs =
     (if limit < 0 then take (nat (int (length xs) + limit)) xs else take (nat limit) xs)"

definition candidateFingerprint :: "Builtins \<Rightarrow> LyricsCandidate \<Rightarrow> jsstring" where
  "candidateFingerprint B c =
     normalizedLyricsFingerprint B (cand_mode c) (cand_lines c) (orEmpty (cand_plainLyrics c))"

fun pickLoop ::
  "Builtins \<Rightarrow> jsstring list \<Rightarrow> nat \<Rightarrow> int \<Rightarrow> LyricsCandidate list \<Rightarrow> LyricsCandidate list" where
  \<comment> \<open>the loop of \<^verbatim>\<open>pickTopCandidates\<close>: \<open>seen\<close> is the set, \<open>n\<close> is \<^verbatim>\<open>out.length\<close>, the
      result is what is still pushed to \<^verbatim>\<open>out\<close>\<close>
  "pickLoop B seen n limit [] = []"
| "pickLoop B seen n limit (c # cs) =
     (let fp = candidateFingerprint B c in
      if fp = [] then pickLoop B seen n limit cs
      else if fp \<in> set seen then pickLoop B seen n limit cs
      else c # (if int (n + 1) \<ge> limit then [] else pickLoop B (fp # seen) (n + 1) limit cs))"

definition pickTopCandidates :: "Builtins \<Rightarrow> LyricsCandidate list \<Rightarrow> int \<Rightarrow> LyricsCandidate list" where
  "pickTopCandidates B cands limit =
     (if length cands \<le> 1 then sliceTo limit cands else pickLoop B [] 0 limit cands)"

section \<open>The cache document\<close>

text \<open>
  \<^verbatim>\<open>lyrics.json\<close> after \<^verbatim>\<open>JSON.parse\<close>, seen through the tests \<open>readCachedLyrics\<close>
  applies: a field holds \<open>Some\<close> value when it has the JavaScript type the reader asks
  for (a string, an array, a value whose \<^verbatim>\<open>Number(...)\<close> is finite) and \<open>None\<close> otherwise.
  An array element that is not an object has no field.
\<close>

record StoredLine =
  sl_t :: "jsnumber option"
  sl_text :: "jsstring option"

record StoredCandidate =
  sc_id :: "jsstring option"
  sc_label :: "jsstring option"
  sc_source :: "jsstring option"
  sc_mode :: "jsstring option"
  sc_lines :: "StoredLine list option"
  sc_plainLyrics :: "jsstring option"
  sc_syncMethod :: "jsstring option"
  sc_score :: "jsnumber option"

record StoredLyrics =
  st_videoId :: "jsstring option"
  st_source :: "jsstring option"
  st_mode :: "jsstring option"
  st_lines :: "StoredLine list option"
  st_plainLyrics :: "jsstring option"
  st_syncMethod :: "jsstring option"
  st_selectedCandidateId :: "jsstring option"
  st_candidates :: "StoredCandidate list option"

definition readSource :: "jsstring option \<Rightarrow> Source" where
  "readSource x =
     (if x = Some (ascii ''captions'') then captions
      else if x = Some (ascii ''catalog'') then catalog
      else if x = Some (ascii ''catalog_aligned'') then catalog_aligned
      else if x = Some (ascii ''stt'') then stt
      else none_source)"

definition readMode :: "jsstring option \<Rightarrow> Mode" where
  "readMode x = (if x = Some (ascii ''plain'') then plain else timed)"

definition readSyncMethod :: "jsstring option \<Rightarrow> SyncMethod" where
  "readSyncMethod x =
     (if x = Some (ascii ''native'') then native
      else if x = Some (ascii ''ai'') then ai
      else none_sync)"

definition readLine :: "StoredLine \<Rightarrow> LyricsLine option" where
  "readLine l =
     (case sl_t l of
        None \<Rightarrow> None
      | Some tv \<Rightarrow> map_option (\<lambda>x. \<lparr> line_t = tv, line_text = x \<rparr>) (sl_text l))"

definition readCandidate :: "StoredCandidate \<Rightarrow> LyricsCandidate option" where
  \<comment> \<open>the filter and the map over \<^verbatim>\<open>parsed.candidates\<close>\<close>
  "readCandidate c =
     (if sc_id c = None \<or> sc_label c = None \<or> sc_lines c = None then None
      else Some \<lparr> cand_id = the (sc_id c), cand_label = the (sc_label c),
                  cand_source = readSource (sc_source c), cand_mode = readMode (sc_mode c),
                  cand_lines = List.map_filter readLine (the (sc_lines c)),
                  cand_plainLyrics = sc_plainLyrics c,
                  cand_syncMethod = Some (readSyncMethod (sc_syncMethod c)),
                  cand_score = (case sc_score c of None \<Rightarrow> 0 | Some v \<Rightarrow> v) \<rparr>)"

definition readCachedLyrics :: "jsstring \<Rightarrow> StoredLyrics option \<Rightarrow> LyricsResponse option" where
  \<comment> \<open>the second argument is \<open>None\<close> when the file is missing, is not JSON or holds a
      falsy value; for a path with a NUL character \<^verbatim>\<open>fs.existsSync\<close> is false\<close>
  "readCachedLyrics vid file =
     (case file of
        None \<Rightarrow> None
      | Some parsed \<Rightarrow>
          if 0 \<in> set vid \<or> st_videoId parsed \<noteq> Some vid \<or> st_lines parsed = None then None
          else Some \<lparr> videoId = vid,
                      source = readSource (st_source parsed),
                      mode = readMode (st_mode parsed),
                      lines = List.map_filter readLine (the (st_lines parsed)),
                      plainLyrics = st_plainLyrics parsed,
                      syncMethod = Some (readSyncMethod (st_syncMethod parsed)),
                      selectedCandidateId = st_selectedCandidateId parsed,
                      candidates = Some (case st_candidates parsed of
                                           None \<Rightarrow> []
                                         | Some cs \<Rightarrow> List.map_filter readCandidate cs) \<rparr>)"

text \<open>
  \<open>writeCachedLyrics\<close> stores \<^verbatim>\<open>JSON.stringify(result)\<close>: every field that is set is
  written under its own name, an enumeration value as its string.
\<close>

definition sourceName :: "Source \<Rightarrow> jsstring" where
  "sourceName x =
     (case x of captions \<Rightarrow> ascii ''captions'' | catalog \<Rightarrow> ascii ''catalog''
      | catalog_aligned \<Rightarrow> ascii ''catalog_aligned'' | stt \<Rightarrow> ascii ''stt''
      | none_source \<Rightarrow> ascii ''none'')"

definition modeName :: "Mode \<Rightarrow> jsstring" where
  "modeName x = (case x of timed \<Rightarrow> ascii ''timed'' | plain \<Rightarrow> ascii ''plain'')"

definition syncMethodName :: "SyncMethod \<Rightarrow> jsstring" where
  "syncMethodName x =
     (case x of native \<Rightarrow> ascii ''native'' | ai \<Rightarrow> ascii ''ai'' | none_sync \<Rightarrow> ascii ''none'')"

definition storeLine :: "LyricsLine \<Rightarrow> StoredLine" where
  "storeLine l = \<lparr> sl_t = Some (line_t l), sl_text = Some (line_text l) \<rparr>"

definition storeCandidate :: "LyricsCandidate \<Rightarrow> StoredCandidate" where
  "storeCandidate c =
     \<lparr> sc_id = Some (cand_id c), sc_label = Some (cand_label c),
       sc_source = Some (sourceName (cand_source c)), sc_mode = Some (modeName (cand_mode c)),
       sc_lines = Some (map storeLine (cand_lines c)),
       sc_plainLyrics = cand_plainLyrics c,
       sc_syncMethod = map_option syncMethodName (cand_syncMethod c),
       sc_score = Some (cand_score c) \<rparr>"

definition stringifyLyrics :: "LyricsResponse \<Rightarrow> StoredLyrics" where
  "stringifyLyrics r =
     \<lparr> st_videoId = Some (videoId r), st_source = Some (sourceName (source r)),
       st_mode = Some (modeName (mode r)), st_lines = Some (map storeLine (lines r)),
       st_plainLyrics = plainLyrics r,
       st_syncMethod = map_option syncMethodName (syncMethod r),
       st_selectedCandidateId = selectedCandidateId r,
       st_candidates = map_option (map storeCandidate) (candidates r) \<rparr>"

section \<open>The catalog\<close>

record LRCLibTrack =
  trackName :: "jsstring option"
  artistName :: "jsstring option"
  track_plainLyrics :: "jsstring option"
  syncedLyrics :: "jsstring option"

record CatalogCandidate =
  cat_track :: LRCLibTrack
  cat_score :: jsnumber
  cat_label :: jsstring

definition extractSyncedLines :: "LRCLibTrack \<Rightarrow> LyricsLine list" where
  "extractSyncedLines track =
     (let synced = orEmpty (syncedLyrics track) in
      if trim synced = [] then [] else parseLrc synced)"

definition extractPlainLyrics :: "LRCLibTrack \<Rightarrow> jsstring" where
  "extractPlainLyrics track =
     (case track_plainLyrics track of None \<Rightarrow> [] | Some p \<Rightarrow> normalizePlainLyrics p)"

definition catalogKey :: "Builtins \<Rightarrow> CatalogCandidate \<Rightarrow> jsstring" where
  "catalogKey B c =
     (let synced = extractSyncedLines (cat_track c); plainText = extractPlainLyrics (cat_track c)
      in toLowerCase B (orEmpty (trackName (cat_track c))) @ ascii ''::''
         @ toLowerCase B (orEmpty (artistName (cat_track c))) @ ascii ''::''
         @ normalizedLyricsFingerprint B (if length synced > 0 then timed else plain)
             synced plainText)"

fun catalogDedup ::
  "Builtins \<Rightarrow> ScriptType \<Rightarrow> jsstring list \<Rightarrow> CatalogCandidate list \<Rightarrow> CatalogCandidate list" where
  \<comment> \<open>the loop that fills the \<^verbatim>\<open>Map\<close> \<^verbatim>\<open>dedup\<close>: \<open>keys\<close> are the keys already set, the result
      is the values in insertion order\<close>
  "catalogDedup B expectedScript keys [] = []"
| "catalogDedup B expectedScript keys (c # cs) =
     (let synced = extractSyncedLines (cat_track c);
          plainText = extractPlainLyrics (cat_track c);
          txt = trim (joinWith [32] (map line_text synced) @ [32] @ plainText)
      in if txt = [] \<or> \<not> isScriptCompatible txt expectedScript
         then catalogDedup B expectedScript keys cs
         else if trim (catalogKey B c) = [] then catalogDedup B expectedScript keys cs
         else if catalogKey B c \<in> set keys then catalogDedup B expectedScript keys cs
         else c # catalogDedup B expectedScript (catalogKey B c # keys) cs)"

definition byScoreDesc :: "('a \<Rightarrow> jsnumber) \<Rightarrow> 'a list \<Rightarrow> 'a list" where
  \<comment> \<open>\<^verbatim>\<open>xs.sort((a, b) => b.score - a.score)\<close>; the sort of an array is stable\<close>
  "byScoreDesc f xs = sort_key (\<lambda>x. - f x) xs"

definition catalogSelect ::
  "Builtins \<Rightarrow> ScriptType \<Rightarrow> CatalogCandidate list \<Rightarrow> CatalogCandidate list" where
  \<comment> \<open>\<open>fetchCatalogLyricsCandidates\<close> from the array \<^verbatim>\<open>collected\<close> on\<close>
  "catalogSelect B expectedScript collected =
     take 6 (byScoreDesc cat_score
               (catalogDedup B expectedScript [] (byScoreDesc cat_score collected)))"

section \<open>getLyrics\<close>

text \<open>
  What one call \<^verbatim>\<open>getLyrics(videoId)\<close> can see of the world: the cache directory of the
  video with its two JSON files, and what each external source answers when it is asked.
  \<^item> \<open>metaFile\<close>: \<^verbatim>\<open>meta.json\<close> parsed, \<open>None\<close> when missing or not JSON; each field is
    \<open>Some\<close> string or \<open>None\<close>;
  \<^item> \<open>lyricsFile\<close>: \<^verbatim>\<open>lyrics.json\<close> parsed, as above;
  \<^item> \<open>mkdirFails\<close>: the cache directory of the video is missing and \<^verbatim>\<open>fs.mkdirSync\<close>
    throws when it is asked to create it (a directory that holds one of the two files
    is there, and \<^verbatim>\<open>mkdirSync\<close> is not called);
  \<^item> \<open>readdirFails\<close>: yt-dlp is installed and \<^verbatim>\<open>fs.readdirSync\<close> of the cache directory
    throws;
  \<^item> \<open>subtitleFile\<close>: the text of the file \<open>fetchCaptionsViaYtDlp\<close> returns, \<open>None\<close> when
    it returns \<^verbatim>\<open>null\<close> or the file cannot be read (the read is inside \<^verbatim>\<open>try\<close>);
  \<^item> \<open>queryFails\<close>: the request loop of \<open>fetchCatalogLyricsCandidates\<close> throws, which
    \<^verbatim>\<open>encodeURIComponent\<close> does on a query with a lone surrogate (a \<^verbatim>\<open>URIError\<close>);
  \<^item> \<open>catalogCollected\<close>: the array \<^verbatim>\<open>collected\<close> that the request loop builds from the
    responses of the catalog, which are taken to have the declared type
    \<^verbatim>\<open>LRCLibTrack\<close>;
  \<^item> \<open>whisperOutput\<close>: the segments of \<^verbatim>\<open>source.json\<close>, \<open>None\<close> when the audio, the tool
    or its output is missing or the output is not JSON;
  \<^item> \<open>writeFails\<close>: \<^verbatim>\<open>fs.writeFileSync\<close> of \<^verbatim>\<open>lyrics.json\<close> throws;
  \<^item> \<open>calls\<close>: the external sources asked so far, in order.
  The calls of the \<^verbatim>\<open>fs\<close> module that are inside \<^verbatim>\<open>try\<close>, and \<^verbatim>\<open>fs.existsSync\<close>, do not
  throw. An exception leaves \<open>getLyrics\<close> as the value \<open>Inl\<close> of the error.
\<close>

datatype ExternalCall = CaptionsFetch | CatalogFetch | WhisperRun

record World =
  metaFile :: "(jsstring option \<times> jsstring option) option"
  lyricsFile :: "StoredLyrics option"
  mkdirFails :: bool
  readdirFails :: bool
  subtitleFile :: "jsstring option"
  queryFails :: bool
  catalogCollected :: "CatalogCandidate list"
  whisperOutput :: "WhisperJsonSegment list option"
  writeFails :: bool
  calls :: "ExternalCall list"

datatype JsError = TypeError | URIError | FsError

definition ensureVideoCacheDir :: "World \<Rightarrow> jsstring \<Rightarrow> JsError + unit" where
  \<comment> \<open>\<^verbatim>\<open>if (!fs.existsSync(dir)) fs.mkdirSync(dir, { recursive: true })\<close>: for a path with
      a NUL character \<^verbatim>\<open>existsSync\<close> is false and \<^verbatim>\<open>mkdirSync\<close> throws\<close>
  "ensureVideoCacheDir w vid =
     (if 0 \<in> set vid then Inl FsError
      else if metaFile w = None \<and> lyricsFile w = None \<and> mkdirFails w then Inl FsError
      else Inr ())"

definition readMeta :: "World \<Rightarrow> jsstring \<times> jsstring" where
  "readMeta w =
     (case metaFile w of
        None \<Rightarrow> ([], [])
      | Some (title, channelTitle) \<Rightarrow> (orEmpty title, orEmpty channelTitle))"

definition writeCachedLyrics :: "LyricsResponse \<Rightarrow> World \<Rightarrow> JsError + World" where
  "writeCachedLyrics result w =
     (case ensureVideoCacheDir w (videoId result) of
        Inl e \<Rightarrow> Inl e
      | Inr _ \<Rightarrow>
          if writeFails w then Inl FsError
          else Inr (w\<lparr> lyricsFile := Some (stringifyLyrics result) \<rparr>))"

definition called :: "ExternalCall \<Rightarrow> World \<Rightarrow> World" where
  "called c w = w\<lparr> calls := calls w @ [c] \<rparr>"

definition fetchCaptionsViaYtDlp :: "World \<Rightarrow> (JsError + jsstring option) \<times> World" where
  "fetchCaptionsViaYtDlp w =
     (if readdirFails w then Inl FsError else Inr (subtitleFile w), called CaptionsFetch w)"

definition fetchCatalogLyricsCandidates ::
  "Builtins \<Rightarrow> ScriptType \<Rightarrow> World \<Rightarrow> (JsError + CatalogCandidate list) \<times> World" where
  "fetchCatalogLyricsCandidates B expectedScript w =
     (if queryFails w then Inl URIError
      else Inr (catalogSelect B expectedScript (catalogCollected w)),
      called CatalogFetch w)"

definition runWhisperAndGetSegments :: "World \<Rightarrow> WhisperSegment list \<times> World" where
  "runWhisperAndGetSegments w = (parseWhisperSegments (whisperOutput w), called WhisperRun w)"

function decimalString :: "nat \<Rightarrow> jsstring" where
  \<comment> \<open>a number inside a template literal\<close>
  "decimalString n = (if n < 10 then [48 + n] else decimalString (n div 10) @ [48 + n mod 10])"
  by pat_completeness auto
termination
  by (relation "measure (\<lambda>n. n)") auto

declare decimalString.simps [simp del]

definition captionCandidates :: "Builtins \<Rightarrow> ScriptType \<Rightarrow> jsstring option \<Rightarrow> RawCandidate list" where
  \<comment> \<open>step 1: what is pushed for the subtitle file\<close>
  "captionCandidates B expectedScript subtitle =
     (case subtitle of
        None \<Rightarrow> []
      | Some raw \<Rightarrow>
          let ls = parseVtt B raw in
          if length ls > 0 \<and> isScriptCompatible (joinWith [32] (map line_text ls)) expectedScript
          then [\<lparr> raw_id = ascii ''captions_vtt'', raw_label = ascii ''YouTube captions'',
                  raw_source = captions, raw_mode = timed, raw_lines = ls,
                  raw_plainLyrics = None, raw_syncMethod = Some native \<rparr>]
          else [])"

definition catalogCandidate :: "nat \<times> CatalogCandidate \<Rightarrow> RawCandidate list" where
  \<comment> \<open>step 2: what is pushed for \<^verbatim>\<open>catalogCandidates[i]\<close>\<close>
  "catalogCandidate p =
     (case p of (i, c) \<Rightarrow>
        let synced = extractSyncedLines (cat_track c);
            plainText = extractPlainLyrics (cat_track c)
        in if length synced > 0
           then [\<lparr> raw_id = ascii ''catalog_synced_'' @ decimalString (i + 1),
                   raw_label = cat_label c, raw_source = catalog, raw_mode = timed,
                   raw_lines = synced, raw_plainLyrics = None,
                   raw_syncMethod = Some native \<rparr>]
           else if plainText \<noteq> []
           then [\<lparr> raw_id = ascii ''catalog_plain_'' @ decimalString (i + 1),
                   raw_label = cat_label c, raw_source = catalog, raw_mode = plain,
                   raw_lines = [], raw_plainLyrics = Some plainText,
                   raw_syncMethod = Some none_sync \<rparr>]
           else [])"

definition alignedCandidate :: "WhisperSegment list \<Rightarrow> RawCandidate \<Rightarrow> RawCandidate list" where
  \<comment> \<open>step 3: what is pushed for one element of \<^verbatim>\<open>plainForAlign\<close>\<close>
  "alignedCandidate segments c =
     (let aligned = alignPlainLyricsWithSegments (orEmpty (raw_plainLyrics c)) segments in
      if length aligned > 0
      then [\<lparr> raw_id = raw_id c @ ascii ''_aligned'',
              raw_label = raw_label c @ ascii '' (AI sync)'',
              raw_source = catalog_aligned, raw_mode = timed, raw_lines = aligned,
              raw_plainLyrics = raw_plainLyrics c, raw_syncMethod = Some ai \<rparr>]
      else [])"

definition sttCandidates :: "WhisperSegment list \<Rightarrow> RawCandidate list" where
  \<comment> \<open>step 4: what is pushed for the segments of the transcription\<close>
  "sttCandidates sttSegments =
     (if length sttSegments > 0 then
        let ls = parseWhisperJson (stringifySegments sttSegments) in
        if length ls > 0
        then [\<lparr> raw_id = ascii ''stt_fallback'', raw_label = ascii ''Whisper transcription'',
                raw_source = stt, raw_mode = timed, raw_lines = ls,
                raw_plainLyrics = None, raw_syncMethod = Some ai \<rparr>]
        else []
      else [])"

definition afterCatalog ::
  "RawCandidate list \<Rightarrow> CatalogCandidate list \<Rightarrow> World \<Rightarrow> RawCandidate list \<times> World" where
  \<comment> \<open>the loop of step 2, and steps 3 and 4: \<open>raw1\<close> is \<^verbatim>\<open>rawCandidates\<close> after step 1\<close>
  "afterCatalog raw1 catalogCandidates w2 =
     (let raw2 = raw1 @ concat (map catalogCandidate (List.enumerate 0 catalogCandidates));
          plainForAlign =
            take 2 (filter (\<lambda>c. raw_source c = catalog \<and> raw_mode c = plain) raw2);
          (raw3, w3) =
            (if length plainForAlign > 0 then
               let (segments, w') = runWhisperAndGetSegments w2 in
               if length segments > 0
               then (raw2 @ concat (map (alignedCandidate segments) plainForAlign), w')
               else (raw2, w')
             else (raw2, w2))
      in if length raw3 = 0 then
           let (sttSegments, w4) = runWhisperAndGetSegments w3
           in (raw3 @ sttCandidates sttSegments, w4)
         else (raw3, w3))"

definition collectRawCandidates ::
  "Builtins \<Rightarrow> ScriptType \<Rightarrow> World \<Rightarrow> (JsError + RawCandidate list) \<times> World" where
  \<comment> \<open>steps 1 to 4 of \<open>getLyrics\<close>: the array \<^verbatim>\<open>rawCandidates\<close> before the final test\<close>
  "collectRawCandidates B expectedScript w0 =
     (case fetchCaptionsViaYtDlp w0 of
        (Inl e, w1) \<Rightarrow> (Inl e, w1)
      | (Inr subtitle, w1) \<Rightarrow>
          (case fetchCatalogLyricsCandidates B expectedScript w1 of
             (Inl e, w2) \<Rightarrow> (Inl e, w2)
           | (Inr catalogCandidates, w2) \<Rightarrow>
               (case afterCatalog (captionCandidates B expectedScript subtitle)
                       catalogCandidates w2 of
                  (rawCandidates, w3) \<Rightarrow> (Inr rawCandidates, w3))))"

definition nonePlaceholder :: LyricsCandidate where
  "nonePlaceholder =
     \<lparr> cand_id = ascii ''none'', cand_label = ascii ''No lyrics'', cand_source = none_source,
       cand_mode = plain, cand_lines = [], cand_plainLyrics = Some [],
       cand_syncMethod = Some none_sync, cand_score = 0 \<rparr>"

definition noneResult :: "jsstring \<Rightarrow> LyricsResponse" where
  "noneResult vid =
     \<lparr> videoId = vid, source = none_source, mode = plain, lines = [],
       plainLyrics = Some [], syncMethod = Some none_sync,
       selectedCandidateId = Some (ascii ''none''), candidates = Some [nonePlaceholder] \<rparr>"

definition cacheHit :: "World \<Rightarrow> jsstring \<Rightarrow> LyricsResponse option" where
  \<comment> \<open>the cached result when the first test of \<open>getLyrics\<close> returns it\<close>
  "cacheHit w vid =
     (let (title, channelTitle) = readMeta w;
          expectedScript = detectExpectedScriptFromMeta title channelTitle
      in case readCachedLyrics vid (lyricsFile w) of
           None \<Rightarrow> None
         | Some cached \<Rightarrow>
             if hasCompatibleLyricsPayload cached expectedScript
                \<and> candidates cached \<noteq> None \<and> length (the (candidates cached)) > 0
             then Some cached else None)"

definition selectedResult :: "jsstring \<Rightarrow> LyricsCandidate list \<Rightarrow> JsError + LyricsResponse" where
  \<comment> \<open>\<^verbatim>\<open>selected = topCandidates[0]\<close> and the object \<^verbatim>\<open>result\<close>: reading a property of
      \<^verbatim>\<open>undefined\<close> throws\<close>
  "selectedResult vid topCandidates =
     (case topCandidates of
        [] \<Rightarrow> Inl TypeError
      | selected # _ \<Rightarrow>
          Inr \<lparr> videoId = vid, source = cand_source selected,
                mode = cand_mode selected, lines = cand_lines selected,
                plainLyrics = cand_plainLyrics selected,
                syncMethod = Some (case cand_syncMethod selected of
                                     None \<Rightarrow> none_sync | Some m \<Rightarrow> m),
                selectedCandidateId = Some (cand_id selected),
                candidates = Some topCandidates \<rparr>)"

definition writeAndReturn :: "LyricsResponse \<Rightarrow> World \<Rightarrow> (JsError + LyricsResponse) \<times> World" where
  \<comment> \<open>\<^verbatim>\<open>writeCachedLyrics(result); return result;\<close>\<close>
  "writeAndReturn result w =
     (case writeCachedLyrics result w of
        Inl e \<Rightarrow> (Inl e, w)
      | Inr w' \<Rightarrow> (Inr result, w'))"

definition finishLyrics ::
  "Builtins \<Rightarrow> ScriptType \<Rightarrow> jsstring \<Rightarrow> RawCandidate list \<Rightarrow> World
     \<Rightarrow> (JsError + LyricsResponse) \<times> World" where
  \<comment> \<open>\<open>getLyrics\<close> from the final test on \<^verbatim>\<open>rawCandidates.length\<close> on\<close>
  "finishLyrics B expectedScript vid rawCandidates w =
     (if length rawCandidates = 0
      then writeAndReturn (noneResult vid) w
      else
        let scored = byScoreDesc cand_score (map (withScore expectedScript) rawCandidates);
            topCandidates = pickTopCandidates B scored 3
        in (case selectedResult vid topCandidates of
              Inl e \<Rightarrow> (Inl e, w)
            | Inr result \<Rightarrow> writeAndReturn result w))"

definition runPipeline ::
  "Builtins \<Rightarrow> ScriptType \<Rightarrow> jsstring \<Rightarrow> World \<Rightarrow> (JsError + LyricsResponse) \<times> World" where
  \<comment> \<open>\<open>getLyrics\<close> after the test on the cached result\<close>
  "runPipeline B expectedScript vid w =
     (case collectRawCandidates B expectedScript w of
        (Inl e, w') \<Rightarrow> (Inl e, w')
      | (Inr rawCandidates, w') \<Rightarrow> finishLyrics B expectedScript vid rawCandidates w')"

definition getLyrics :: "Builtins \<Rightarrow> World \<Rightarrow> jsstring \<Rightarrow> (JsError + LyricsResponse) \<times> World" where
  "getLyrics B w vid =
     (case ensureVideoCacheDir w vid of
        Inl e \<Rightarrow> (Inl e, w)
      | Inr _ \<Rightarrow>
          (let (title, channelTitle) = readMeta w;
               expectedScript = detectExpectedScriptFromMeta title channelTitle
           in (case cacheHit w vid of
                 Some cached \<Rightarrow> (Inr cached, w)
               | None \<Rightarrow> runPipeline B expectedScript vid w)))"

section \<open>The route\<close>

datatype HttpResponse = Json LyricsResponse | BadRequest

definition routeFallback :: "jsstring \<Rightarrow> LyricsResponse" where
  \<comment> \<open>the literal of the \<^verbatim>\<open>catch\<close> branch in \<^verbatim>\<open>routes/lyrics.ts\<close>\<close>
  "routeFallback vid =
     \<lparr> videoId = vid, source = none_source, mode = plain, lines = [],
       plainLyrics = Some [], syncMethod = Some none_sync,
       selectedCandidateId = Some (ascii ''none''),
       candidates = Some [\<lparr> cand_id = ascii ''none'', cand_label = ascii ''No lyrics'',
                             cand_source = none_source, cand_mode = plain, cand_lines = [],
                             cand_plainLyrics = Some [], cand_syncMethod = Some none_sync,
                             cand_score = 0 \<rparr>] \<rparr>"

definition lyricsRoute :: "Builtins \<Rightarrow> World \<Rightarrow> jsstring option \<Rightarrow> HttpResponse \<times> World" where
  \<comment> \<open>\<^verbatim>\<open>router.get("/")\<close>; the argument is \<^verbatim>\<open>req.query.videoId\<close>, \<open>None\<close> when absent\<close>
  "lyricsRoute B w query =
     (let vid = trim (orEmpty query) in
      if vid = [] then (BadRequest, w)
      else case getLyrics B w vid of
             (Inr data, w') \<Rightarrow> (Json data, w')
           | (Inl e, w') \<Rightarrow> (Json (routeFallback vid), w'))"

section \<open>Sample builtins\<close>

text \<open>
  Concrete builtins for evaluating the model on ASCII inputs: on strings of ASCII
  characters \<open>asciiLower\<close> is \<^verbatim>\<open>toLowerCase\<close> and \<open>asciiLetterOrNumber\<close> is the class
  \<^verbatim>\<open>[\p{L}\p{N}]\<close>; on a string of digits, or of digits, a point and digits,
  \<open>plainDecimal\<close> is \<^verbatim>\<open>Number\<close>.
\<close>

definition asciiLower :: "jsstring \<Rightarrow> jsstring" where
  "asciiLower s = map (\<lambda>c. if 65 \<le> c \<and> c \<le> 90 then c + 32 else c) s"

definition asciiLetterOrNumber :: "nat \<Rightarrow> bool" where
  "asciiLetterOrNumber c = (isLatinCh c \<or> isDigitCh c)"

definition plainDecimal :: "jsstring \<Rightarrow> jsnumber option" where
  "plainDecimal s =
     (let ip = takeWhile isDigitCh s; r = dropWhile isDigitCh s in
      if ip = [] then None
      else if r = [] then toDouble (of_nat (digitsValue ip))
      else if hd r = 46 \<and> tl r \<noteq> [] \<and> list_all isDigitCh (tl r)
        then toDouble (of_nat (digitsValue ip) + of_nat (digitsValue (tl r)) / 10 ^ length (tl r))
      else None)"

definition sampleBuiltins :: Builtins where
  "sampleBuiltins =
     \<lparr> toLowerCase = asciiLower, isLetterOrNumber = asciiLetterOrNumber,
       toNumber = plainDecimal \<rparr>"

section \<open>Notions used to state the properties\<close>

definition combinedCount :: "jsstring \<Rightarrow> nat" where
  \<comment> \<open>the number of classifiable characters: Latin + Hangul + Japanese + Cyrillic\<close>
  "combinedCount txt =
     (let c = scriptCharCounts txt in c_latin c + c_hangul c + c_japanese c + c_cyrillic c)"

definition familyCount :: "ScriptCounts \<Rightarrow> ScriptType \<Rightarrow> nat" where
  "familyCount c f =
     (case f of latin \<Rightarrow> c_latin c | korean \<Rightarrow> c_hangul c | japanese \<Rightarrow> c_japanese c
      | cyrillic \<Rightarrow> c_cyrillic c | mixed \<Rightarrow> 0 | unknown \<Rightarrow> 0)"

definition familyRank :: "ScriptType \<Rightarrow> nat" where
  \<comment> \<open>the order in which \<open>detectScript\<close> compares the families with the largest count\<close>
  "familyRank f =
     (case f of korean \<Rightarrow> 0 | japanese \<Rightarrow> 1 | cyrillic \<Rightarrow> 2 | latin \<Rightarrow> 3
      | mixed \<Rightarrow> 4 | unknown \<Rightarrow> 4)"

definition isFamily :: "ScriptType \<Rightarrow> bool" where
  "isFamily f = (f = latin \<or> f = korean \<or> f = japanese \<or> f = cyrillic)"

definition japaneseCount :: "jsstring \<Rightarrow> nat" where
  \<comment> \<open>the Japanese bucket: Hiragana, Katakana and Han characters\<close>
  "japaneseCount txt =
     length (filter isHiraganaCh txt) + length (filter isKatakanaCh txt)
     + length (filter isHanCh txt)"

fun dejittered :: "rat \<Rightarrow> LyricsLine list \<Rightarrow> bool" where
  \<comment> \<open>no two adjacent entries have the same text and times at most \<open>thr\<close> apart\<close>
  "dejittered thr [] = True"
| "dejittered thr [x] = True"
| "dejittered thr (x # y # ys) =
     (\<not> (line_text x = line_text y \<and> \<bar>line_t x - line_t y\<bar> \<le> thr) \<and> dejittered thr (y # ys))"

definition sampleCandidate :: "jsstring \<Rightarrow> jsstring \<Rightarrow> jsnumber \<Rightarrow> LyricsCandidate" where
  \<comment> \<open>a scored catalog candidate with one timed line, for evaluating the model\<close>
  "sampleCandidate ident txt sc =
     \<lparr> cand_id = ident, cand_label = ascii ''sample'', cand_source = catalog,
       cand_mode = timed, cand_lines = [\<lparr> line_t = 1, line_text = txt \<rparr>],
       cand_plainLyrics = None, cand_syncMethod = Some native, cand_score = sc \<rparr>"

text \<open>
  The candidates with a non-empty fingerprint, each fingerprint at its first candidate,
  in the order of the list.
\<close>

function firstByFingerprint :: "Builtins \<Rightarrow> LyricsCandidate list \<Rightarrow> LyricsCandidate list" where
  "firstByFingerprint B [] = []"
| "firstByFingerprint B (c # cs) =
     (if candidateFingerprint B c = [] then firstByFingerprint B cs
      else c # firstByFingerprint B
                 (filter (\<lambda>d. candidateFingerprint B d \<noteq> candidateFingerprint B c) cs))"
  by pat_completeness auto
termination
  by (relation "measure (\<lambda>(B, cs). length cs)") (auto simp: less_Suc_eq_le)



definition expectedScript :: "World \<Rightarrow> ScriptType" where
  \<comment> \<open>the value of \<^verbatim>\<open>expectedScript\<close> in \<open>getLyrics\<close>\<close>
  "expectedScript w = detectExpectedScriptFromMeta (fst (readMeta w)) (snd (readMeta w))"

definition rawInvariant :: "RawCandidate \<Rightarrow> bool" where
  "rawInvariant c =
     ((raw_mode c = timed \<longrightarrow> raw_lines c \<noteq> [])
      \<and> (raw_mode c = plain \<longrightarrow> orEmpty (raw_plainLyrics c) \<noteq> [] \<and> raw_lines c = []))"

definition modeInvariant :: "LyricsCandidate \<Rightarrow> bool" where
  \<comment> \<open>timed implies non-empty lines; plain implies non-empty plain text and no lines\<close>
  "modeInvariant c =
     ((cand_mode c = timed \<longrightarrow> cand_lines c \<noteq> [])
      \<and> (cand_mode c = plain \<longrightarrow> orEmpty (cand_plainLyrics c) \<noteq> [] \<and> cand_lines c = []))"

definition emptyWorld :: World where
  \<comment> \<open>no metadata, no cache, and every source without an answer\<close>
  "emptyWorld =
     \<lparr> metaFile = None, lyricsFile = None, mkdirFails = False, readdirFails = False,
       subtitleFile = None, queryFails = False, catalogCollected = [],
       whisperOutput = None, writeFails = False, calls = [] \<rparr>"

definition punctuationTrack :: "jsstring \<Rightarrow> jsnumber \<Rightarrow> CatalogCandidate" where
  \<comment> \<open>a catalog hit whose synced lyrics are the one line \<^verbatim>\<open>[00:01.00]!!\<close>\<close>
  "punctuationTrack name sc =
     \<lparr> cat_track = \<lparr> trackName = Some name, artistName = None, track_plainLyrics = None,
                      syncedLyrics = Some (ascii ''[00:01.00]!!'') \<rparr>,
       cat_score = sc, cat_label = name @ [32, 8212, 32] @ ascii ''Unknown'' \<rparr>"

definition punctuationWorld :: World where
  \<comment> \<open>the title is \<^verbatim>\<open>1\<close>; the catalog answers the direct request with track \<^verbatim>\<open>A\<close> and the
      search with track \<^verbatim>\<open>B\<close>; no yt-dlp, no whisper, no cache\<close>
  "punctuationWorld =
     \<lparr> metaFile = Some (Some (ascii ''1''), None), lyricsFile = None,
       mkdirFails = False, readdirFails = False, subtitleFile = None, queryFails = False,
       catalogCollected = [punctuationTrack (ascii ''A'') 25, punctuationTrack (ascii ''B'') 10],
       whisperOutput = None, writeFails = False, calls = [] \<rparr>"

definition validResponse :: "jsstring \<Rightarrow> LyricsResponse \<Rightarrow> bool" where
  \<comment> \<open>the response is for the video asked for, its sync method is set, and its candidates
      are a non-empty array; its source, its mode and its lines are well-formed by type\<close>
  "validResponse vid r =
     (videoId r = vid \<and> syncMethod r \<noteq> None
      \<and> (case candidates r of None \<Rightarrow> False | Some cs \<Rightarrow> cs \<noteq> []))"

definition cacheInvariant :: "jsstring \<Rightarrow> World \<Rightarrow> bool" where
  \<comment> \<open>what \<open>readCachedLyrics\<close> reads from the cache document, if anything, has only
      candidates that satisfy the mode invariant or are the placeholder\<close>
  "cacheInvariant vid w =
     (case readCachedLyrics vid (lyricsFile w) of
        None \<Rightarrow> True
      | Some r \<Rightarrow>
          list_all (\<lambda>c. modeInvariant c \<or> c = nonePlaceholder)
            (case candidates r of None \<Rightarrow> [] | Some cs \<Rightarrow> cs))"

definition editedCacheWorld :: World where
  \<comment> \<open>a cache document, not written by \<open>getLyrics\<close>, whose one candidate is timed and has
      no lines\<close>
  "editedCacheWorld =
     \<lparr> metaFile = None,
       lyricsFile = Some
         \<lparr> st_videoId = Some (ascii ''v1''), st_source = Some (ascii ''captions''),
           st_mode = Some (ascii ''timed''), st_lines = Some [],
           st_plainLyrics = None, st_syncMethod = Some (ascii ''native''),
           st_selectedCandidateId = Some (ascii ''c''),
           st_candidates = Some
             [\<lparr> sc_id = Some (ascii ''c''), sc_label = Some (ascii ''l''),
                 sc_source = Some (ascii ''captions''), sc_mode = Some (ascii ''timed''),
                 sc_lines = Some [], sc_plainLyrics = None,
                 sc_syncMethod = Some (ascii ''native''), sc_score = Some 100 \<rparr>] \<rparr>,
       mkdirFails = False, readdirFails = False, subtitleFile = None, queryFails = False,
       catalogCollected = [], whisperOutput = None, writeFails = False, calls = [] \<rparr>"

definition cachedWorld :: World where
  \<comment> \<open>the title is \<^verbatim>\<open>Song\<close>; the cache document for \<^verbatim>\<open>v1\<close> holds one captions candidate with
      the line \<^verbatim>\<open>la la\<close>; the catalog would answer\<close>
  "cachedWorld =
     \<lparr> metaFile = Some (Some (ascii ''Song''), None),
       lyricsFile = Some
         \<lparr> st_videoId = Some (ascii ''v1''), st_source = Some (ascii ''captions''),
           st_mode = Some (ascii ''timed''),
           st_lines = Some [\<lparr> sl_t = Some 1, sl_text = Some (ascii ''la la'') \<rparr>],
           st_plainLyrics = None, st_syncMethod = Some (ascii ''native''),
           st_selectedCandidateId = Some (ascii ''captions_vtt''),
           st_candidates = Some
             [\<lparr> sc_id = Some (ascii ''captions_vtt''), sc_label = Some (ascii ''YouTube captions''),
                 sc_source = Some (ascii ''captions''), sc_mode = Some (ascii ''timed''),
                 sc_lines = Some [\<lparr> sl_t = Some 1, sl_text = Some (ascii ''la la'') \<rparr>],
                 sc_plainLyrics = None, sc_syncMethod = Some (ascii ''native''),
                 sc_score = Some 111 \<rparr>] \<rparr>,
       mkdirFails = False, readdirFails = False, subtitleFile = None, queryFails = False,
       catalogCollected = [punctuationTrack (ascii ''A'') 25],
       whisperOutput = None, writeFails = False, calls = [] \<rparr>"

definition cachedResult :: LyricsResponse where
  \<comment> \<open>what \<open>readCachedLyrics\<close> reads from the document of \<open>cachedWorld\<close>\<close>
  "cachedResult =
     \<lparr> videoId = ascii ''v1'', source = captions, mode = timed,
       lines = [\<lparr> line_t = 1, line_text = ascii ''la la'' \<rparr>],
       plainLyrics = None, syncMethod = Some native,
       selectedCandidateId = Some (ascii ''captions_vtt''),
       candidates = Some
         [\<lparr> cand_id = ascii ''captions_vtt'', cand_label = ascii ''YouTube captions'',
             cand_source = captions, cand_mode = timed,
             cand_lines = [\<lparr> line_t = 1, line_text = ascii ''la la'' \<rparr>],
             cand_plainLyrics = None, cand_syncMethod = Some native, cand_score = 111 \<rparr>] \<rparr>"

definition editedCacheResult :: LyricsResponse where
  \<comment> \<open>what \<open>readCachedLyrics\<close> reads from the document of \<open>editedCacheWorld\<close>\<close>
  "editedCacheResult =
     \<lparr> videoId = ascii ''v1'', source = captions, mode = timed, lines = [],
       plainLyrics = None, syncMethod = Some native,
       selectedCandidateId = Some (ascii ''c''),
       candidates = Some
         [\<lparr> cand_id = ascii ''c'', cand_label = ascii ''l'', cand_source = captions,
             cand_mode = timed, cand_lines = [], cand_plainLyrics = None,
             cand_syncMethod = Some native, cand_score = 100 \<rparr>] \<rparr>"




definition songLabel :: jsstring where
  \<comment> \<open>the label \<^verbatim>\<open>Song - Unknown\<close>, with the dash U+2014\<close>
  "songLabel = ascii ''Song'' @ [32, 8212, 32] @ ascii ''Unknown''"

definition plainTrack :: CatalogCandidate where
  \<comment> \<open>a catalog hit that has plain lyrics only\<close>
  "plainTrack =
     \<lparr> cat_track = \<lparr> trackName = Some (ascii ''Song''), artistName = None,
                      track_plainLyrics = Some (ascii ''good bye''), syncedLyrics = None \<rparr>,
       cat_score = 18, cat_label = songLabel \<rparr>"

definition songWorld :: World where
  \<comment> \<open>the title is \<^verbatim>\<open>Song\<close>; no cache document; yt-dlp gives captions with the one cue
      \<^verbatim>\<open>la la\<close>, the catalog has one hit with plain lyrics, there is no transcription\<close>
  "songWorld =
     \<lparr> metaFile = Some (Some (ascii ''Song''), None), lyricsFile = None,
       mkdirFails = False, readdirFails = False,
       subtitleFile = Some (ascii ''WEBVTT\<newline>\<newline>00:01.000 --> 00:02.000\<newline>la la''),
       queryFails = False, catalogCollected = [plainTrack],
       whisperOutput = None, writeFails = False, calls = [] \<rparr>"

definition songCaptions :: LyricsCandidate where
  "songCaptions =
     \<lparr> cand_id = ascii ''captions_vtt'', cand_label = ascii ''YouTube captions'',
       cand_source = captions, cand_mode = timed,
       cand_lines = [\<lparr> line_t = 1, line_text = ascii ''la la'' \<rparr>],
       cand_plainLyrics = None, cand_syncMethod = Some native, cand_score = 111 \<rparr>"

definition songPlain :: LyricsCandidate where
  "songPlain =
     \<lparr> cand_id = ascii ''catalog_plain_1'',
       cand_label = songLabel,
       cand_source = catalog, cand_mode = plain, cand_lines = [],
       cand_plainLyrics = Some (ascii ''good bye''), cand_syncMethod = Some none_sync,
       cand_score = 92 \<rparr>"

definition songResult :: LyricsResponse where
  \<comment> \<open>what \<open>getLyrics\<close> returns in \<open>songWorld\<close>\<close>
  "songResult =
     \<lparr> videoId = ascii ''v1'', source = captions, mode = timed,
       lines = [\<lparr> line_t = 1, line_text = ascii ''la la'' \<rparr>],
       plainLyrics = None, syncMethod = Some native,
       selectedCandidateId = Some (ascii ''captions_vtt''),
       candidates = Some [songCaptions, songPlain] \<rparr>"


section \<open>Properties of the arithmetic on numbers\<close>

lemma bitlen_powi:
  assumes "0 < (m::int)"
  shows "(2::rat) powi (bitlen m - 1) \<le> of_int m" and "of_int m < (2::rat) powi (bitlen m)"
proof -
  have b: "2 ^ nat (bitlen m - 1) \<le> m" "m < 2 ^ nat (bitlen m)"
    using bitlen_bounds[OF assms] by auto
  have ge: "1 \<le> bitlen m" using assms by (auto simp: bitlen_alt_def)
  have "(2::rat) powi (bitlen m - 1) = 2 ^ nat (bitlen m - 1)"
    using ge by (simp add: power_int_nonneg_exp)
  also have "\<dots> = of_int (2 ^ nat (bitlen m - 1))" by simp
  also have "\<dots> \<le> of_int m" using b(1) by (simp only: of_int_le_iff)
  finally show "(2::rat) powi (bitlen m - 1) \<le> of_int m" .
  have "(2::rat) powi (bitlen m) = 2 ^ nat (bitlen m)"
    using ge by (simp add: power_int_nonneg_exp)
  also have "\<dots> = of_int (2 ^ nat (bitlen m))" by simp
  finally have e: "(2::rat) powi (bitlen m) = of_int (2 ^ nat (bitlen m))" .
  show "of_int m < (2::rat) powi (bitlen m)"
    unfolding e using b(2) by (simp only: of_int_less_iff)
qed

lemma binade_bounds:
  assumes "0 < x"
  shows "2 powi (binade x) \<le> x" and "x < 2 powi (binade x + 1)"
proof -
  obtain p q where pq: "quotient_of x = (p, q)" by (cases "quotient_of x")
  have q: "0 < q" using pq quotient_of_denom_pos by blast
  have x: "x = of_int p / of_int q" using pq quotient_of_div by blast
  have p: "0 < p" using assms q unfolding x by (simp add: zero_less_divide_iff)
  define d where "d = bitlen p - bitlen q"
  note P = bitlen_powi[OF p] and Q = bitlen_powi[OF q]
  have qpos: "(0::rat) < of_int q" using q by simp
  have lo: "2 powi (d - 1) \<le> x"
  proof -
    have "(2::rat) powi (d - 1) * of_int q \<le> 2 powi (d - 1) * 2 powi (bitlen q)"
      using Q(2) by (intro mult_left_mono) auto
    also have "\<dots> = 2 powi (bitlen p - 1)"
      by (simp add: d_def power_int_add[symmetric])
    also have "\<dots> \<le> of_int p" by (rule P(1))
    finally show ?thesis unfolding x using qpos by (simp add: pos_le_divide_eq)
  qed
  have hi: "x < 2 powi (d + 1)"
  proof -
    have "of_int p < (2::rat) powi (bitlen p)" by (rule P(2))
    also have "\<dots> = 2 powi (d + 1) * 2 powi (bitlen q - 1)"
      by (simp add: d_def power_int_add[symmetric])
    also have "\<dots> \<le> 2 powi (d + 1) * of_int q"
      using Q(1) by (intro mult_left_mono) auto
    finally show ?thesis unfolding x using qpos by (simp add: pos_divide_less_eq)
  qed
  have b: "binade x = (if 2 powi d \<le> x then d else d - 1)"
    by (simp add: binade_def pq d_def Let_def)
  show "2 powi (binade x) \<le> x" using lo by (simp add: b)
  show "x < 2 powi (binade x + 1)" using hi by (auto simp add: b not_le)
qed

lemma powi_less_exp:
  assumes "(2::rat) powi a < 2 powi b"
  shows "a < b"
proof (rule ccontr)
  assume "\<not> a < b"
  hence "(2::rat) powi b \<le> 2 powi a" by (intro power_int_increasing) auto
  thus False using assms by simp
qed

lemma binade_eqI:
  assumes "2 powi e \<le> x" and "x < 2 powi (e + 1)"
  shows "binade x = e"
proof -
  have pos: "0 < x" using assms(1) by (meson less_le_trans zero_less_numeral zero_less_power_int)
  note B = binade_bounds[OF pos]
  have "(2::rat) powi e < 2 powi (binade x + 1)" using assms(1) B(2) by simp
  hence 1: "e < binade x + 1" by (rule powi_less_exp)
  have "(2::rat) powi (binade x) < 2 powi (e + 1)" using assms(2) B(1) by simp
  hence 2: "binade x < e + 1" by (rule powi_less_exp)
  from 1 2 show ?thesis by simp
qed

lemma binade_mono:
  assumes "0 < x" and "x \<le> y"
  shows "binade x \<le> binade y"
proof -
  have "0 < y" using assms by simp
  have "(2::rat) powi (binade x) \<le> x" using binade_bounds(1)[OF assms(1)] .
  also have "x \<le> y" by fact
  also have "y < 2 powi (binade y + 1)" using binade_bounds(2)[OF \<open>0 < y\<close>] .
  finally have "binade x < binade y + 1" by (rule powi_less_exp)
  thus ?thesis by simp
qed

lemma roundHalfEven_bounds:
  "\<lfloor>x\<rfloor> \<le> roundHalfEven x" "roundHalfEven x \<le> \<lfloor>x\<rfloor> + 1"
  by (simp_all add: roundHalfEven_def Let_def)

lemma roundHalfEven_of_int [simp]: "roundHalfEven (of_int n) = n"
  by (simp add: roundHalfEven_def)

lemma roundHalfEven_mono:
  assumes "x \<le> y"
  shows "roundHalfEven x \<le> roundHalfEven y"
proof (cases "\<lfloor>x\<rfloor> = \<lfloor>y\<rfloor>")
  case True
  have "x - of_int \<lfloor>x\<rfloor> \<le> y - of_int \<lfloor>y\<rfloor>" using assms True by simp
  thus ?thesis unfolding roundHalfEven_def Let_def True by auto
next
  case False
  have "\<lfloor>x\<rfloor> \<le> \<lfloor>y\<rfloor>" using assms by (rule floor_mono)
  hence "\<lfloor>x\<rfloor> + 1 \<le> \<lfloor>y\<rfloor>" using False by simp
  thus ?thesis using roundHalfEven_bounds(2)[of x] roundHalfEven_bounds(1)[of y] by linarith
qed


lemma ulp_pos [simp]: "0 < ulp x"
  by (simp add: ulp_def)

lemma ulp_nonneg [simp]: "0 \<le> ulp x"
  using ulp_pos[of x] by (rule less_imp_le)

lemma ulp_neq_0 [simp]: "ulp x \<noteq> 0"
  by (simp add: ulp_def)

lemma roundHalfEven_nonneg: "0 \<le> x \<Longrightarrow> 0 \<le> roundHalfEven x"
  using roundHalfEven_bounds(1)[of x] by (simp add: order_trans[rotated])

lemma roundPos_0 [simp]: "roundPos 0 = 0"
  using roundHalfEven_of_int[of 0] by (simp add: roundPos_def del: roundHalfEven_of_int)

lemma roundPos_nonneg: "0 \<le> x \<Longrightarrow> 0 \<le> roundPos x"
  by (simp add: roundPos_def roundHalfEven_nonneg)

lemma roundPos_upper:
  assumes "0 < x"
  shows "roundPos x \<le> 2 powi (max (binade x) (- 1022) + 1)"
proof -
  define e where "e = max (binade x) (- 1022)"
  have u: "ulp x = 2 powi (e - 52)" by (simp add: ulp_def e_def)
  have "x < 2 powi (binade x + 1)" by (rule binade_bounds(2)[OF assms])
  also have "\<dots> \<le> 2 powi (e + 1)" by (intro power_int_increasing) (auto simp: e_def)
  finally have "x \<le> 2 powi (e + 1)" by simp
  hence "x / ulp x \<le> 2 powi (e + 1) / ulp x" by (intro divide_right_mono) auto
  also have "\<dots> = 2 powi 53" unfolding u by (simp add: power_int_diff[symmetric])
  also have "\<dots> = of_int (2 ^ 53)" by simp
  finally have "roundHalfEven (x / ulp x) \<le> roundHalfEven (of_int (2 ^ 53))"
    by (rule roundHalfEven_mono)
  hence "roundHalfEven (x / ulp x) \<le> 2 ^ 53" by (simp only: roundHalfEven_of_int)
  hence "(of_int (roundHalfEven (x / ulp x)) :: rat) \<le> of_int (2 ^ 53)"
    by (simp only: of_int_le_iff)
  hence "roundPos x \<le> of_int (2 ^ 53) * ulp x"
    unfolding roundPos_def by (intro mult_right_mono) auto
  also have "\<dots> = 2 powi 53 * 2 powi (e - 52)" unfolding u by simp
  also have "\<dots> = 2 powi (53 + (e - 52))" by (rule power_int_add[symmetric]) simp
  also have "53 + (e - 52) = e + 1" by simp
  finally show ?thesis unfolding e_def .
qed

lemma roundPos_lower:
  assumes "0 < x" and "- 1022 \<le> binade x"
  shows "2 powi (binade x) \<le> roundPos x"
proof -
  define e where "e = binade x"
  have u: "ulp x = 2 powi (e - 52)" using assms(2) by (simp add: ulp_def e_def max_def)
  have "(of_int (2 ^ 52) :: rat) = 2 powi 52" by simp
  also have "\<dots> = 2 powi e / ulp x" unfolding u by (simp add: power_int_diff[symmetric])
  also have "\<dots> \<le> x / ulp x"
    unfolding e_def by (intro divide_right_mono binade_bounds(1)[OF assms(1)]) auto
  finally have "roundHalfEven (of_int (2 ^ 52)) \<le> roundHalfEven (x / ulp x)"
    by (rule roundHalfEven_mono)
  hence "2 ^ 52 \<le> roundHalfEven (x / ulp x)" by (simp only: roundHalfEven_of_int)
  hence "(of_int (2 ^ 52) :: rat) \<le> of_int (roundHalfEven (x / ulp x))"
    by (simp only: of_int_le_iff)
  hence "of_int (2 ^ 52) * ulp x \<le> roundPos x"
    unfolding roundPos_def by (intro mult_right_mono) auto
  moreover have "of_int (2 ^ 52) * ulp x = 2 powi 52 * 2 powi (e - 52)" unfolding u by simp
  moreover have "(2::rat) powi 52 * 2 powi (e - 52) = 2 powi (52 + (e - 52))"
    by (rule power_int_add[symmetric]) simp
  moreover have "52 + (e - 52) = e" by simp
  ultimately show ?thesis unfolding e_def by simp
qed

lemma roundPos_mono:
  assumes "0 \<le> x" and "x \<le> y"
  shows "roundPos x \<le> roundPos y"
proof (cases "x = 0")
  case True
  thus ?thesis using assms roundPos_nonneg[of y] by simp
next
  case False
  hence x: "0 < x" using assms by simp
  hence y: "0 < y" using assms by simp
  have b: "binade x \<le> binade y" by (rule binade_mono[OF x assms(2)])
  show ?thesis
  proof (cases "max (binade x) (- 1022) = max (binade y) (- 1022)")
    case True
    hence u: "ulp x = ulp y" by (simp add: ulp_def)
    have "x / ulp y \<le> y / ulp y" using assms(2) by (intro divide_right_mono) auto
    hence "roundHalfEven (x / ulp y) \<le> roundHalfEven (y / ulp y)" by (rule roundHalfEven_mono)
    hence "(of_int (roundHalfEven (x / ulp y)) :: rat) \<le> of_int (roundHalfEven (y / ulp y))"
      by (simp only: of_int_le_iff)
    thus ?thesis unfolding roundPos_def u by (intro mult_right_mono) auto
  next
    case False
    hence lt: "max (binade x) (- 1022) < binade y" and ge: "- 1022 \<le> binade y"
      using b by (auto simp: max_def split: if_splits)
    have "roundPos x \<le> 2 powi (max (binade x) (- 1022) + 1)" by (rule roundPos_upper[OF x])
    also have "\<dots> \<le> 2 powi (binade y)" using lt by (intro power_int_increasing) auto
    also have "\<dots> \<le> roundPos y" by (rule roundPos_lower[OF y ge])
    finally show ?thesis .
  qed
qed

lemma nearestDouble_nonneg: "0 \<le> x \<Longrightarrow> nearestDouble x = roundPos x"
  by (cases "x = 0") (simp_all add: nearestDouble_def)

lemma nearestDouble_neg: "x \<le> 0 \<Longrightarrow> nearestDouble x = - roundPos (- x)"
  by (cases "x = 0") (simp_all add: nearestDouble_def)

lemma abs_nearestDouble: "\<bar>nearestDouble x\<bar> = roundPos \<bar>x\<bar>"
  by (cases "x = 0") (simp_all add: nearestDouble_def abs_mult roundPos_nonneg abs_sgn_eq)

lemma nearestDouble_mono:
  assumes "x \<le> y"
  shows "nearestDouble x \<le> nearestDouble y"
proof -
  consider "0 \<le> x" | "y \<le> 0" | "x < 0" "0 < y" by linarith
  thus ?thesis
  proof cases
    case 1
    thus ?thesis using assms by (simp add: nearestDouble_nonneg roundPos_mono)
  next
    case 2
    hence "roundPos (- y) \<le> roundPos (- x)" using assms by (intro roundPos_mono) auto
    thus ?thesis using 2 assms by (simp add: nearestDouble_neg)
  next
    case 3
    have "nearestDouble x \<le> 0" using 3 roundPos_nonneg[of "- x"] by (simp add: nearestDouble_neg)
    moreover have "0 \<le> nearestDouble y" using 3 roundPos_nonneg[of y] by (simp add: nearestDouble_nonneg)
    ultimately show ?thesis by simp
  qed
qed

lemma roundPos_eval:
  assumes "2 powi e \<le> x" and "x < 2 powi (e + 1)" and "- 1022 \<le> e"
  shows "roundPos x = of_int (roundHalfEven (x / 2 powi (e - 52))) * 2 powi (e - 52)"
  using binade_eqI[OF assms(1,2)] assms(3) by (simp add: roundPos_def ulp_def max_def)

lemma roundPos_dyadic:
  assumes "0 \<le> x" and "x < 2 ^ n" and "x * 2 ^ (53 - n) \<in> \<int>" and "n \<le> 53"
  shows "roundPos x = x"
proof (cases "x = 0")
  case True
  thus ?thesis by simp
next
  case False
  hence x: "0 < x" using assms by simp
  define e where "e = max (binade x) (- 1022)"
  have u: "ulp x = 2 powi (e - 52)" by (simp add: ulp_def e_def)
  have "(2::rat) powi (binade x) \<le> x" by (rule binade_bounds(1)[OF x])
  also have "x < 2 powi (int n)" using assms(2) by simp
  finally have "binade x < int n" by (rule powi_less_exp)
  hence e: "e \<le> int n - 1" by (simp add: e_def)
  obtain j where j: "x * 2 ^ (53 - n) = of_int j" using assms(3) by (auto elim: Ints_cases)
  have "x / ulp x = x * 2 powi (52 - e)" unfolding u by (simp add: power_int_diff divide_simps)
  also have "52 - e = int (53 - n) + (int n - 1 - e)" using assms(4) by simp
  also have "x * 2 powi (int (53 - n) + (int n - 1 - e)) = x * 2 ^ (53 - n) * 2 powi (int n - 1 - e)"
    by (simp add: power_int_add)
  also have "\<dots> = of_int j * 2 ^ nat (int n - 1 - e)"
    using e by (simp add: j power_int_nonneg_exp)
  also have "\<dots> = of_int (j * 2 ^ nat (int n - 1 - e))" by simp
  finally have q: "x / ulp x = of_int (j * 2 ^ nat (int n - 1 - e))" .
  have "roundPos x = x / ulp x * ulp x" unfolding roundPos_def q by (simp only: roundHalfEven_of_int)
  thus ?thesis by simp
qed

lemma nearestDouble_dyadic:
  assumes "\<bar>x\<bar> < 2 ^ n" and "x * 2 ^ (53 - n) \<in> \<int>" and "n \<le> 53"
  shows "nearestDouble x = x"
proof -
  have "\<bar>x\<bar> * 2 ^ (53 - n) \<in> \<int>"
    using assms(2) by (cases "0 \<le> x") (auto simp: abs_if dest: Ints_minus)
  hence "roundPos \<bar>x\<bar> = \<bar>x\<bar>" using assms by (intro roundPos_dyadic[of _ n]) auto
  thus ?thesis by (cases "0 \<le> x") (simp_all add: nearestDouble_nonneg nearestDouble_neg)
qed

lemma floor_rat_numeral: "\<lfloor>numeral a / numeral b :: rat\<rfloor> = numeral a div numeral b"
  by (metis floor_divide_of_int_eq of_int_numeral)

lemma nearestDouble_small:
  "\<bar>x\<bar> < 2048 \<Longrightarrow> x * 4398046511104 \<in> \<int> \<Longrightarrow> nearestDouble x = x"
  using nearestDouble_dyadic[of x 11] by simp

lemma toDouble_small:
  "\<bar>x\<bar> < 2048 \<Longrightarrow> x * 4398046511104 \<in> \<int> \<Longrightarrow> toDouble x = Some x"
  by (simp add: toDouble_def nearestDouble_small)

lemma nearestDouble_le_1: "x \<le> 1 \<Longrightarrow> nearestDouble x \<le> 1"
  using nearestDouble_mono[of x 1] by (simp add: nearestDouble_small)

lemma nearestDouble_four_fifths: "nearestDouble (4 / 5) = 3602879701896397 / 4503599627370496"
  by (simp add: nearestDouble_nonneg roundPos_eval[of "-1"] roundHalfEven_def floor_rat_numeral Let_def)

lemma nearestDouble_three_fifths: "nearestDouble (3 / 5) = 5404319552844595 / 9007199254740992"
  by (simp add: nearestDouble_nonneg roundPos_eval[of "-1"] roundHalfEven_def floor_rat_numeral Let_def)

lemma not_farApart:
  assumes "\<bar>a - b\<bar> \<le> thr" and "thr \<le> 1"
  shows "\<not> farApart thr a b"
proof -
  have thr: "0 \<le> thr" using assms(1) by simp
  have "\<bar>nearestDouble (a - b)\<bar> = roundPos \<bar>a - b\<bar>" by (rule abs_nearestDouble)
  also have "\<dots> \<le> roundPos thr" using assms(1) by (intro roundPos_mono) auto
  also have "\<dots> = nearestDouble thr" using thr by (simp add: nearestDouble_nonneg)
  finally have le: "\<bar>nearestDouble (a - b)\<bar> \<le> nearestDouble thr" .
  have "nearestDouble thr \<le> 1" using assms(2) by (rule nearestDouble_le_1)
  hence "\<bar>nearestDouble (a - b)\<bar> < 2 ^ 1024" using le by simp
  thus ?thesis using le by (simp add: farApart_def toDouble_def)
qed

text \<open>
  The doubles of the decimal fractions used below, and a sum that overflows.
\<close>

lemma nearestDouble_minus: "nearestDouble (- x) = - nearestDouble x"
  by (simp add: nearestDouble_def)

lemma nearestDouble_unit: "\<bar>x\<bar> < 1 \<Longrightarrow> x * 9007199254740992 \<in> \<int> \<Longrightarrow> nearestDouble x = x"
  using nearestDouble_dyadic[of x 0] by simp

lemma nearestDouble_three_tenths: "nearestDouble (3 / 10) = 5404319552844595 / 18014398509481984"
  by (simp add: nearestDouble_nonneg roundPos_eval[of "-2"] roundHalfEven_def floor_rat_numeral
      Let_def)

lemma nearestDouble_one_tenth: "nearestDouble (1 / 10) = 3602879701896397 / 36028797018963968"
  by (simp add: nearestDouble_nonneg roundPos_eval[of "-4"] roundHalfEven_def floor_rat_numeral
      Let_def)

lemma nearestDouble_2_3:
  "nearestDouble (41433116571808563 / 18014398509481984) = 2589569785738035 / 1125899906842624"
  by (simp add: nearestDouble_nonneg roundPos_eval[of 1] roundHalfEven_def floor_rat_numeral
      Let_def)

lemma nearestDouble_3_1:
  "nearestDouble (111689270758788301 / 36028797018963968) = 6980579422424269 / 2251799813685248"
  by (simp add: nearestDouble_nonneg roundPos_eval[of 1] roundHalfEven_def floor_rat_numeral
      Let_def)

lemma nearestDouble_difference:
  "nearestDouble (10808639105689191 / 18014398509481984) = 1351079888211149 / 2251799813685248"
  by (simp add: nearestDouble_nonneg roundPos_eval[of "-1"] roundHalfEven_def floor_rat_numeral
      Let_def)

lemma nearestDouble_huge: "nearestDouble (2 ^ 1024) = 2 ^ 1024"
  by (simp add: nearestDouble_nonneg roundPos_eval[of 1024] roundHalfEven_def Let_def)

lemma numberOfDigits_overflow:
  assumes "2 ^ 1024 \<le> (of_nat (digitsValue ds) :: rat)"
  shows "numberOfDigits ds = None"
proof -
  have "nearestDouble (2 ^ 1024) \<le> nearestDouble (of_nat (digitsValue ds))"
    using assms by (rule nearestDouble_mono)
  then have "2 ^ 1024 \<le> \<bar>nearestDouble (of_nat (digitsValue ds))\<bar>"
    by (simp only: nearestDouble_huge)
  then show ?thesis
    by (simp add: numberOfDigits_def toDouble_def)
qed

lemmas double_eval = toDouble_small nearestDouble_small nearestDouble_four_fifths
  nearestDouble_three_fifths farApart_def

section \<open>Properties of the script classification\<close>

lemma foldl_countStep_latin:
  "c_latin (foldl countStep c s) = c_latin c + length (filter isLatinCh s)"
  by (induction s arbitrary: c) (auto simp: countStep_def bump_def)

lemma foldl_countStep_hangul:
  "c_hangul (foldl countStep c s) = c_hangul c + length (filter isHangulCh s)"
  by (induction s arbitrary: c) (auto simp: countStep_def bump_def)

lemma foldl_countStep_hiragana:
  "c_hiragana (foldl countStep c s) = c_hiragana c + length (filter isHiraganaCh s)"
  by (induction s arbitrary: c) (auto simp: countStep_def bump_def)

lemma foldl_countStep_katakana:
  "c_katakana (foldl countStep c s) = c_katakana c + length (filter isKatakanaCh s)"
  by (induction s arbitrary: c) (auto simp: countStep_def bump_def)

lemma foldl_countStep_han:
  "c_han (foldl countStep c s) = c_han c + length (filter isHanCh s)"
  by (induction s arbitrary: c) (auto simp: countStep_def bump_def)

lemma foldl_countStep_cyrillic:
  "c_cyrillic (foldl countStep c s) = c_cyrillic c + length (filter isCyrillicCh s)"
  by (induction s arbitrary: c) (auto simp: countStep_def bump_def)

lemma scriptCharCounts_fields:
  "c_latin (scriptCharCounts s) = length (filter isLatinCh s)"
  "c_hangul (scriptCharCounts s) = length (filter isHangulCh s)"
  "c_hiragana (scriptCharCounts s) = length (filter isHiraganaCh s)"
  "c_katakana (scriptCharCounts s) = length (filter isKatakanaCh s)"
  "c_han (scriptCharCounts s) = length (filter isHanCh s)"
  "c_cyrillic (scriptCharCounts s) = length (filter isCyrillicCh s)"
  by (simp_all add: scriptCharCounts_def zeroCounts_def foldl_countStep_latin
      foldl_countStep_hangul foldl_countStep_hiragana foldl_countStep_katakana
      foldl_countStep_han foldl_countStep_cyrillic)

lemmas chClasses = isLatinCh_def isHangulCh_def isHiraganaCh_def isKatakanaCh_def
  isHanCh_def isCyrillicCh_def

lemma floor_three_fifths: "nat \<lfloor>(of_nat n :: rat) * 3 / 5\<rfloor> = (3 * n) div 5"
proof -
  have "(of_nat n :: rat) * 3 / 5 = of_int (int (3 * n)) / of_int 5" by simp
  then have "\<lfloor>(of_nat n :: rat) * 3 / 5\<rfloor> = int (3 * n) div 5"
    by (simp only: floor_divide_of_int_eq)
  then have "\<lfloor>(of_nat n :: rat) * 3 / 5\<rfloor> = int ((3 * n) div 5)"
    by (simp only: zdiv_int of_nat_numeral)
  then show ?thesis by (simp only: nat_int)
qed

subsection \<open>C6: detectScript\<close>

text \<open>
  C6 as stated fails: \<open>detectScript\<close> compares the largest of the four family counts with
  1, not their sum, and it does so before it counts the families. The text made of the
  letter \<^verbatim>\<open>a\<close> and the Hangul syllable \<^verbatim>\<open>U+AC00\<close> has two classifiable characters and is
  classified \<open>unknown\<close>; with the Cyrillic letter \<^verbatim>\<open>U+0410\<close> added, three families are
  present and the text is still \<open>unknown\<close>, not \<open>mixed\<close>.
\<close>

theorem detectScript_combined_count_counterexample:
  "detectScript [97, 44032] = unknown \<and> \<not> combinedCount [97, 44032] \<le> 1
   \<and> scriptKinds (scriptCharCounts [97, 44032, 1040]) \<ge> 3
   \<and> detectScript [97, 44032, 1040] \<noteq> mixed"
  by (simp add: detectScript_def combinedCount_def scriptTop_def scriptKinds_def c_japanese_def
      scriptCharCounts_fields chClasses)

text \<open>
  C6, amended: \<open>detectScript\<close> returns \<open>unknown\<close> exactly when the largest of the four
  family counts (Latin, Hangul, Japanese = Hiragana + Katakana + Han, Cyrillic) is at most
  1, which covers every text with at most one classifiable character; when the largest
  count is at least 2 and three or more families are present it returns \<open>mixed\<close>;
  otherwise it returns a family whose count is the largest, and among several such
  families the first of korean, japanese, cyrillic, latin.
\<close>

theorem detectScript_by_largest_count:
  "(detectScript txt = unknown \<longleftrightarrow> scriptTop (scriptCharCounts txt) \<le> 1)
   \<and> (combinedCount txt \<le> 1 \<longrightarrow> detectScript txt = unknown)
   \<and> (scriptTop (scriptCharCounts txt) \<ge> 2 \<and> scriptKinds (scriptCharCounts txt) \<ge> 3
        \<longrightarrow> detectScript txt = mixed)
   \<and> (scriptTop (scriptCharCounts txt) \<ge> 2 \<and> scriptKinds (scriptCharCounts txt) < 3 \<longrightarrow>
          isFamily (detectScript txt)
        \<and> familyCount (scriptCharCounts txt) (detectScript txt) = scriptTop (scriptCharCounts txt)
        \<and> (\<forall>f. isFamily f \<and> familyCount (scriptCharCounts txt) f = scriptTop (scriptCharCounts txt)
               \<longrightarrow> familyRank (detectScript txt) \<le> familyRank f))"
proof -
  define c where "c = scriptCharCounts txt"
  have a: "detectScript txt = unknown \<longleftrightarrow> scriptTop c \<le> 1"
    by (simp add: detectScript_def c_def Let_def)
  have b: "combinedCount txt \<le> 1 \<longrightarrow> scriptTop c \<le> 1"
    by (auto simp: combinedCount_def c_def Let_def scriptTop_def)
  have d: "scriptTop c \<ge> 2 \<and> scriptKinds c \<ge> 3 \<longrightarrow> detectScript txt = mixed"
    by (simp add: detectScript_def c_def Let_def)
  have e: "scriptTop c \<ge> 2 \<and> scriptKinds c < 3 \<longrightarrow>
            isFamily (detectScript txt)
            \<and> familyCount c (detectScript txt) = scriptTop c
            \<and> (\<forall>f. isFamily f \<and> familyCount c f = scriptTop c
                   \<longrightarrow> familyRank (detectScript txt) \<le> familyRank f)"
    unfolding detectScript_def c_def[symmetric] Let_def isFamily_def
    by (auto simp: familyCount_def familyRank_def scriptTop_def max_def split: if_splits)
  from a b d e show ?thesis unfolding c_def by blast
qed

text \<open>
  The amended C6 at concrete texts: two Latin letters with three Hangul syllables, a text
  with three families present, a tie between Latin and Hangul, and the empty text.
\<close>

theorem detectScript_by_largest_count_witness:
  "detectScript (ascii ''ab'' @ [44032, 44033, 44034]) = korean
   \<and> detectScript [97, 44032, 1040, 1041] = mixed
   \<and> detectScript (ascii ''ab'' @ [44032, 44033]) = korean
   \<and> detectScript [] = unknown"
  using detectScript_by_largest_count [of "ascii ''ab'' @ [44032, 44033, 44034]"]
        detectScript_by_largest_count [of "[97, 44032, 1040, 1041]"]
        detectScript_by_largest_count [of "ascii ''ab'' @ [44032, 44033]"]
        detectScript_by_largest_count [of "[]"]
  by (simp add: detectScript_def scriptKinds_def scriptTop_def c_japanese_def
      scriptCharCounts_fields chClasses ascii_def)

subsection \<open>C7: isScriptCompatible\<close>

text \<open>
  C7: for an expected script \<open>latin\<close>, a text is compatible exactly when it has at least
  two Latin letters and the Hangul, Japanese and Cyrillic characters together are at most
  \<open>max(2, floor(0.6 * latin))\<close>; so five Latin letters with three Hangul syllables are
  compatible and five Latin letters with four are not. For \<open>korean\<close> or \<open>japanese\<close>, any
  Cyrillic character makes the text incompatible; without one, the text is compatible
  exactly when the local-script count or the Latin count is at least two.
\<close>

theorem isScriptCompatible_thresholds:
  "(isScriptCompatible txt latin \<longleftrightarrow>
      length (filter isLatinCh txt) \<ge> 2
      \<and> length (filter isHangulCh txt) + japaneseCount txt + length (filter isCyrillicCh txt)
          \<le> max 2 (6 * length (filter isLatinCh txt) div 10))
   \<and> (length (filter isLatinCh txt) = 5 \<and> length (filter isHangulCh txt) = 3
        \<and> japaneseCount txt = 0 \<and> length (filter isCyrillicCh txt) = 0
        \<longrightarrow> isScriptCompatible txt latin)
   \<and> (length (filter isLatinCh txt) = 5 \<and> length (filter isHangulCh txt) = 4
        \<longrightarrow> \<not> isScriptCompatible txt latin)
   \<and> (length (filter isCyrillicCh txt) > 0
        \<longrightarrow> \<not> isScriptCompatible txt korean \<and> \<not> isScriptCompatible txt japanese)
   \<and> (length (filter isCyrillicCh txt) = 0 \<longrightarrow>
        (isScriptCompatible txt korean \<longleftrightarrow>
           length (filter isHangulCh txt) \<ge> 2 \<or> length (filter isLatinCh txt) \<ge> 2)
        \<and> (isScriptCompatible txt japanese \<longleftrightarrow>
           japaneseCount txt \<ge> 2 \<or> length (filter isLatinCh txt) \<ge> 2))"
proof -
  have l: "isScriptCompatible txt latin \<longleftrightarrow>
      length (filter isLatinCh txt) \<ge> 2
      \<and> length (filter isHangulCh txt) + japaneseCount txt + length (filter isCyrillicCh txt)
          \<le> max 2 (6 * length (filter isLatinCh txt) div 10)"
    by (auto simp: isScriptCompatible_def Let_def floor_three_fifths scriptCharCounts_fields
        c_japanese_def japaneseCount_def)
  have k: "isScriptCompatible txt korean \<longleftrightarrow>
      length (filter isCyrillicCh txt) = 0
      \<and> (length (filter isHangulCh txt) \<ge> 2 \<or> length (filter isLatinCh txt) \<ge> 2)"
    by (auto simp: isScriptCompatible_def Let_def scriptCharCounts_fields c_japanese_def)
  have j: "isScriptCompatible txt japanese \<longleftrightarrow>
      length (filter isCyrillicCh txt) = 0
      \<and> (japaneseCount txt \<ge> 2 \<or> length (filter isLatinCh txt) \<ge> 2)"
    by (auto simp: isScriptCompatible_def Let_def scriptCharCounts_fields c_japanese_def
        japaneseCount_def)
  show ?thesis
    unfolding l k j by auto
qed

text \<open>C7 at concrete texts, one for each of its cases.\<close>

theorem isScriptCompatible_thresholds_witness:
  "isScriptCompatible (ascii ''abcde'' @ [44032, 44033, 44034]) latin
   \<and> \<not> isScriptCompatible (ascii ''abcde'' @ [44032, 44033, 44034, 44035]) latin
   \<and> \<not> isScriptCompatible [44032, 44033, 1040] korean
   \<and> isScriptCompatible [44032, 44033] korean
   \<and> isScriptCompatible (ascii ''ab'') japanese"
  using isScriptCompatible_thresholds [of "ascii ''abcde'' @ [44032, 44033, 44034]"]
        isScriptCompatible_thresholds [of "ascii ''abcde'' @ [44032, 44033, 44034, 44035]"]
        isScriptCompatible_thresholds [of "[44032, 44033, 1040]"]
        isScriptCompatible_thresholds [of "[44032, 44033]"]
        isScriptCompatible_thresholds [of "ascii ''ab''"]
  by (simp add: japaneseCount_def chClasses ascii_def)

section \<open>Properties of the format parsers\<close>

lemma set_dedupeFrom: "set (dedupeFrom thr prev xs) \<subseteq> set xs"
  by (induction xs arbitrary: prev) auto

lemma sorted_dedupeFrom:
  "sorted (map line_t xs) \<Longrightarrow> sorted (map line_t (dedupeFrom thr prev xs))"
proof (induction xs arbitrary: prev)
  case Nil
  then show ?case by simp
next
  case (Cons x xs)
  have "\<forall>y \<in> set (dedupeFrom thr (Some x) xs). line_t x \<le> line_t y"
    using Cons.prems set_dedupeFrom[of thr "Some x" xs] by auto
  with Cons show ?case by auto
qed

lemma keepAfter_dejittered:
  assumes "thr \<le> 1" and "keepAfter thr (Some x) y"
  shows "\<not> (line_text x = line_text y \<and> \<bar>line_t x - line_t y\<bar> \<le> thr)"
  using assms not_farApart[of "line_t x" "line_t y" thr] by (auto simp: keepAfter_def)

lemma dejittered_Cons:
  assumes "thr \<le> 1" and "case ys of [] \<Rightarrow> True | y # _ \<Rightarrow> keepAfter thr (Some x) y"
    and "dejittered thr ys"
  shows "dejittered thr (x # ys)"
  using assms keepAfter_dejittered[of thr x] by (cases ys) auto

lemma dedupeFrom_head:
  "dedupeFrom thr (Some p) xs = y # ys \<Longrightarrow> keepAfter thr (Some p) y"
  by (induction xs) (auto split: if_splits)

lemma dejittered_dedupeFrom:
  assumes "thr \<le> 1"
  shows "dejittered thr (dedupeFrom thr prev xs)"
proof (induction xs arbitrary: prev)
  case Nil
  then show ?case by simp
next
  case (Cons x xs)
  show ?case
  proof (cases "keepAfter thr prev x")
    case True
    have "case dedupeFrom thr (Some x) xs of [] \<Rightarrow> True | y # _ \<Rightarrow> keepAfter thr (Some x) y"
      by (auto split: list.splits dest: dedupeFrom_head)
    with True Cons.IH[of "Some x"] show ?thesis
      by (simp add: dejittered_Cons[OF assms])
  next
    case False
    with Cons.IH[of prev] show ?thesis by simp
  qed
qed

lemma parseLrc_sorted: "sorted (map line_t (parseLrc content))"
  by (simp add: parseLrc_def dedupeAdjacent_def sorted_dedupeFrom)

lemma parseLrc_dejittered: "dejittered (8 / 10) (parseLrc content)"
  unfolding parseLrc_def dedupeAdjacent_def by (rule dejittered_dedupeFrom) simp

lemma parseVtt_sorted: "sorted (map line_t (parseVtt B content))"
  by (simp add: parseVtt_def)

lemma parseVtt_dejittered_in_order:
  assumes "sorted (map line_t (vttCues B (splitLines content)))"
  shows "dejittered (8 / 10) (parseVtt B content)"
proof -
  have "sorted (map line_t (dedupeAdjacent (8 / 10) (vttCues B (splitLines content))))"
    unfolding dedupeAdjacent_def using assms by (rule sorted_dedupeFrom)
  then have "parseVtt B content = dedupeAdjacent (8 / 10) (vttCues B (splitLines content))"
    unfolding parseVtt_def by (rule sort_key_id_if_sorted)
  moreover have "dejittered (8 / 10) (dedupeFrom (8 / 10) None (vttCues B (splitLines content)))"
    by (rule dejittered_dedupeFrom) simp
  ultimately show ?thesis
    unfolding dedupeAdjacent_def by simp
qed

lemma parseWhisperJson_sorted: "sorted (map line_t (parseWhisperJson raw))"
proof -
  have "sorted (map line_t (map (\<lambda>s. \<lparr> line_t = seg_start s, line_text = seg_text s \<rparr>)
          (parseWhisperSegments raw)))"
    by (cases raw) (simp_all add: parseWhisperSegments_def comp_def)
  then show ?thesis
    unfolding parseWhisperJson_def dedupeAdjacent_def by (rule sorted_dedupeFrom)
qed

lemma parseWhisperJson_dejittered: "dejittered (6 / 10) (parseWhisperJson raw)"
  unfolding parseWhisperJson_def dedupeAdjacent_def by (rule dejittered_dedupeFrom) simp

lemmas text_eval = ascii_def trim_def startsWith_def isSpaceCh_def cleanCaptionText_def
  decodeHtmlEntities_def isBlankLine_def

lemmas number_eval = plainDecimal_def isDigitCh_def digitsValue_def sampleBuiltins_def
  vttSeconds_def vttMinutes_def numberOfDigits_def lrcSeconds_def double_eval

text \<open>
  At the threshold: the tags \<^verbatim>\<open>[00:02.30]\<close> and \<^verbatim>\<open>[00:03.10]\<close> are read as the doubles
  \<open>2.29999999999999982\<close> and \<open>3.10000000000000009\<close>, which differ by more than the double
  \<open>0.8\<close>, and two transcription segments that start at the doubles \<open>0.3\<close> and \<open>0.9\<close> differ by
  more than the double \<open>0.6\<close>: both lines are kept.
\<close>

lemma parseLrcTimestamp_2_30:
  "parseLrcTimestamp (ascii ''00:02.30'') = Some (2589569785738035 / 1125899906842624)"
  by (simp add: parseLrcTimestamp_def lrcFraction_def text_eval isDigitCh_def
      digitsValue_def numberOfDigits_def lrcSeconds_def toDouble_def
      nearestDouble_small nearestDouble_three_tenths nearestDouble_2_3 Let_def)

lemma parseLrcTimestamp_3_10:
  "parseLrcTimestamp (ascii ''00:03.10'') = Some (6980579422424269 / 2251799813685248)"
  by (simp add: parseLrcTimestamp_def lrcFraction_def text_eval isDigitCh_def
      digitsValue_def numberOfDigits_def lrcSeconds_def toDouble_def
      nearestDouble_small nearestDouble_one_tenth nearestDouble_3_1 Let_def)

lemma farApart_2_30_3_10:
  "farApart (4 / 5) (2589569785738035 / 1125899906842624) (6980579422424269 / 2251799813685248)"
  by (simp add: farApart_def toDouble_def nearestDouble_unit nearestDouble_four_fifths)

lemma lrcLine_2_30:
  "lrcLine (ascii ''[00:02.30]x'')
     = [\<lparr> line_t = 2589569785738035 / 1125899906842624, line_text = ascii ''x'' \<rparr>]"
proof -
  have "lrcTags (ascii ''[00:02.30]x'') = [ascii ''00:02.30'']"
    by (simp add: ascii_def)
  moreover have "cleanCaptionText (stripLrcTags (ascii ''[00:02.30]x'')) = ascii ''x''"
    by (simp add: text_eval)
  moreover have "ascii ''x'' \<noteq> []"
    by (simp add: ascii_def)
  ultimately show ?thesis
    by (simp add: lrcLine_def List.map_filter_simps parseLrcTimestamp_2_30 Let_def)
qed

lemma lrcLine_3_10:
  "lrcLine (ascii ''[00:03.10]x'')
     = [\<lparr> line_t = 6980579422424269 / 2251799813685248, line_text = ascii ''x'' \<rparr>]"
proof -
  have "lrcTags (ascii ''[00:03.10]x'') = [ascii ''00:03.10'']"
    by (simp add: ascii_def)
  moreover have "cleanCaptionText (stripLrcTags (ascii ''[00:03.10]x'')) = ascii ''x''"
    by (simp add: text_eval)
  moreover have "ascii ''x'' \<noteq> []"
    by (simp add: ascii_def)
  ultimately show ?thesis
    by (simp add: lrcLine_def List.map_filter_simps parseLrcTimestamp_3_10 Let_def)
qed

lemma parseLrc_at_threshold:
  "parseLrc (ascii ''[00:02.30]x\<newline>[00:03.10]x'')
   = [\<lparr> line_t = 2589569785738035 / 1125899906842624, line_text = ascii ''x'' \<rparr>,
      \<lparr> line_t = 6980579422424269 / 2251799813685248, line_text = ascii ''x'' \<rparr>]"
proof -
  have "splitLines (ascii ''[00:02.30]x\<newline>[00:03.10]x'')
          = [ascii ''[00:02.30]x'', ascii ''[00:03.10]x'']"
    by (simp add: ascii_def)
  then show ?thesis
    by (simp add: parseLrc_def lrcLine_2_30 lrcLine_3_10 dedupeAdjacent_def keepAfter_def
        farApart_2_30_3_10)
qed

lemma farApart_whisper:
  "farApart (3 / 5) (5404319552844595 / 18014398509481984) (8106479329266893 / 9007199254740992)"
  by (simp add: farApart_def toDouble_def nearestDouble_minus nearestDouble_three_fifths
      nearestDouble_difference)

lemma parseWhisperJson_at_threshold:
  "parseWhisperJson
     (Some [\<lparr> wj_start = Some (5404319552844595 / 18014398509481984), wj_text = ascii ''x'' \<rparr>,
            \<lparr> wj_start = Some (8106479329266893 / 9007199254740992), wj_text = ascii ''x'' \<rparr>])
   = [\<lparr> line_t = 5404319552844595 / 18014398509481984, line_text = ascii ''x'' \<rparr>,
      \<lparr> line_t = 8106479329266893 / 9007199254740992, line_text = ascii ''x'' \<rparr>]"
  by (simp add: parseWhisperJson_def parseWhisperSegments_def List.map_filter_simps
      dedupeAdjacent_def keepAfter_def text_eval farApart_whisper)

subsection \<open>C5: the output of the parsers\<close>

lemma vttCues_out_of_order:
  "vttCues sampleBuiltins (splitLines (ascii ''WEBVTT\<newline>\<newline>00:01.000 --> 00:02.000\<newline>a\<newline>\<newline>00:05.000 --> 00:06.000\<newline>b\<newline>\<newline>00:01.500 --> 00:02.000\<newline>a''))
   = [\<lparr> line_t = 1, line_text = ascii ''a'' \<rparr>, \<lparr> line_t = 5, line_text = ascii ''b'' \<rparr>,
      \<lparr> line_t = 3 / 2, line_text = ascii ''a'' \<rparr>]"
  by (simp add: parseVttTime_def text_eval number_eval Let_def)

lemma vttCues_in_order:
  "vttCues sampleBuiltins (splitLines (ascii ''WEBVTT\<newline>\<newline>00:01.000 --> 00:02.000\<newline>a\<newline>\<newline>00:01.500 --> 00:02.000\<newline>a\<newline>\<newline>00:05.000 --> 00:06.000\<newline>b''))
   = [\<lparr> line_t = 1, line_text = ascii ''a'' \<rparr>, \<lparr> line_t = 3 / 2, line_text = ascii ''a'' \<rparr>,
      \<lparr> line_t = 5, line_text = ascii ''b'' \<rparr>]"
  by (simp add: parseVttTime_def text_eval number_eval Let_def)

lemma parseWhisperJson_three_quarters:
  "parseWhisperJson (Some [\<lparr> wj_start = Some 0, wj_text = ascii ''a'' \<rparr>,
                           \<lparr> wj_start = Some (3 / 4), wj_text = ascii ''a'' \<rparr>])
   = [\<lparr> line_t = 0, line_text = ascii ''a'' \<rparr>, \<lparr> line_t = 3 / 4, line_text = ascii ''a'' \<rparr>]"
  by (simp add: parseWhisperJson_def parseWhisperSegments_def List.map_filter_def
      dedupeAdjacent_def keepAfter_def text_eval double_eval)

text \<open>
  C5 as stated fails for \<open>parseVtt\<close>, which removes the repeated cues in file order and
  sorts afterwards. In the file below the cue at 1.5 s comes last; it is kept, because
  the cue before it in the file has another text, and the sort then puts it right after
  the cue at 1 s with the same text:
  \<^verbatim>\<open>WEBVTT / / 00:01.000 --> 00:02.000 / a / / 00:05.000 --> 00:06.000 / b / / 00:01.500 --> 00:02.000 / a\<close>
  (one line per \<^verbatim>\<open>/\<close>).
  The transcription parser uses the threshold 0.6 s: two segments with the same text
  that start 0.75 s apart are both kept.
\<close>

theorem parseVtt_adjacent_duplicate_counterexample:
  "parseVtt sampleBuiltins (ascii ''WEBVTT\<newline>\<newline>00:01.000 --> 00:02.000\<newline>a\<newline>\<newline>00:05.000 --> 00:06.000\<newline>b\<newline>\<newline>00:01.500 --> 00:02.000\<newline>a'')
   = [\<lparr> line_t = 1, line_text = ascii ''a'' \<rparr>, \<lparr> line_t = 3 / 2, line_text = ascii ''a'' \<rparr>,
      \<lparr> line_t = 5, line_text = ascii ''b'' \<rparr>]
   \<and> \<not> dejittered (8 / 10)
         (parseVtt sampleBuiltins (ascii ''WEBVTT\<newline>\<newline>00:01.000 --> 00:02.000\<newline>a\<newline>\<newline>00:05.000 --> 00:06.000\<newline>b\<newline>\<newline>00:01.500 --> 00:02.000\<newline>a''))
   \<and> \<not> dejittered (8 / 10)
         (parseWhisperJson (Some [\<lparr> wj_start = Some 0, wj_text = ascii ''a'' \<rparr>,
                                  \<lparr> wj_start = Some (3 / 4), wj_text = ascii ''a'' \<rparr>]))"
  unfolding parseVtt_def vttCues_out_of_order parseWhisperJson_three_quarters
  by (simp add: dedupeAdjacent_def keepAfter_def ascii_def double_eval)

text \<open>
  C5, amended: the output of \<open>parseLrc\<close> is sorted ascending by time and has no two
  adjacent entries with the same text and times at most 0.8 s apart. The output of
  \<open>parseVtt\<close> is sorted ascending by time, and it has no such adjacent entries when the
  cues of the input come in ascending order of their start times. The output of the
  transcription parser \<open>parseWhisperJson\<close> is sorted ascending by time and has no two
  adjacent entries with the same text and times at most 0.6 s apart. The times are the
  numbers of the output, which are doubles, and their difference is the exact one: two
  lines whose tags are written 0.8 s apart and are read as doubles more than 0.8 apart,
  like \<^verbatim>\<open>[00:02.30]\<close> and \<^verbatim>\<open>[00:03.10]\<close>, are both kept.
\<close>

theorem parsers_sorted_dejittered:
  "sorted (map line_t (parseLrc lrc)) \<and> dejittered (8 / 10) (parseLrc lrc)
   \<and> sorted (map line_t (parseVtt B vtt))
   \<and> (sorted (map line_t (vttCues B (splitLines vtt))) \<longrightarrow> dejittered (8 / 10) (parseVtt B vtt))
   \<and> sorted (map line_t (parseWhisperJson raw)) \<and> dejittered (6 / 10) (parseWhisperJson raw)"
  using parseLrc_sorted parseLrc_dejittered parseVtt_sorted parseVtt_dejittered_in_order
        parseWhisperJson_sorted parseWhisperJson_dejittered
  by blast

text \<open>
  The amended C5 on a caption file whose cues are in order, where the repeated cue is
  dropped, and on lyrics and segments at the threshold, where both lines are kept.
\<close>

theorem parsers_sorted_dejittered_witness:
  "sorted (map line_t (vttCues sampleBuiltins (splitLines (ascii ''WEBVTT\<newline>\<newline>00:01.000 --> 00:02.000\<newline>a\<newline>\<newline>00:01.500 --> 00:02.000\<newline>a\<newline>\<newline>00:05.000 --> 00:06.000\<newline>b''))))
   \<and> dejittered (8 / 10) (parseVtt sampleBuiltins (ascii ''WEBVTT\<newline>\<newline>00:01.000 --> 00:02.000\<newline>a\<newline>\<newline>00:01.500 --> 00:02.000\<newline>a\<newline>\<newline>00:05.000 --> 00:06.000\<newline>b''))
   \<and> sorted (map line_t (parseVtt sampleBuiltins (ascii ''WEBVTT\<newline>\<newline>00:01.000 --> 00:02.000\<newline>a\<newline>\<newline>00:01.500 --> 00:02.000\<newline>a\<newline>\<newline>00:05.000 --> 00:06.000\<newline>b'')))
   \<and> parseLrc (ascii ''[00:02.30]x\<newline>[00:03.10]x'')
       = [\<lparr> line_t = 2589569785738035 / 1125899906842624, line_text = ascii ''x'' \<rparr>,
          \<lparr> line_t = 6980579422424269 / 2251799813685248, line_text = ascii ''x'' \<rparr>]
   \<and> dejittered (8 / 10) (parseLrc (ascii ''[00:02.30]x\<newline>[00:03.10]x''))
   \<and> dejittered (6 / 10)
         (parseWhisperJson
            (Some [\<lparr> wj_start = Some (5404319552844595 / 18014398509481984), wj_text = ascii ''x'' \<rparr>,
                   \<lparr> wj_start = Some (8106479329266893 / 9007199254740992), wj_text = ascii ''x'' \<rparr>]))"
  using parsers_sorted_dejittered
          [of "ascii ''[00:02.30]x\<newline>[00:03.10]x''" sampleBuiltins
              "ascii ''WEBVTT\<newline>\<newline>00:01.000 --> 00:02.000\<newline>a\<newline>\<newline>00:01.500 --> 00:02.000\<newline>a\<newline>\<newline>00:05.000 --> 00:06.000\<newline>b''"
              "Some [\<lparr> wj_start = Some (5404319552844595 / 18014398509481984), wj_text = ascii ''x'' \<rparr>,
                     \<lparr> wj_start = Some (8106479329266893 / 9007199254740992), wj_text = ascii ''x'' \<rparr>]"]
        parseLrc_at_threshold
  by (simp add: vttCues_in_order)

section \<open>Properties of the deduplication\<close>

lemma pickLoop_subseq: "subseq (pickLoop B seen n limit cs) cs"
  by (induction cs arbitrary: seen n) (auto simp: Let_def)

lemma pickLoop_fingerprints:
  "c \<in> set (pickLoop B seen n limit cs) \<Longrightarrow>
     candidateFingerprint B c \<noteq> [] \<and> candidateFingerprint B c \<notin> set seen"
proof (induction cs arbitrary: seen n)
  case Nil
  then show ?case by simp
next
  case (Cons a cs)
  show ?case
  proof (cases "candidateFingerprint B a = [] \<or> candidateFingerprint B a \<in> set seen")
    case True
    with Cons.prems have "c \<in> set (pickLoop B seen n limit cs)"
      by (auto simp: Let_def split: if_splits)
    then show ?thesis by (rule Cons.IH)
  next
    case False
    with Cons.prems have "c = a \<or> c \<in> set (pickLoop B (candidateFingerprint B a # seen) (n + 1) limit cs)"
      by (auto simp: Let_def split: if_splits)
    then show ?thesis
    proof
      assume "c = a"
      with False show ?thesis by simp
    next
      assume "c \<in> set (pickLoop B (candidateFingerprint B a # seen) (n + 1) limit cs)"
      from Cons.IH[OF this] show ?thesis by simp
    qed
  qed
qed

lemma pickLoop_distinct: "distinct (map (candidateFingerprint B) (pickLoop B seen n limit cs))"
proof (induction cs arbitrary: seen n)
  case Nil
  then show ?case by simp
next
  case (Cons c cs)
  have "\<forall>x \<in> set (pickLoop B (candidateFingerprint B c # seen) (Suc n) limit cs).
          candidateFingerprint B x \<noteq> candidateFingerprint B c"
    using pickLoop_fingerprints[of _ B "candidateFingerprint B c # seen" "Suc n" limit cs]
    by auto
  with Cons.IH show ?case by (auto simp: Let_def)
qed

lemma pickLoop_length:
  "int n < limit \<Longrightarrow> int n + int (length (pickLoop B seen n limit cs)) \<le> limit"
proof (induction cs arbitrary: seen n)
  case Nil
  then show ?case by simp
next
  case (Cons c cs)
  show ?case
  proof (cases "int (n + 1) \<ge> limit")
    case True
    with Cons.prems Cons.IH[of n seen] show ?thesis by (auto simp: Let_def)
  next
    case False
    then have "int (n + 1) < limit" by simp
    from Cons.IH[OF this, of "candidateFingerprint B c # seen"] Cons.IH[OF Cons.prems, of seen] False
    show ?thesis by (auto simp: Let_def)
  qed
qed

lemma pickLoop_first:
  "c \<in> set (pickLoop B seen n limit cs) \<Longrightarrow>
     find (\<lambda>d. candidateFingerprint B d = candidateFingerprint B c) cs = Some c"
proof (induction cs arbitrary: seen n)
  case Nil
  then show ?case by simp
next
  case (Cons c' cs)
  show ?case
  proof (cases "c = c'")
    case True
    then show ?thesis by simp
  next
    case False
    have ne: "candidateFingerprint B c' \<noteq> candidateFingerprint B c"
      using Cons.prems False pickLoop_fingerprints[of c B seen n limit cs]
        pickLoop_fingerprints[of c B "candidateFingerprint B c' # seen" "n + 1" limit cs]
      by (auto simp: Let_def split: if_splits)
    have "find (\<lambda>d. candidateFingerprint B d = candidateFingerprint B c) cs = Some c"
      using Cons.prems False Cons.IH by (auto simp: Let_def split: if_splits)
    with ne show ?thesis by simp
  qed
qed

lemma sliceTo_short: "length xs \<le> 1 \<Longrightarrow> 1 \<le> limit \<Longrightarrow> sliceTo limit xs = xs"
  by (auto simp: sliceTo_def)

lemma set_pickLoop: "set (pickLoop B seen n limit cs) \<subseteq> set cs"
  by (induction cs arbitrary: seen n) (auto simp: Let_def)

lemma set_pickTopCandidates: "set (pickTopCandidates B cs limit) \<subseteq> set cs"
  using set_pickLoop[of B "[]" 0 limit cs]
  by (auto simp: pickTopCandidates_def sliceTo_def dest: in_set_takeD)

lemma pickLoop_firstByFingerprint:
  "int n < limit \<Longrightarrow>
   pickLoop B seen n limit cs
     = take (nat (limit - int n))
         (firstByFingerprint B (filter (\<lambda>d. candidateFingerprint B d \<notin> set seen) cs))"
proof (induction cs arbitrary: seen n)
  case Nil
  then show ?case by simp
next
  case (Cons c cs)
  let ?fp = "candidateFingerprint B c"
  show ?case
  proof (cases "?fp = [] \<or> ?fp \<in> set seen")
    case True
    then show ?thesis using Cons.IH[OF Cons.prems, of seen] by (auto simp: Let_def)
  next
    case False
    have f: "filter (\<lambda>d. candidateFingerprint B d \<noteq> ?fp)
               (filter (\<lambda>d. candidateFingerprint B d \<notin> set seen) cs)
             = filter (\<lambda>d. candidateFingerprint B d \<notin> set (?fp # seen)) cs"
      by (auto intro: filter_cong)
    have pos: "nat (limit - int n) = Suc (nat (limit - int n) - 1)"
      using Cons.prems by simp
    show ?thesis
    proof (cases "int (n + 1) \<ge> limit")
      case True
      then have "nat (limit - int n) = Suc 0" using Cons.prems by simp
      then show ?thesis using False True by (simp add: Let_def)
    next
      case lt: False
      then have "int (n + 1) < limit" by simp
      from Cons.IH[OF this, of "?fp # seen"]
      have "pickLoop B (?fp # seen) (n + 1) limit cs
              = take (nat (limit - int (n + 1)))
                  (firstByFingerprint B (filter (\<lambda>d. candidateFingerprint B d \<notin> set (?fp # seen)) cs))" .
      moreover have "nat (limit - int (n + 1)) = nat (limit - int n) - 1" by simp
      ultimately show ?thesis
        using False lt pos by (simp add: Let_def take_Cons' conj_commute)
    qed
  qed
qed

lemma fingerprints_firstByFingerprint:
  "candidateFingerprint B ` set (firstByFingerprint B cs)
     = candidateFingerprint B ` set cs - {[]}"
  by (induction B cs rule: firstByFingerprint.induct) auto

lemma pickTopCandidates_firstByFingerprint:
  assumes "1 \<le> limit" and "2 \<le> length cands"
  shows "pickTopCandidates B cands limit = take (nat limit) (firstByFingerprint B cands)"
  using assms pickLoop_firstByFingerprint[of 0 limit B "[]" cands]
  by (simp add: pickTopCandidates_def)

lemma pickTopCandidates_complete:
  assumes "1 \<le> limit" and "2 \<le> length cands" and "c \<in> set cands"
    and "candidateFingerprint B c \<noteq> []"
  shows "candidateFingerprint B c \<in> candidateFingerprint B ` set (pickTopCandidates B cands limit)
         \<or> int (length (pickTopCandidates B cands limit)) = limit"
proof (cases "length (firstByFingerprint B cands) \<le> nat limit")
  case True
  then have "pickTopCandidates B cands limit = firstByFingerprint B cands"
    using pickTopCandidates_firstByFingerprint[OF assms(1,2), of B] by simp
  moreover have "candidateFingerprint B c \<in> candidateFingerprint B ` set (firstByFingerprint B cands)"
    unfolding fingerprints_firstByFingerprint using assms(3,4) by auto
  ultimately show ?thesis by simp
next
  case False
  then have "length (pickTopCandidates B cands limit) = nat limit"
    using pickTopCandidates_firstByFingerprint[OF assms(1,2), of B] by simp
  then show ?thesis using assms(1) by simp
qed

lemmas fingerprint_eval = candidateFingerprint_def normalizedLyricsFingerprint_def
  fingerprintText_def sampleBuiltins_def asciiLower_def asciiLetterOrNumber_def isLatinCh_def
  isDigitCh_def trim_def isSpaceCh_def isHighSurrogate_def isLowSurrogate_def orEmpty_def
  ascii_def sampleCandidate_def

subsection \<open>C8: pickTopCandidates\<close>

text \<open>
  C8 as stated fails in two places. A list of at most one candidate is returned by the
  first line of \<open>pickTopCandidates\<close> before any fingerprint is computed, so a single
  candidate whose text is \<^verbatim>\<open>!!\<close> (empty fingerprint) is kept. And the loop tests the
  limit after it has pushed a candidate, so with limit 0 one candidate is returned.
\<close>

theorem pickTopCandidates_counterexample:
  "candidateFingerprint sampleBuiltins (sampleCandidate (ascii ''c1'') (ascii ''!!'') 105) = []
   \<and> pickTopCandidates sampleBuiltins [sampleCandidate (ascii ''c1'') (ascii ''!!'') 105] 3
       = [sampleCandidate (ascii ''c1'') (ascii ''!!'') 105]
   \<and> pickTopCandidates sampleBuiltins
        [sampleCandidate (ascii ''c1'') (ascii ''Hello, World'') 105,
         sampleCandidate (ascii ''c2'') (ascii ''bye'') 105] 0
       = [sampleCandidate (ascii ''c1'') (ascii ''Hello, World'') 105]"
  by (simp add: fingerprint_eval pickTopCandidates_def sliceTo_def Let_def)

text \<open>
  C8, amended: for every list of scored candidates and every limit of at least 1, the
  result of \<open>pickTopCandidates\<close> is a subsequence of the input (the input order is
  preserved), no two of its candidates have the same fingerprint, each of its candidates
  is the first of the input with its fingerprint, and its length is at most the limit.
  An input of at most one candidate is returned as it is. When the input has two or more
  candidates, none in the result has an empty fingerprint, and the result is made of the
  first candidates, up to the limit, of the list that keeps every non-empty fingerprint
  of the input at its first candidate: a candidate with a non-empty fingerprint is left
  out only when an earlier candidate has its fingerprint or when the result already
  has as many candidates as the limit.
\<close>

theorem pickTopCandidates_distinct_limited:
  assumes "1 \<le> limit"
  shows "subseq (pickTopCandidates B cands limit) cands
       \<and> distinct (map (candidateFingerprint B) (pickTopCandidates B cands limit))
       \<and> (\<forall>c \<in> set (pickTopCandidates B cands limit).
             find (\<lambda>d. candidateFingerprint B d = candidateFingerprint B c) cands = Some c)
       \<and> int (length (pickTopCandidates B cands limit)) \<le> limit
       \<and> (2 \<le> length cands \<longrightarrow>
             (\<forall>c \<in> set (pickTopCandidates B cands limit). candidateFingerprint B c \<noteq> []))
       \<and> (length cands \<le> 1 \<longrightarrow> pickTopCandidates B cands limit = cands)
       \<and> (2 \<le> length cands \<longrightarrow>
             pickTopCandidates B cands limit = take (nat limit) (firstByFingerprint B cands))
       \<and> (2 \<le> length cands \<longrightarrow>
             (\<forall>c \<in> set cands. candidateFingerprint B c \<noteq> [] \<longrightarrow>
                candidateFingerprint B c
                  \<in> candidateFingerprint B ` set (pickTopCandidates B cands limit)
                \<or> int (length (pickTopCandidates B cands limit)) = limit))"
proof (cases "length cands \<le> 1")
  case True
  then have eq: "pickTopCandidates B cands limit = cands"
    using assms by (simp add: pickTopCandidates_def sliceTo_short)
  from True have "cands = [] \<or> (\<exists>c. cands = [c])"
    by (cases cands) auto
  then show ?thesis
    unfolding eq using True assms by auto
next
  case False
  then have eq: "pickTopCandidates B cands limit = pickLoop B [] 0 limit cands"
    by (simp add: pickTopCandidates_def)
  have two: "2 \<le> length cands"
    using False by simp
  have len: "int (length (pickLoop B [] 0 limit cands)) \<le> limit"
    using pickLoop_length[of 0 limit B "[]" cands] assms by simp
  have firsts: "pickTopCandidates B cands limit = take (nat limit) (firstByFingerprint B cands)"
    using assms two by (rule pickTopCandidates_firstByFingerprint)
  have complete: "\<forall>c \<in> set cands. candidateFingerprint B c \<noteq> [] \<longrightarrow>
      candidateFingerprint B c \<in> candidateFingerprint B ` set (pickTopCandidates B cands limit)
      \<or> int (length (pickTopCandidates B cands limit)) = limit"
    using pickTopCandidates_complete[OF assms two] by blast
  have upper: "subseq (pickTopCandidates B cands limit) cands
       \<and> distinct (map (candidateFingerprint B) (pickTopCandidates B cands limit))
       \<and> (\<forall>c \<in> set (pickTopCandidates B cands limit).
             find (\<lambda>d. candidateFingerprint B d = candidateFingerprint B c) cands = Some c)
       \<and> int (length (pickTopCandidates B cands limit)) \<le> limit
       \<and> (\<forall>c \<in> set (pickTopCandidates B cands limit). candidateFingerprint B c \<noteq> [])"
    unfolding eq
    using len pickLoop_subseq[of B "[]" 0 limit cands]
      pickLoop_distinct[of B "[]" 0 limit cands] pickLoop_first[of _ B "[]" 0 limit cands]
      pickLoop_fingerprints[of _ B "[]" 0 limit cands]
    by auto
  show ?thesis
    using upper firsts complete False by blast
qed

text \<open>
  The amended C8 with limit 3 on four candidates: the second differs from the first in
  case and punctuation only, the third has an empty fingerprint; the fourth is kept,
  since the result has fewer candidates than the limit.
\<close>

theorem pickTopCandidates_distinct_limited_witness:
  "(1::int) \<le> 3
   \<and> pickTopCandidates sampleBuiltins
        [sampleCandidate (ascii ''c1'') (ascii ''Hello, World'') 105,
         sampleCandidate (ascii ''c2'') (ascii ''hello world!'') 105,
         sampleCandidate (ascii ''c3'') (ascii ''!!'') 105,
         sampleCandidate (ascii ''c4'') (ascii ''bye'') 105] 3
       = [sampleCandidate (ascii ''c1'') (ascii ''Hello, World'') 105,
          sampleCandidate (ascii ''c4'') (ascii ''bye'') 105]
   \<and> distinct (map (candidateFingerprint sampleBuiltins)
        (pickTopCandidates sampleBuiltins
          [sampleCandidate (ascii ''c1'') (ascii ''Hello, World'') 105,
           sampleCandidate (ascii ''c2'') (ascii ''hello world!'') 105,
           sampleCandidate (ascii ''c3'') (ascii ''!!'') 105,
           sampleCandidate (ascii ''c4'') (ascii ''bye'') 105] 3))
   \<and> take 3 (firstByFingerprint sampleBuiltins
          [sampleCandidate (ascii ''c1'') (ascii ''Hello, World'') 105,
           sampleCandidate (ascii ''c2'') (ascii ''hello world!'') 105,
           sampleCandidate (ascii ''c3'') (ascii ''!!'') 105,
           sampleCandidate (ascii ''c4'') (ascii ''bye'') 105])
       = [sampleCandidate (ascii ''c1'') (ascii ''Hello, World'') 105,
          sampleCandidate (ascii ''c4'') (ascii ''bye'') 105]"
  using pickTopCandidates_distinct_limited
          [of 3 sampleBuiltins
            "[sampleCandidate (ascii ''c1'') (ascii ''Hello, World'') 105,
              sampleCandidate (ascii ''c2'') (ascii ''hello world!'') 105,
              sampleCandidate (ascii ''c3'') (ascii ''!!'') 105,
              sampleCandidate (ascii ''c4'') (ascii ''bye'') 105]"]
  by (simp add: fingerprint_eval pickTopCandidates_def Let_def)

section \<open>Properties of the alignment\<close>

















subsection \<open>C9: alignPlainLyricsWithSegments\<close>




section \<open>Properties of getLyrics\<close>

lemma cacheHit_Some_iff:
  "cacheHit w vid = Some cached \<longleftrightarrow>
     readCachedLyrics vid (lyricsFile w) = Some cached
     \<and> hasCompatibleLyricsPayload cached (expectedScript w)
     \<and> (\<exists>cs. candidates cached = Some cs \<and> cs \<noteq> [])"
  by (auto simp: cacheHit_def expectedScript_def split: prod.splits option.splits)

lemma readCachedLyrics_videoId:
  "readCachedLyrics vid file = Some cached \<Longrightarrow>
     videoId cached = vid \<and> syncMethod cached \<noteq> None \<and> 0 \<notin> set vid \<and> file \<noteq> None"
  by (auto simp: readCachedLyrics_def split: option.splits if_splits)

lemma ensureVideoCacheDir_cached:
  "readCachedLyrics vid (lyricsFile w) = Some cached \<Longrightarrow> ensureVideoCacheDir w vid = Inr ()"
  by (auto simp: ensureVideoCacheDir_def dest: readCachedLyrics_videoId)

lemma ensureVideoCacheDir_Inr:
  "ensureVideoCacheDir w vid = Inr u \<Longrightarrow> 0 \<notin> set vid"
  by (auto simp: ensureVideoCacheDir_def split: if_splits)

lemma getLyrics_throws_first:
  "ensureVideoCacheDir w vid = Inl e \<Longrightarrow> getLyrics B w vid = (Inl e, w)"
  by (simp add: getLyrics_def)

lemma getLyrics_hit:
  assumes "cacheHit w vid = Some cached"
  shows "getLyrics B w vid = (Inr cached, w)"
proof -
  have "readCachedLyrics vid (lyricsFile w) = Some cached"
    using assms by (simp add: cacheHit_Some_iff)
  then have "ensureVideoCacheDir w vid = Inr ()"
    by (rule ensureVideoCacheDir_cached)
  then show ?thesis
    using assms by (simp add: getLyrics_def split: prod.splits)
qed

lemma getLyrics_miss:
  "ensureVideoCacheDir w vid = Inr () \<Longrightarrow> cacheHit w vid = None \<Longrightarrow>
   getLyrics B w vid = runPipeline B (expectedScript w) vid w"
  by (simp add: getLyrics_def expectedScript_def Let_def split: prod.splits)

lemma afterCatalog_world:
  "snd (afterCatalog raw1 cc w) = w\<lparr> calls := calls (snd (afterCatalog raw1 cc w)) \<rparr>"
  by (simp add: afterCatalog_def Let_def split_beta runWhisperAndGetSegments_def called_def)

lemma collectRawCandidates_world:
  "snd (collectRawCandidates B e w) = w\<lparr> calls := calls (snd (collectRawCandidates B e w)) \<rparr>"
proof -
  have "snd (afterCatalog raw1 cc (called CatalogFetch (called CaptionsFetch w)))
        = w\<lparr> calls := calls (snd (afterCatalog raw1 cc (called CatalogFetch (called CaptionsFetch w)))) \<rparr>"
    for raw1 cc
    using afterCatalog_world[of raw1 cc "called CatalogFetch (called CaptionsFetch w)"]
    by (simp add: called_def)
  then show ?thesis
    by (simp add: collectRawCandidates_def fetchCaptionsViaYtDlp_def
        fetchCatalogLyricsCandidates_def called_def split_beta)
qed

lemma ensureVideoCacheDir_calls:
  "ensureVideoCacheDir (w\<lparr> calls := cs \<rparr>) vid = ensureVideoCacheDir w vid"
  by (simp add: ensureVideoCacheDir_def)

lemma ensureVideoCacheDir_collected:
  "ensureVideoCacheDir (snd (collectRawCandidates B e w)) vid = ensureVideoCacheDir w vid"
  by (subst collectRawCandidates_world) (rule ensureVideoCacheDir_calls)

lemma writeFails_collected: "writeFails (snd (collectRawCandidates B e w)) = writeFails w"
  by (subst collectRawCandidates_world) simp

lemma writeAndReturn_ok:
  "ensureVideoCacheDir w (videoId r) = Inr () \<Longrightarrow> \<not> writeFails w \<Longrightarrow>
   writeAndReturn r w = (Inr r, w\<lparr> lyricsFile := Some (stringifyLyrics r) \<rparr>)"
  by (simp add: writeAndReturn_def writeCachedLyrics_def)

lemma writeAndReturn_Inr:
  "writeAndReturn r w = (Inr r', w') \<Longrightarrow>
     r' = r \<and> w' = w\<lparr> lyricsFile := Some (stringifyLyrics r) \<rparr> \<and> 0 \<notin> set (videoId r)"
  by (auto simp: writeAndReturn_def writeCachedLyrics_def split: sum.splits if_splits
      dest: ensureVideoCacheDir_Inr)

lemma finishLyrics_empty: "finishLyrics B e vid [] w = writeAndReturn (noneResult vid) w"
  by (simp add: finishLyrics_def)

lemma noneResult_literal:
  "noneResult vid
   = \<lparr> videoId = vid, source = none_source, mode = plain, lines = [],
       plainLyrics = Some [], syncMethod = Some none_sync,
       selectedCandidateId = Some (ascii ''none''),
       candidates = Some [\<lparr> cand_id = ascii ''none'', cand_label = ascii ''No lyrics'',
                             cand_source = none_source, cand_mode = plain, cand_lines = [],
                             cand_plainLyrics = Some [], cand_syncMethod = Some none_sync,
                             cand_score = 0 \<rparr>] \<rparr>"
  by (simp add: noneResult_def nonePlaceholder_def)


lemma routeFallback_noneResult: "routeFallback vid = noneResult vid"
  by (simp add: routeFallback_def noneResult_literal)

lemma readCandidate_placeholder: "readCandidate (storeCandidate nonePlaceholder) = Some nonePlaceholder"
  by (simp add: readCandidate_def storeCandidate_def nonePlaceholder_def readSource_def
      sourceName_def readMode_def modeName_def readSyncMethod_def syncMethodName_def
      List.map_filter_def ascii_def)

lemma readCachedLyrics_noneResult:
  "0 \<notin> set vid \<Longrightarrow>
   readCachedLyrics vid (Some (stringifyLyrics (noneResult vid))) = Some (noneResult vid)"
proof -
  assume vid: "0 \<notin> set vid"
  have "st_candidates (stringifyLyrics (noneResult vid)) = Some [storeCandidate nonePlaceholder]"
    by (simp add: stringifyLyrics_def noneResult_def)
  moreover have "List.map_filter readCandidate [storeCandidate nonePlaceholder] = [nonePlaceholder]"
    by (simp add: List.map_filter_def readCandidate_placeholder)
  ultimately show ?thesis
    using vid
    by (simp add: readCachedLyrics_def)
       (simp add: stringifyLyrics_def noneResult_def readSource_def sourceName_def readMode_def
         modeName_def readSyncMethod_def syncMethodName_def List.map_filter_def ascii_def)
qed

lemma hasCompatibleLyricsPayload_noneResult: "hasCompatibleLyricsPayload (noneResult vid) e"
  by (simp add: hasCompatibleLyricsPayload_def noneResult_def orEmpty_def trim_def isSpaceCh_def)

lemma cacheHit_noneResult:
  "0 \<notin> set vid \<Longrightarrow> lyricsFile w = Some (stringifyLyrics (noneResult vid)) \<Longrightarrow>
   cacheHit w vid = Some (noneResult vid)"
  by (simp add: cacheHit_Some_iff readCachedLyrics_noneResult hasCompatibleLyricsPayload_noneResult)
     (simp add: noneResult_def)

lemma getLyrics_empty_pipeline:
  assumes "ensureVideoCacheDir w vid = Inr ()"
    and "cacheHit w vid = None"
    and "fst (collectRawCandidates B (expectedScript w) w) = Inr []"
    and "\<not> writeFails w"
  shows "getLyrics B w vid
           = (Inr (noneResult vid),
              (snd (collectRawCandidates B (expectedScript w) w))
                \<lparr> lyricsFile := Some (stringifyLyrics (noneResult vid)) \<rparr>)"
proof -
  define w1 where "w1 = snd (collectRawCandidates B (expectedScript w) w)"
  have c: "collectRawCandidates B (expectedScript w) w = (Inr [], w1)"
    using assms(3) by (simp add: w1_def prod_eq_iff)
  have "ensureVideoCacheDir w1 (videoId (noneResult vid)) = Inr ()"
    using assms(1) by (simp add: w1_def ensureVideoCacheDir_collected noneResult_def)
  moreover have "\<not> writeFails w1"
    using assms(4) by (simp add: w1_def writeFails_collected)
  ultimately have "writeAndReturn (noneResult vid) w1
      = (Inr (noneResult vid), w1\<lparr> lyricsFile := Some (stringifyLyrics (noneResult vid)) \<rparr>)"
    by (rule writeAndReturn_ok)
  then have "getLyrics B w vid
      = (Inr (noneResult vid), w1\<lparr> lyricsFile := Some (stringifyLyrics (noneResult vid)) \<rparr>)"
    using assms(1,2) c
    by (simp add: getLyrics_miss runPipeline_def finishLyrics_empty)
  then show ?thesis
    unfolding w1_def .
qed

lemma detectScript_Song: "detectScript (ascii ''Song'') = latin"
  by (simp add: detectScript_def scriptTop_def scriptKinds_def c_japanese_def
      scriptCharCounts_fields chClasses ascii_def)











lemma readMeta_emptyWorld: "readMeta emptyWorld = ([], [])"
  by (simp add: readMeta_def emptyWorld_def)

lemma detectExpectedScript_empty: "detectExpectedScriptFromMeta [] [] = unknown"
  by (simp add: detectExpectedScriptFromMeta_def detectScript_def scriptTop_def c_japanese_def
      scriptCharCounts_fields chClasses)

lemma expectedScript_emptyWorld: "expectedScript emptyWorld = unknown"
  by (simp add: expectedScript_def readMeta_emptyWorld detectExpectedScript_empty)

lemma cacheHit_emptyWorld: "cacheHit emptyWorld vid = None"
  by (simp add: cacheHit_def readMeta_emptyWorld readCachedLyrics_def emptyWorld_def)

lemma ensureVideoCacheDir_emptyWorld: "ensureVideoCacheDir emptyWorld (ascii ''v1'') = Inr ()"
  by (simp add: ensureVideoCacheDir_def emptyWorld_def ascii_def)

lemma collectRawCandidates_emptyWorld:
  "collectRawCandidates B unknown emptyWorld
     = (Inr [], emptyWorld \<lparr> calls := [CaptionsFetch, CatalogFetch, WhisperRun] \<rparr>)"
  by (simp add: collectRawCandidates_def fetchCaptionsViaYtDlp_def
      fetchCatalogLyricsCandidates_def afterCatalog_def runWhisperAndGetSegments_def called_def
      captionCandidates_def catalogSelect_def byScoreDesc_def sttCandidates_def
      parseWhisperSegments_def emptyWorld_def)

lemma readCachedLyrics_cachedWorld:
  "readCachedLyrics (ascii ''v1'') (lyricsFile cachedWorld) = Some cachedResult"
  by (simp add: readCachedLyrics_def cachedWorld_def cachedResult_def readCandidate_def
      readLine_def readSource_def readMode_def readSyncMethod_def List.map_filter_def ascii_def)

lemma expectedScript_cachedWorld: "expectedScript cachedWorld = latin"
  by (simp add: expectedScript_def readMeta_def cachedWorld_def orEmpty_def
      detectExpectedScriptFromMeta_def detectScript_Song)

lemma hasCompatibleLyricsPayload_cachedResult: "hasCompatibleLyricsPayload cachedResult latin"
  by (simp add: hasCompatibleLyricsPayload_def cachedResult_def orEmpty_def trim_def
      isSpaceCh_def isScriptCompatible_def c_japanese_def scriptCharCounts_fields chClasses
      ascii_def)

subsection \<open>C2: the result without candidates\<close>



text \<open>
  The log of calls records the sources: a call that does not return a cached result asks
  at least for the captions.
\<close>

lemma afterCatalog_calls: "\<exists>rest. calls (snd (afterCatalog raw1 cc w)) = calls w @ rest"
  by (simp add: afterCatalog_def Let_def split_beta runWhisperAndGetSegments_def called_def)

lemma collectRawCandidates_calls:
  "\<exists>rest. calls (snd (collectRawCandidates B e w)) = calls w @ CaptionsFetch # rest"
  using afterCatalog_calls[of _ _ "called CatalogFetch (called CaptionsFetch w)"]
  by (auto simp: collectRawCandidates_def fetchCaptionsViaYtDlp_def
      fetchCatalogLyricsCandidates_def called_def split_beta)

lemma writeAndReturn_calls: "calls (snd (writeAndReturn r w)) = calls w"
  by (simp add: writeAndReturn_def writeCachedLyrics_def split: sum.splits)

lemma finishLyrics_calls: "calls (snd (finishLyrics B e vid raw w)) = calls w"
  by (simp add: finishLyrics_def writeAndReturn_calls Let_def split: sum.splits)

lemma getLyrics_miss_calls:
  assumes "ensureVideoCacheDir w vid = Inr ()" and "cacheHit w vid = None"
  shows "\<exists>rest. calls (snd (getLyrics B w vid)) = calls w @ CaptionsFetch # rest"
  using assms collectRawCandidates_calls[of B "expectedScript w" w]
  by (auto simp: getLyrics_miss runPipeline_def finishLyrics_calls split: prod.splits sum.splits)

subsection \<open>C3: the cached result\<close>

text \<open>
  C3: when \<open>readCachedLyrics\<close> reads a result for the video, its payload is
  script-compatible with the expected script derived again from the metadata, and its
  candidates are a non-empty array, \<open>getLyrics\<close> returns that result unchanged and leaves
  the world as it was: no external source is asked (the log of calls is the same) and
  the cache document is not rewritten.
\<close>

theorem getLyrics_cached:
  assumes "readCachedLyrics vid (lyricsFile w) = Some cached"
    and "hasCompatibleLyricsPayload cached (expectedScript w)"
    and "candidates cached = Some cs" and "cs \<noteq> []"
  shows "getLyrics B w vid = (Inr cached, w)
       \<and> calls (snd (getLyrics B w vid)) = calls w
       \<and> lyricsFile (snd (getLyrics B w vid)) = lyricsFile w"
proof -
  have "cacheHit w vid = Some cached"
    using assms by (simp add: cacheHit_Some_iff)
  then show ?thesis by (simp add: getLyrics_hit)
qed

text \<open>
  C3 in a world whose title is Latin and whose cache document holds one captions
  candidate; the catalog would have answered, and is not asked.
\<close>

theorem getLyrics_cached_witness:
  "readCachedLyrics (ascii ''v1'') (lyricsFile cachedWorld) = Some cachedResult
   \<and> hasCompatibleLyricsPayload cachedResult (expectedScript cachedWorld)
   \<and> candidates cachedResult \<noteq> Some []
   \<and> getLyrics sampleBuiltins cachedWorld (ascii ''v1'') = (Inr cachedResult, cachedWorld)
   \<and> calls (snd (getLyrics sampleBuiltins cachedWorld (ascii ''v1''))) = []"
  using getLyrics_cached [of "ascii ''v1''" cachedWorld cachedResult _ sampleBuiltins]
  by (simp add: readCachedLyrics_cachedWorld expectedScript_cachedWorld
      hasCompatibleLyricsPayload_cachedResult)
     (simp add: cachedResult_def cachedWorld_def)

subsection \<open>C10: the "none" result is never retried\<close>

text \<open>
  C10: once a run of \<open>getLyrics\<close> without candidates has written the \<open>none\<close> result (the
  cache directory was there or could be created, and the write succeeded), every later
  call for the same video that finds this cache document returns the \<open>none\<close> result and
  asks no source, whatever the metadata and whatever the sources would answer by then:
  the empty payload passes \<open>hasCompatibleLyricsPayload\<close> and the placeholder makes the
  candidates non-empty.
\<close>

theorem getLyrics_none_is_final:
  assumes "ensureVideoCacheDir w vid = Inr ()"
    and "cacheHit w vid = None"
    and "fst (collectRawCandidates B (expectedScript w) w) = Inr []"
    and "\<not> writeFails w"
    and "lyricsFile w' = lyricsFile (snd (getLyrics B w vid))"
  shows "fst (getLyrics B w vid) = Inr (noneResult vid)
       \<and> getLyrics B' w' vid = (Inr (noneResult vid), w')
       \<and> calls (snd (getLyrics B' w' vid)) = calls w'"
proof -
  have first: "getLyrics B w vid
      = (Inr (noneResult vid),
         (snd (collectRawCandidates B (expectedScript w) w))
           \<lparr> lyricsFile := Some (stringifyLyrics (noneResult vid)) \<rparr>)"
    using assms(1-4) by (rule getLyrics_empty_pipeline)
  have vid: "0 \<notin> set vid"
    using assms(1) by (rule ensureVideoCacheDir_Inr)
  have "lyricsFile w' = Some (stringifyLyrics (noneResult vid))"
    using assms(5) by (simp add: first)
  with vid have "cacheHit w' vid = Some (noneResult vid)"
    by (rule cacheHit_noneResult)
  then have "getLyrics B' w' vid = (Inr (noneResult vid), w')"
    by (rule getLyrics_hit)
  with first show ?thesis by simp
qed

text \<open>
  C10: the first call runs in the world where no source answers; the second call finds
  its cache document in a world where the catalog has two hits.
\<close>

theorem getLyrics_none_is_final_witness:
  "ensureVideoCacheDir emptyWorld (ascii ''v1'') = Inr ()
   \<and> cacheHit emptyWorld (ascii ''v1'') = None
   \<and> fst (collectRawCandidates sampleBuiltins (expectedScript emptyWorld) emptyWorld) = Inr []
   \<and> \<not> writeFails emptyWorld
   \<and> getLyrics sampleBuiltins
        (punctuationWorld \<lparr> lyricsFile := lyricsFile (snd (getLyrics sampleBuiltins emptyWorld (ascii ''v1''))) \<rparr>)
        (ascii ''v1'')
       = (Inr (noneResult (ascii ''v1'')),
          punctuationWorld \<lparr> lyricsFile := lyricsFile (snd (getLyrics sampleBuiltins emptyWorld (ascii ''v1''))) \<rparr>)"
proof -
  have w: "\<not> writeFails emptyWorld"
    by (simp add: emptyWorld_def)
  have c: "fst (collectRawCandidates sampleBuiltins (expectedScript emptyWorld) emptyWorld) = Inr []"
    by (simp add: expectedScript_emptyWorld collectRawCandidates_emptyWorld)
  from getLyrics_none_is_final
         [OF ensureVideoCacheDir_emptyWorld cacheHit_emptyWorld c w,
          of "punctuationWorld \<lparr> lyricsFile := lyricsFile (snd (getLyrics sampleBuiltins emptyWorld (ascii ''v1''))) \<rparr>"
             sampleBuiltins]
  show ?thesis
    by (simp add: ensureVideoCacheDir_emptyWorld cacheHit_emptyWorld c w)
qed

section \<open>Properties of the candidates of a result\<close>

lemma captionCandidates_invariant:
  "c \<in> set (captionCandidates B e subtitle) \<Longrightarrow> rawInvariant c"
  by (auto simp: captionCandidates_def rawInvariant_def Let_def split: option.splits if_splits)

lemma catalogCandidate_invariant: "c \<in> set (catalogCandidate p) \<Longrightarrow> rawInvariant c"
  by (cases p) (auto simp: catalogCandidate_def rawInvariant_def orEmpty_def Let_def split: if_splits)

lemma alignedCandidate_invariant: "c \<in> set (alignedCandidate segments r) \<Longrightarrow> rawInvariant c"
  by (auto simp: alignedCandidate_def rawInvariant_def Let_def split: if_splits)

lemma sttCandidates_invariant: "c \<in> set (sttCandidates segments) \<Longrightarrow> rawInvariant c"
  by (auto simp: sttCandidates_def rawInvariant_def Let_def split: if_splits)

lemma sttCandidates_Nil: "sttCandidates [] = []"
  by (simp add: sttCandidates_def)

lemma afterCatalog_fst:
  "fst (afterCatalog raw1 cc w)
   = (let raw2 = raw1 @ concat (map catalogCandidate (List.enumerate 0 cc));
          plainForAlign = take 2 (filter (\<lambda>c. raw_source c = catalog \<and> raw_mode c = plain) raw2);
          segments = parseWhisperSegments (whisperOutput w);
          raw3 = (if length plainForAlign > 0 \<and> length segments > 0
                  then raw2 @ concat (map (alignedCandidate segments) plainForAlign)
                  else raw2)
      in if length raw3 = 0 then sttCandidates segments else raw3)"
  by (auto simp: afterCatalog_def Let_def split_beta runWhisperAndGetSegments_def called_def
      sttCandidates_Nil)

lemma collectRawCandidates_Inr:
  assumes "fst (collectRawCandidates B e w) = Inr raw"
  shows "raw = fst (afterCatalog (captionCandidates B e (subtitleFile w))
                      (catalogSelect B e (catalogCollected w))
                      (called CatalogFetch (called CaptionsFetch w)))"
  using assms
  by (auto simp: collectRawCandidates_def fetchCaptionsViaYtDlp_def
      fetchCatalogLyricsCandidates_def called_def split_beta split: if_splits)

lemma afterCatalog_invariant:
  assumes "c \<in> set (fst (afterCatalog raw1 cc w))" and "\<forall>x \<in> set raw1. rawInvariant x"
  shows "rawInvariant c"
proof -
  define raw2 where "raw2 = raw1 @ concat (map catalogCandidate (List.enumerate 0 cc))"
  define pfa where "pfa = take 2 (filter (\<lambda>c. raw_source c = catalog \<and> raw_mode c = plain) raw2)"
  define segments where "segments = parseWhisperSegments (whisperOutput w)"
  have r2: "rawInvariant x" if "x \<in> set raw2" for x
    using that assms(2) unfolding raw2_def
    by (auto dest: catalogCandidate_invariant)
  have al: "rawInvariant x" if "x \<in> set (concat (map (alignedCandidate segments) pfa))" for x
    using that by (auto dest: alignedCandidate_invariant)
  have "c \<in> set raw2 \<or> c \<in> set (concat (map (alignedCandidate segments) pfa))
        \<or> c \<in> set (sttCandidates segments)"
    using assms(1) unfolding afterCatalog_fst Let_def raw2_def[symmetric]
      pfa_def[symmetric] segments_def[symmetric]
    by (auto split: if_splits)
  then show ?thesis
    using r2 al sttCandidates_invariant by blast
qed

lemma collectRawCandidates_invariant:
  assumes "fst (collectRawCandidates B e w) = Inr raw" and "c \<in> set raw"
  shows "rawInvariant c"
  using assms(2) unfolding collectRawCandidates_Inr[OF assms(1)]
  by (rule afterCatalog_invariant) (auto dest: captionCandidates_invariant)

lemma modeInvariant_withScore: "modeInvariant (withScore e c) = rawInvariant c"
  by (simp add: modeInvariant_def rawInvariant_def withScore_def)

lemma readSource_sourceName: "readSource (Some (sourceName x)) = x"
  by (cases x) (simp_all add: readSource_def sourceName_def ascii_def)

lemma readMode_modeName: "readMode (Some (modeName x)) = x"
  by (cases x) (simp_all add: readMode_def modeName_def ascii_def)

lemma readSyncMethod_syncMethodName:
  "readSyncMethod (map_option syncMethodName x) = (case x of None \<Rightarrow> none_sync | Some m \<Rightarrow> m)"
proof (cases x)
  case None
  then show ?thesis by (simp add: readSyncMethod_def)
next
  case (Some m)
  then show ?thesis
    by (cases m) (simp_all add: readSyncMethod_def syncMethodName_def ascii_def)
qed

lemma readLine_storeLine: "readLine (storeLine l) = Some l"
  by (simp add: readLine_def storeLine_def)

lemma map_filter_readLine: "List.map_filter readLine (map storeLine ls) = ls"
  by (induction ls) (simp_all add: List.map_filter_def readLine_storeLine)

lemma readCandidate_storeCandidate:
  "readCandidate (storeCandidate c)
     = Some (c\<lparr> cand_syncMethod :=
                  Some (case cand_syncMethod c of None \<Rightarrow> none_sync | Some m \<Rightarrow> m) \<rparr>)"
  by (simp add: readCandidate_def storeCandidate_def readSource_sourceName readMode_modeName
      readSyncMethod_syncMethodName map_filter_readLine)

lemma stored_candidates_invariant:
  assumes "\<forall>c \<in> set cs. modeInvariant c \<or> c = nonePlaceholder"
  shows "list_all (\<lambda>c. modeInvariant c \<or> c = nonePlaceholder)
           (List.map_filter readCandidate (map storeCandidate cs))"
  using assms
proof (induction cs)
  case Nil
  then show ?case by (simp add: List.map_filter_def)
next
  case (Cons c cs)
  have "modeInvariant (c\<lparr> cand_syncMethod :=
                  Some (case cand_syncMethod c of None \<Rightarrow> none_sync | Some m \<Rightarrow> m) \<rparr>)
        \<or> c\<lparr> cand_syncMethod :=
                  Some (case cand_syncMethod c of None \<Rightarrow> none_sync | Some m \<Rightarrow> m) \<rparr>
            = nonePlaceholder"
    using Cons.prems by (auto simp: modeInvariant_def nonePlaceholder_def)
  with Cons show ?case
    by (simp add: List.map_filter_def readCandidate_storeCandidate)
qed

lemma cacheInvariant_written:
  assumes "\<forall>c \<in> set (case candidates r of None \<Rightarrow> [] | Some cs \<Rightarrow> cs).
             modeInvariant c \<or> c = nonePlaceholder"
  shows "cacheInvariant vid (w\<lparr> lyricsFile := Some (stringifyLyrics r) \<rparr>)"
proof (cases "candidates r")
  case None
  then show ?thesis
    by (simp add: cacheInvariant_def readCachedLyrics_def stringifyLyrics_def)
next
  case (Some cs)
  with assms have "list_all (\<lambda>c. modeInvariant c \<or> c = nonePlaceholder)
           (List.map_filter readCandidate (map storeCandidate cs))"
    by (intro stored_candidates_invariant) simp
  with Some show ?thesis
    by (simp add: cacheInvariant_def readCachedLyrics_def stringifyLyrics_def)
qed

lemma selectedResult_Inr:
  "selectedResult vid tops = Inr r \<Longrightarrow>
     tops \<noteq> [] \<and> candidates r = Some tops \<and> videoId r = vid \<and> syncMethod r \<noteq> None
     \<and> selectedCandidateId r = Some (cand_id (hd tops))"
  by (cases tops) (auto simp: selectedResult_def)

lemma finishLyrics_Inr:
  assumes "finishLyrics B e vid raw w = (Inr r, w')"
  shows "w' = w\<lparr> lyricsFile := Some (stringifyLyrics r) \<rparr> \<and> videoId r = vid
       \<and> syncMethod r \<noteq> None
       \<and> (raw = [] \<longrightarrow> r = noneResult vid)
       \<and> (raw \<noteq> [] \<longrightarrow>
             (\<exists>tops. tops \<noteq> [] \<and> candidates r = Some tops \<and> set tops \<subseteq> withScore e ` set raw))"
proof (cases "raw = []")
  case True
  with assms have "writeAndReturn (noneResult vid) w = (Inr r, w')"
    by (simp add: finishLyrics_def)
  from writeAndReturn_Inr[OF this] True show ?thesis
    by (auto simp: noneResult_def)
next
  case False
  define tops where "tops = pickTopCandidates B (byScoreDesc cand_score (map (withScore e) raw)) 3"
  have sub: "set tops \<subseteq> withScore e ` set raw"
    using set_pickTopCandidates[of B "byScoreDesc cand_score (map (withScore e) raw)" 3]
    by (simp add: tops_def byScoreDesc_def)
  from assms False obtain r0 where sel: "selectedResult vid tops = Inr r0"
    and wr: "writeAndReturn r0 w = (Inr r, w')"
    by (auto simp: finishLyrics_def Let_def tops_def split: sum.splits)
  from writeAndReturn_Inr[OF wr] have "r = r0" and w': "w' = w\<lparr> lyricsFile := Some (stringifyLyrics r) \<rparr>"
    by auto
  with selectedResult_Inr[of vid tops r] sel sub False show ?thesis by auto
qed

lemma getLyrics_Inr_cases:
  assumes "fst (getLyrics B w vid) = Inr r"
  shows "cacheHit w vid = Some r \<and> snd (getLyrics B w vid) = w
       \<or> (cacheHit w vid = None
           \<and> (\<exists>raw. fst (collectRawCandidates B (expectedScript w) w) = Inr raw
                 \<and> finishLyrics B (expectedScript w) vid raw
                      (snd (collectRawCandidates B (expectedScript w) w))
                    = (Inr r, snd (getLyrics B w vid))))"
proof (cases "cacheHit w vid")
  case (Some cached)
  then have "getLyrics B w vid = (Inr cached, w)"
    by (rule getLyrics_hit)
  with assms Some show ?thesis by simp
next
  case None
  have e: "ensureVideoCacheDir w vid = Inr ()"
  proof (cases "ensureVideoCacheDir w vid")
    case (Inl err)
    then have "getLyrics B w vid = (Inl err, w)" by (rule getLyrics_throws_first)
    with assms show ?thesis by simp
  next
    case (Inr u)
    then show ?thesis by simp
  qed
  have g: "getLyrics B w vid = runPipeline B (expectedScript w) vid w"
    using e None by (rule getLyrics_miss)
  obtain x w1 where c: "collectRawCandidates B (expectedScript w) w = (x, w1)"
    by (cases "collectRawCandidates B (expectedScript w) w")
  show ?thesis
  proof (cases x)
    case (Inl err)
    with assms g c show ?thesis by (simp add: runPipeline_def)
  next
    case (Inr raw)
    with assms g c have "finishLyrics B (expectedScript w) vid raw w1 = (Inr r, snd (getLyrics B w vid))"
      by (simp add: runPipeline_def prod_eq_iff)
    with None c Inr show ?thesis by simp
  qed
qed

lemma not_modeInvariant_placeholder: "\<not> modeInvariant nonePlaceholder"
  by (simp add: modeInvariant_def nonePlaceholder_def orEmpty_def)

lemma readCachedLyrics_editedCacheWorld:
  "readCachedLyrics (ascii ''v1'') (lyricsFile editedCacheWorld) = Some editedCacheResult"
  by (simp add: readCachedLyrics_def editedCacheWorld_def editedCacheResult_def readCandidate_def
      readLine_def readSource_def readMode_def readSyncMethod_def List.map_filter_def ascii_def)

lemma getLyrics_editedCacheWorld:
  "getLyrics B editedCacheWorld (ascii ''v1'') = (Inr editedCacheResult, editedCacheWorld)"
proof -
  have "hasCompatibleLyricsPayload editedCacheResult e" for e
    by (simp add: hasCompatibleLyricsPayload_def editedCacheResult_def orEmpty_def trim_def
        isSpaceCh_def)
  then have "cacheHit editedCacheWorld (ascii ''v1'') = Some editedCacheResult"
    by (simp add: cacheHit_Some_iff readCachedLyrics_editedCacheWorld)
       (simp add: editedCacheResult_def)
  then show ?thesis by (rule getLyrics_hit)
qed

lemma cacheInvariant_cachedWorld: "cacheInvariant (ascii ''v1'') cachedWorld"
  by (simp add: cacheInvariant_def readCachedLyrics_cachedWorld)
     (simp add: cachedResult_def modeInvariant_def)

lemma cacheInvariant_songWorld: "cacheInvariant (ascii ''v1'') songWorld"
  by (simp add: cacheInvariant_def readCachedLyrics_def songWorld_def)

text \<open>The run of \<open>getLyrics\<close> in \<open>songWorld\<close>, step by step.\<close>

lemma expectedScript_songWorld: "expectedScript songWorld = latin"
  by (simp add: expectedScript_def readMeta_def songWorld_def orEmpty_def
      detectExpectedScriptFromMeta_def detectScript_Song)

lemma cacheHit_songWorld: "cacheHit songWorld vid = None"
  by (simp add: cacheHit_def readCachedLyrics_def songWorld_def split: prod.splits)

lemma ensureVideoCacheDir_songWorld: "ensureVideoCacheDir songWorld (ascii ''v1'') = Inr ()"
  by (simp add: ensureVideoCacheDir_def songWorld_def ascii_def)

lemma parseVtt_song:
  "parseVtt sampleBuiltins (ascii ''WEBVTT\<newline>\<newline>00:01.000 --> 00:02.000\<newline>la la'')
   = [\<lparr> line_t = 1, line_text = ascii ''la la'' \<rparr>]"
  by (simp add: parseVtt_def parseVttTime_def dedupeAdjacent_def keepAfter_def text_eval
      number_eval Let_def)

lemma compatible_la_la: "isScriptCompatible (ascii ''la la'') latin"
  by (simp add: isScriptCompatible_def c_japanese_def scriptCharCounts_fields chClasses ascii_def)

lemma compatible_good_bye: "isScriptCompatible (ascii ''good bye'') latin"
  by (simp add: isScriptCompatible_def c_japanese_def scriptCharCounts_fields chClasses ascii_def)

lemma captionCandidates_songWorld:
  "captionCandidates sampleBuiltins latin (subtitleFile songWorld)
   = [\<lparr> raw_id = ascii ''captions_vtt'', raw_label = ascii ''YouTube captions'',
         raw_source = captions, raw_mode = timed,
         raw_lines = [\<lparr> line_t = 1, line_text = ascii ''la la'' \<rparr>],
         raw_plainLyrics = None, raw_syncMethod = Some native \<rparr>]"
  by (simp add: captionCandidates_def songWorld_def parseVtt_song compatible_la_la)

lemma extractPlainLyrics_plainTrack: "extractPlainLyrics (cat_track plainTrack) = ascii ''good bye''"
  by (simp add: extractPlainLyrics_def plainTrack_def normalizePlainLyrics_def text_eval)

lemma extractSyncedLines_plainTrack: "extractSyncedLines (cat_track plainTrack) = []"
  by (simp add: extractSyncedLines_def plainTrack_def orEmpty_def trim_def)

lemma fingerprint_good_bye:
  "normalizedLyricsFingerprint sampleBuiltins plain [] (ascii ''good bye'') = ascii ''good bye''"
  by (simp add: fingerprint_eval)

lemma fingerprint_la_la:
  "normalizedLyricsFingerprint sampleBuiltins timed [\<lparr> line_t = 1, line_text = ascii ''la la'' \<rparr>] []
     = ascii ''la la''"
  by (simp add: fingerprint_eval)

lemma catalogSelect_songWorld:
  "catalogSelect sampleBuiltins latin (catalogCollected songWorld) = [plainTrack]"
proof -
  have alltext: "trim ([32] @ ascii ''good bye'') = ascii ''good bye''"
    by (simp add: trim_def ascii_def isSpaceCh_def)
  have key: "trim (catalogKey sampleBuiltins plainTrack) \<noteq> []"
    by (simp add: catalogKey_def extractSyncedLines_plainTrack extractPlainLyrics_plainTrack
        fingerprint_good_bye)
       (simp add: plainTrack_def orEmpty_def sampleBuiltins_def asciiLower_def trim_def
         isSpaceCh_def ascii_def)
  have ne: "ascii ''good bye'' \<noteq> []"
    by (simp add: ascii_def)
  have "catalogDedup sampleBuiltins latin [] [plainTrack] = [plainTrack]"
    using key alltext ne
    by (simp add: extractSyncedLines_plainTrack extractPlainLyrics_plainTrack
        compatible_good_bye Let_def)
  then show ?thesis
    by (simp add: catalogSelect_def byScoreDesc_def songWorld_def)
qed

lemma decimalString_1: "decimalString (Suc 0) = [49]"
  by (simp add: decimalString.simps)

lemma catalogCandidate_plainTrack:
  "catalogCandidate (0, plainTrack)
   = [\<lparr> raw_id = ascii ''catalog_plain_1'',
         raw_label = songLabel,
         raw_source = catalog, raw_mode = plain, raw_lines = [],
         raw_plainLyrics = Some (ascii ''good bye''), raw_syncMethod = Some none_sync \<rparr>]"
proof -
  have "ascii ''good bye'' \<noteq> []" by (simp add: ascii_def)
  then show ?thesis
    by (simp add: catalogCandidate_def extractSyncedLines_plainTrack
        extractPlainLyrics_plainTrack decimalString_1)
       (simp add: plainTrack_def ascii_def)
qed

lemma collectRawCandidates_songWorld:
  "collectRawCandidates sampleBuiltins latin songWorld
   = (Inr (captionCandidates sampleBuiltins latin (subtitleFile songWorld)
           @ catalogCandidate (0, plainTrack)),
      songWorld \<lparr> calls := [CaptionsFetch, CatalogFetch, WhisperRun] \<rparr>)"
proof -
  have f: "readdirFails songWorld = False" "queryFails songWorld = False"
    "calls songWorld = []" "whisperOutput songWorld = None"
    by (simp_all add: songWorld_def)
  show ?thesis
    by (simp add: collectRawCandidates_def fetchCaptionsViaYtDlp_def
        fetchCatalogLyricsCandidates_def afterCatalog_def runWhisperAndGetSegments_def called_def
        catalogSelect_songWorld f parseWhisperSegments_def captionCandidates_songWorld
        catalogCandidate_plainTrack Let_def)
qed

lemma withScore_songCaptions:
  "withScore latin \<lparr> raw_id = ascii ''captions_vtt'', raw_label = ascii ''YouTube captions'',
         raw_source = captions, raw_mode = timed,
         raw_lines = [\<lparr> line_t = 1, line_text = ascii ''la la'' \<rparr>],
         raw_plainLyrics = None, raw_syncMethod = Some native \<rparr> = songCaptions"
proof -
  have "trim (ascii ''la la'' @ [32]) = ascii ''la la''"
    by (simp add: trim_def ascii_def isSpaceCh_def)
  moreover have "ascii ''la la'' \<noteq> []" by (simp add: ascii_def)
  ultimately show ?thesis
    by (simp add: withScore_def scoreLyricsCandidate_def songCaptions_def orEmpty_def
        compatible_la_la Let_def)
qed

lemma withScore_songPlain:
  "withScore latin \<lparr> raw_id = ascii ''catalog_plain_1'',
         raw_label = songLabel,
         raw_source = catalog, raw_mode = plain, raw_lines = [],
         raw_plainLyrics = Some (ascii ''good bye''), raw_syncMethod = Some none_sync \<rparr> = songPlain"
proof -
  have "trim ([32] @ ascii ''good bye'') = ascii ''good bye''"
    by (simp add: trim_def ascii_def isSpaceCh_def)
  moreover have "ascii ''good bye'' \<noteq> []" by (simp add: ascii_def)
  moreover have "length (ascii ''good bye'') div 120 = 0" by (simp add: ascii_def)
  ultimately show ?thesis
    by (simp add: withScore_def scoreLyricsCandidate_def songPlain_def orEmpty_def
        compatible_good_bye Let_def)
qed

lemma pickTopCandidates_song:
  "pickTopCandidates sampleBuiltins [songCaptions, songPlain] 3 = [songCaptions, songPlain]"
proof -
  have a: "candidateFingerprint sampleBuiltins songCaptions = ascii ''la la''"
    by (simp add: candidateFingerprint_def songCaptions_def orEmpty_def fingerprint_la_la)
  have b: "candidateFingerprint sampleBuiltins songPlain = ascii ''good bye''"
    by (simp add: candidateFingerprint_def songPlain_def orEmpty_def fingerprint_good_bye)
  have c: "ascii ''la la'' \<noteq> []" "ascii ''good bye'' \<noteq> []" "ascii ''good bye'' \<noteq> ascii ''la la''"
    by (simp_all add: ascii_def)
  show ?thesis
    using c by (simp add: pickTopCandidates_def a b Let_def)
qed

lemma finishLyrics_songWorld:
  "finishLyrics sampleBuiltins latin (ascii ''v1'')
     (captionCandidates sampleBuiltins latin (subtitleFile songWorld)
      @ catalogCandidate (0, plainTrack)) w
   = writeAndReturn songResult w"
proof -
  have sorted_in: "byScoreDesc cand_score [songCaptions, songPlain] = [songCaptions, songPlain]"
    by (simp add: byScoreDesc_def songCaptions_def songPlain_def)
  have sel: "selectedResult (ascii ''v1'') [songCaptions, songPlain] = Inr songResult"
    by (simp add: selectedResult_def songResult_def) (simp add: songCaptions_def)
  show ?thesis
    by (simp add: finishLyrics_def captionCandidates_songWorld catalogCandidate_plainTrack
        withScore_songCaptions withScore_songPlain sorted_in pickTopCandidates_song sel Let_def)
qed

lemma getLyrics_songWorld:
  "getLyrics sampleBuiltins songWorld (ascii ''v1'')
   = (Inr songResult,
      songWorld \<lparr> lyricsFile := Some (stringifyLyrics songResult),
                  calls := [CaptionsFetch, CatalogFetch, WhisperRun] \<rparr>)"
proof -
  have "writeAndReturn songResult (songWorld \<lparr> calls := [CaptionsFetch, CatalogFetch, WhisperRun] \<rparr>)
        = (Inr songResult,
           songWorld \<lparr> calls := [CaptionsFetch, CatalogFetch, WhisperRun],
                       lyricsFile := Some (stringifyLyrics songResult) \<rparr>)"
    by (rule writeAndReturn_ok)
       (simp_all add: ensureVideoCacheDir_def songWorld_def songResult_def ascii_def)
  then show ?thesis
    by (simp add: getLyrics_miss[OF ensureVideoCacheDir_songWorld cacheHit_songWorld]
        runPipeline_def expectedScript_songWorld collectRawCandidates_songWorld
        finishLyrics_songWorld)
qed

subsection \<open>C4: the mode invariant\<close>

text \<open>
  C4 as stated fails. The result that \<open>getLyrics\<close> returns when no source has lyrics
  holds the placeholder candidate, whose mode is \<open>plain\<close> and whose plain lyrics are the
  empty string. And a result served from the cache repeats what the cache document
  says: a document with a candidate that is \<open>timed\<close> and has no lines (not one that
  \<open>getLyrics\<close> writes) is returned as it is.
\<close>

theorem getLyrics_mode_invariant_counterexample:
  "fst (getLyrics sampleBuiltins emptyWorld (ascii ''v1'')) = Inr (noneResult (ascii ''v1''))
   \<and> candidates (noneResult (ascii ''v1'')) = Some [nonePlaceholder]
   \<and> cand_mode nonePlaceholder = plain \<and> cand_plainLyrics nonePlaceholder = Some []
   \<and> \<not> modeInvariant nonePlaceholder
   \<and> fst (getLyrics sampleBuiltins editedCacheWorld (ascii ''v1'')) = Inr editedCacheResult
   \<and> \<not> list_all modeInvariant (the (candidates editedCacheResult))"
proof -
  have "\<not> writeFails emptyWorld"
    by (simp add: emptyWorld_def)
  then have "fst (getLyrics sampleBuiltins emptyWorld (ascii ''v1'')) = Inr (noneResult (ascii ''v1''))"
    using getLyrics_empty_pipeline
            [OF ensureVideoCacheDir_emptyWorld cacheHit_emptyWorld, of sampleBuiltins]
    by (simp add: expectedScript_emptyWorld collectRawCandidates_emptyWorld)
  moreover have "\<not> list_all modeInvariant (the (candidates editedCacheResult))"
    by (simp add: editedCacheResult_def modeInvariant_def)
  ultimately show ?thesis
    by (simp add: getLyrics_editedCacheWorld not_modeInvariant_placeholder)
       (simp add: noneResult_def nonePlaceholder_def)
qed

text \<open>
  C4, amended: when the cache document of the video is absent, or holds only candidates
  that satisfy the mode invariant or are the placeholder (as every document written by
  \<open>getLyrics\<close> does: the property is kept by each call), every candidate of a result
  returned by \<open>getLyrics\<close> either satisfies the mode invariant (\<open>timed\<close> with at least one
  line, or \<open>plain\<close> with non-empty plain lyrics and no lines) or is the placeholder of
  the \<open>none\<close> result (\<open>plain\<close>, no lines, empty plain lyrics); and when the pipeline runs
  and finds at least one raw candidate, every candidate of the result satisfies the mode
  invariant.
\<close>

theorem getLyrics_mode_invariant:
  assumes "cacheInvariant vid w" and "fst (getLyrics B w vid) = Inr r"
  shows "(\<forall>c \<in> set (case candidates r of None \<Rightarrow> [] | Some cs \<Rightarrow> cs).
            modeInvariant c \<or> c = nonePlaceholder)
       \<and> (cacheHit w vid = None \<and> fst (collectRawCandidates B (expectedScript w) w) \<noteq> Inr []
            \<longrightarrow> (\<forall>c \<in> set (case candidates r of None \<Rightarrow> [] | Some cs \<Rightarrow> cs). modeInvariant c))
       \<and> cacheInvariant vid (snd (getLyrics B w vid))"
  using getLyrics_Inr_cases[OF assms(2)]
proof
  assume hit: "cacheHit w vid = Some r \<and> snd (getLyrics B w vid) = w"
  then have "readCachedLyrics vid (lyricsFile w) = Some r"
    by (simp add: cacheHit_Some_iff)
  then show ?thesis
    using assms(1) hit by (simp add: cacheInvariant_def list_all_iff)
next
  assume "cacheHit w vid = None
           \<and> (\<exists>raw. fst (collectRawCandidates B (expectedScript w) w) = Inr raw
                 \<and> finishLyrics B (expectedScript w) vid raw
                      (snd (collectRawCandidates B (expectedScript w) w))
                    = (Inr r, snd (getLyrics B w vid)))"
  then obtain raw where miss: "cacheHit w vid = None"
    and raw: "fst (collectRawCandidates B (expectedScript w) w) = Inr raw"
    and f: "finishLyrics B (expectedScript w) vid raw
              (snd (collectRawCandidates B (expectedScript w) w))
            = (Inr r, snd (getLyrics B w vid))"
    by blast
  note fin = finishLyrics_Inr[OF f]
  have rawok: "\<forall>c \<in> set raw. rawInvariant c"
    using collectRawCandidates_invariant[OF raw] by blast
  have cands: "\<forall>c \<in> set (case candidates r of None \<Rightarrow> [] | Some cs \<Rightarrow> cs).
            (raw \<noteq> [] \<and> modeInvariant c) \<or> (raw = [] \<and> c = nonePlaceholder)"
  proof (cases "raw = []")
    case True
    with fin have "r = noneResult vid" by simp
    with True show ?thesis by (simp add: noneResult_def)
  next
    case False
    with fin obtain tops where t: "candidates r = Some tops"
      "set tops \<subseteq> withScore (expectedScript w) ` set raw"
      by auto
    have "modeInvariant c" if "c \<in> set tops" for c
      using that t(2) rawok by (auto simp: modeInvariant_withScore)
    with t(1) False show ?thesis by simp
  qed
  then have all: "\<forall>c \<in> set (case candidates r of None \<Rightarrow> [] | Some cs \<Rightarrow> cs).
            modeInvariant c \<or> c = nonePlaceholder"
    by blast
  have "cacheInvariant vid (snd (getLyrics B w vid))"
    using fin cacheInvariant_written[OF all, of vid] by simp
  with cands all raw show ?thesis
    by auto
qed

text \<open>
  The amended C4 in a world where the pipeline runs: the captions give a timed
  candidate and the catalog a plain one, and the result holds both. And in the world
  whose cache document holds a captions candidate.
\<close>

theorem getLyrics_mode_invariant_witness:
  "cacheInvariant (ascii ''v1'') songWorld
   \<and> cacheHit songWorld (ascii ''v1'') = None
   \<and> fst (collectRawCandidates sampleBuiltins (expectedScript songWorld) songWorld) \<noteq> Inr []
   \<and> getLyrics sampleBuiltins songWorld (ascii ''v1'')
       = (Inr songResult,
          songWorld \<lparr> lyricsFile := Some (stringifyLyrics songResult),
                      calls := [CaptionsFetch, CatalogFetch, WhisperRun] \<rparr>)
   \<and> candidates songResult = Some [songCaptions, songPlain]
   \<and> cand_mode songCaptions = timed \<and> cand_mode songPlain = plain
   \<and> modeInvariant songCaptions \<and> modeInvariant songPlain
   \<and> cacheInvariant (ascii ''v1'') (snd (getLyrics sampleBuiltins songWorld (ascii ''v1'')))
   \<and> cacheInvariant (ascii ''v1'') cachedWorld
   \<and> fst (getLyrics sampleBuiltins cachedWorld (ascii ''v1'')) = Inr cachedResult
   \<and> list_all (\<lambda>c. modeInvariant c \<or> c = nonePlaceholder) (the (candidates cachedResult))"
proof -
  have s: "fst (getLyrics sampleBuiltins songWorld (ascii ''v1'')) = Inr songResult"
    by (simp add: getLyrics_songWorld)
  have raw: "fst (collectRawCandidates sampleBuiltins (expectedScript songWorld) songWorld) \<noteq> Inr []"
    by (simp add: expectedScript_songWorld collectRawCandidates_songWorld
        captionCandidates_songWorld)
  have cs: "candidates songResult = Some [songCaptions, songPlain]"
    by (simp add: songResult_def)
  have modes: "cand_mode songCaptions = timed \<and> cand_mode songPlain = plain"
    by (simp add: songCaptions_def songPlain_def)
  have hit: "cacheHit cachedWorld (ascii ''v1'') = Some cachedResult"
    by (simp add: cacheHit_Some_iff readCachedLyrics_cachedWorld expectedScript_cachedWorld
        hasCompatibleLyricsPayload_cachedResult)
       (simp add: cachedResult_def)
  have g: "fst (getLyrics sampleBuiltins cachedWorld (ascii ''v1'')) = Inr cachedResult"
    by (simp add: getLyrics_hit[OF hit])
  have c: "candidates cachedResult \<noteq> None"
    by (simp add: cachedResult_def)
  from getLyrics_mode_invariant [OF cacheInvariant_songWorld s]
       getLyrics_mode_invariant [OF cacheInvariant_cachedWorld g]
       raw cs modes c
  show ?thesis
    by (auto simp: cacheInvariant_songWorld cacheHit_songWorld getLyrics_songWorld
        cacheInvariant_cachedWorld g list_all_iff)
qed

section \<open>Properties of the entry point\<close>

lemma getLyrics_valid:
  assumes "fst (getLyrics B w vid) = Inr r"
  shows "validResponse vid r"
  using getLyrics_Inr_cases[OF assms]
proof
  assume "cacheHit w vid = Some r \<and> snd (getLyrics B w vid) = w"
  then show ?thesis
    by (auto simp: cacheHit_Some_iff validResponse_def dest: readCachedLyrics_videoId)
next
  assume "cacheHit w vid = None
           \<and> (\<exists>raw. fst (collectRawCandidates B (expectedScript w) w) = Inr raw
                 \<and> finishLyrics B (expectedScript w) vid raw
                      (snd (collectRawCandidates B (expectedScript w) w))
                    = (Inr r, snd (getLyrics B w vid)))"
  then obtain raw where f: "finishLyrics B (expectedScript w) vid raw
              (snd (collectRawCandidates B (expectedScript w) w))
            = (Inr r, snd (getLyrics B w vid))"
    by blast
  from finishLyrics_Inr[OF f] show ?thesis
    by (cases "raw = []") (auto simp: validResponse_def noneResult_def)
qed

lemma validResponse_noneResult: "validResponse vid (noneResult vid)"
  by (simp add: validResponse_def noneResult_def)

text \<open>
  The calls of the \<^verbatim>\<open>fs\<close> module outside \<^verbatim>\<open>try\<close> and the encoding of the catalog query:
  when one of them throws, so does \<open>getLyrics\<close>.
\<close>

lemma getLyrics_nul_throws: "0 \<in> set vid \<Longrightarrow> getLyrics B w vid = (Inl FsError, w)"
  by (simp add: getLyrics_def ensureVideoCacheDir_def)

lemma getLyrics_readdir_throws:
  assumes "ensureVideoCacheDir w vid = Inr ()" and "cacheHit w vid = None" and "readdirFails w"
  shows "fst (getLyrics B w vid) = Inl FsError"
  using assms
  by (simp add: getLyrics_miss runPipeline_def collectRawCandidates_def fetchCaptionsViaYtDlp_def)

lemma getLyrics_query_throws:
  assumes "ensureVideoCacheDir w vid = Inr ()" and "cacheHit w vid = None"
    and "\<not> readdirFails w" and "queryFails w"
  shows "fst (getLyrics B w vid) = Inl URIError"
  using assms
  by (simp add: getLyrics_miss runPipeline_def collectRawCandidates_def fetchCaptionsViaYtDlp_def
      fetchCatalogLyricsCandidates_def called_def)

lemma getLyrics_write_throws:
  assumes "ensureVideoCacheDir w vid = Inr ()" and "cacheHit w vid = None"
    and "fst (collectRawCandidates B (expectedScript w) w) = Inr []" and "writeFails w"
  shows "fst (getLyrics B w vid) = Inl FsError"
proof -
  define w1 where "w1 = snd (collectRawCandidates B (expectedScript w) w)"
  have c: "collectRawCandidates B (expectedScript w) w = (Inr [], w1)"
    using assms(3) by (simp add: w1_def prod_eq_iff)
  have "writeFails w1"
    using assms(4) by (simp add: w1_def writeFails_collected)
  then have "fst (writeAndReturn (noneResult vid) w1) = Inl FsError"
    by (auto simp: writeAndReturn_def writeCachedLyrics_def ensureVideoCacheDir_def
        split: sum.splits if_splits)
  then show ?thesis
    using assms(1,2) c by (simp add: getLyrics_miss runPipeline_def finishLyrics_empty)
qed

lemma parseLrc_punctuation:
  "parseLrc (ascii ''[00:01.00]!!'') = [\<lparr> line_t = 1, line_text = ascii ''!!'' \<rparr>]"
  by (simp add: parseLrc_def lrcLine_def parseLrcTimestamp_def lrcFraction_def
      List.map_filter_def dedupeAdjacent_def keepAfter_def text_eval number_eval Let_def)

lemma extractSyncedLines_punctuationTrack:
  "extractSyncedLines (cat_track (punctuationTrack n s)) = [\<lparr> line_t = 1, line_text = ascii ''!!'' \<rparr>]"
proof -
  have "trim (ascii ''[00:01.00]!!'') \<noteq> []"
    by (simp add: trim_def ascii_def isSpaceCh_def)
  then show ?thesis
    by (simp add: extractSyncedLines_def punctuationTrack_def orEmpty_def parseLrc_punctuation)
qed

lemma extractPlainLyrics_punctuationTrack:
  "extractPlainLyrics (cat_track (punctuationTrack n s)) = []"
  by (simp add: extractPlainLyrics_def punctuationTrack_def)

lemma catalogCandidate_punctuationTrack:
  "catalogCandidate (i, punctuationTrack n s)
   = [\<lparr> raw_id = ascii ''catalog_synced_'' @ decimalString (i + 1),
         raw_label = cat_label (punctuationTrack n s), raw_source = catalog, raw_mode = timed,
         raw_lines = [\<lparr> line_t = 1, line_text = ascii ''!!'' \<rparr>], raw_plainLyrics = None,
         raw_syncMethod = Some native \<rparr>]"
  by (simp add: catalogCandidate_def extractSyncedLines_punctuationTrack
      extractPlainLyrics_punctuationTrack)

lemma punctuation_fingerprint:
  "normalizedLyricsFingerprint sampleBuiltins timed [\<lparr> line_t = 1, line_text = ascii ''!!'' \<rparr>] [] = []"
  by (simp add: fingerprint_eval)

lemma catalogKey_punctuationTrack:
  "catalogKey sampleBuiltins (punctuationTrack n s) = asciiLower n @ ascii ''::::''"
  by (simp add: catalogKey_def extractSyncedLines_punctuationTrack
      extractPlainLyrics_punctuationTrack punctuation_fingerprint)
     (simp add: punctuationTrack_def orEmpty_def sampleBuiltins_def asciiLower_def ascii_def)

lemma catalogSelect_punctuation:
  "catalogSelect sampleBuiltins unknown
     [punctuationTrack (ascii ''A'') 25, punctuationTrack (ascii ''B'') 10]
   = [punctuationTrack (ascii ''A'') 25, punctuationTrack (ascii ''B'') 10]"
proof -
  have sorted_in: "byScoreDesc cat_score [punctuationTrack (ascii ''A'') 25, punctuationTrack (ascii ''B'') 10]
        = [punctuationTrack (ascii ''A'') 25, punctuationTrack (ascii ''B'') 10]"
    by (simp add: byScoreDesc_def punctuationTrack_def)
  have alltext: "trim (ascii ''!!'' @ [32]) = ascii ''!!''"
    by (simp add: trim_def ascii_def isSpaceCh_def)
  have keyA: "trim (asciiLower (ascii ''A'') @ ascii ''::::'') \<noteq> []"
    and keyB: "trim (asciiLower (ascii ''B'') @ ascii ''::::'') \<noteq> []"
    and keys: "asciiLower (ascii ''B'') @ ascii ''::::'' \<noteq> asciiLower (ascii ''A'') @ ascii ''::::''"
    by (simp_all add: trim_def asciiLower_def ascii_def isSpaceCh_def)
  have "ascii ''!!'' \<noteq> []" by (simp add: ascii_def)
  then have dedup: "catalogDedup sampleBuiltins unknown []
          [punctuationTrack (ascii ''A'') 25, punctuationTrack (ascii ''B'') 10]
        = [punctuationTrack (ascii ''A'') 25, punctuationTrack (ascii ''B'') 10]"
    using keyA keyB keys
    by (simp add: extractSyncedLines_punctuationTrack extractPlainLyrics_punctuationTrack alltext
        catalogKey_punctuationTrack isScriptCompatible_def Let_def)
  show ?thesis
    unfolding catalogSelect_def sorted_in dedup by simp
qed

lemma readMeta_punctuationWorld: "readMeta punctuationWorld = (ascii ''1'', [])"
  by (simp add: readMeta_def punctuationWorld_def orEmpty_def)

lemma expectedScript_punctuationWorld: "expectedScript punctuationWorld = unknown"
  by (simp add: expectedScript_def readMeta_punctuationWorld detectExpectedScriptFromMeta_def
      detectScript_def scriptTop_def c_japanese_def scriptCharCounts_fields chClasses ascii_def)

lemma cacheHit_punctuationWorld: "cacheHit punctuationWorld vid = None"
  by (simp add: cacheHit_def readMeta_punctuationWorld readCachedLyrics_def punctuationWorld_def)

lemma ensureVideoCacheDir_punctuationWorld:
  "ensureVideoCacheDir punctuationWorld (ascii ''v1'') = Inr ()"
  by (simp add: ensureVideoCacheDir_def punctuationWorld_def ascii_def)

lemma collectRawCandidates_punctuationWorld:
  "collectRawCandidates sampleBuiltins unknown punctuationWorld
   = (Inr (catalogCandidate (0, punctuationTrack (ascii ''A'') 25)
           @ catalogCandidate (1, punctuationTrack (ascii ''B'') 10)),
      punctuationWorld \<lparr> calls := [CaptionsFetch, CatalogFetch] \<rparr>)"
  by (simp add: collectRawCandidates_def fetchCaptionsViaYtDlp_def
      fetchCatalogLyricsCandidates_def afterCatalog_def called_def captionCandidates_def
      punctuationWorld_def catalogSelect_punctuation catalogCandidate_punctuationTrack)

lemma pickLoop_all_empty:
  "\<forall>c \<in> set cs. candidateFingerprint B c = [] \<Longrightarrow> pickLoop B seen n limit cs = []"
  by (induction cs) simp_all

lemma finishLyrics_all_empty:
  assumes "2 \<le> length raw"
    and "\<forall>c \<in> set raw. candidateFingerprint B (withScore e c) = []"
  shows "finishLyrics B e vid raw w = (Inl TypeError, w)"
proof -
  define scored where "scored = byScoreDesc cand_score (map (withScore e) raw)"
  have len: "length scored = length raw"
    by (simp add: scored_def byScoreDesc_def)
  have "\<forall>c \<in> set scored. candidateFingerprint B c = []"
    using assms(2) by (auto simp: scored_def byScoreDesc_def)
  then have "pickLoop B [] 0 3 scored = []"
    by (rule pickLoop_all_empty)
  then have "pickTopCandidates B scored 3 = []"
    using assms(1) len by (simp add: pickTopCandidates_def)
  then show ?thesis
    using assms(1) by (auto simp: finishLyrics_def Let_def scored_def selectedResult_def)
qed

lemma getLyrics_punctuationWorld:
  "getLyrics sampleBuiltins punctuationWorld (ascii ''v1'')
   = (Inl TypeError, punctuationWorld \<lparr> calls := [CaptionsFetch, CatalogFetch] \<rparr>)"
proof -
  have "\<forall>c \<in> set (catalogCandidate (0, punctuationTrack (ascii ''A'') 25)
                    @ catalogCandidate (1, punctuationTrack (ascii ''B'') 10)).
          candidateFingerprint sampleBuiltins (withScore unknown c) = []"
    by (simp add: catalogCandidate_punctuationTrack candidateFingerprint_def withScore_def
        orEmpty_def punctuation_fingerprint)
  moreover have "2 \<le> length (catalogCandidate (0, punctuationTrack (ascii ''A'') 25)
                    @ catalogCandidate (1, punctuationTrack (ascii ''B'') 10))"
    by (simp add: catalogCandidate_punctuationTrack)
  ultimately show ?thesis
    by (simp add: getLyrics_miss[OF ensureVideoCacheDir_punctuationWorld cacheHit_punctuationWorld]
        runPipeline_def expectedScript_punctuationWorld
        collectRawCandidates_punctuationWorld finishLyrics_all_empty)
qed

subsection \<open>C1: no exception, always a valid response\<close>

text \<open>
  C1 states what \<open>getLyrics\<close> is meant to do, and the code departs from it. \<open>getLyrics\<close>
  reads \<^verbatim>\<open>selected.source\<close> where \<^verbatim>\<open>selected\<close> is \<^verbatim>\<open>topCandidates[0]\<close>, without testing that
  there is one: when there are two or more raw candidates and each has an empty
  fingerprint, \<open>pickTopCandidates\<close> returns the empty array and the read throws a
  \<^verbatim>\<open>TypeError\<close>, where the branch for no raw candidate returns the \<open>none\<close> result. This
  happens when the title is \<^verbatim>\<open>1\<close> (expected script \<open>unknown\<close>) and the catalog answers the
  direct request with a track \<^verbatim>\<open>A\<close> and the search with a track \<^verbatim>\<open>B\<close>, both with the
  synced lyrics \<^verbatim>\<open>[00:01.00]!!\<close>: the cache directory is there, no cached result is
  returned, the two raw candidates are built, none is picked, and \<open>getLyrics\<close> throws
  after it has asked for the captions and the catalog, with nothing written to the
  cache. (The route calls \<open>getLyrics\<close> inside \<^verbatim>\<open>try\<close> and answers this request with the
  \<open>none\<close> result.)
\<close>

theorem getLyrics_throws_TypeError:
  "ensureVideoCacheDir punctuationWorld (ascii ''v1'') = Inr ()
   \<and> cacheHit punctuationWorld (ascii ''v1'') = None
   \<and> fst (collectRawCandidates sampleBuiltins (expectedScript punctuationWorld) punctuationWorld)
       = Inr (catalogCandidate (0, punctuationTrack (ascii ''A'') 25)
              @ catalogCandidate (1, punctuationTrack (ascii ''B'') 10))
   \<and> pickTopCandidates sampleBuiltins
        (byScoreDesc cand_score
           (map (withScore unknown)
              (catalogCandidate (0, punctuationTrack (ascii ''A'') 25)
               @ catalogCandidate (1, punctuationTrack (ascii ''B'') 10)))) 3 = []
   \<and> getLyrics sampleBuiltins punctuationWorld (ascii ''v1'')
       = (Inl TypeError, punctuationWorld \<lparr> calls := [CaptionsFetch, CatalogFetch] \<rparr>)
   \<and> lyricsFile (snd (getLyrics sampleBuiltins punctuationWorld (ascii ''v1''))) = None
   \<and> fst (lyricsRoute sampleBuiltins punctuationWorld (Some (ascii ''v1'')))
       = Json (noneResult (ascii ''v1''))"
proof -
  have fp: "\<forall>c \<in> set (byScoreDesc cand_score
           (map (withScore unknown)
              (catalogCandidate (0, punctuationTrack (ascii ''A'') 25)
               @ catalogCandidate (1, punctuationTrack (ascii ''B'') 10)))).
          candidateFingerprint sampleBuiltins c = []"
    by (simp add: byScoreDesc_def catalogCandidate_punctuationTrack candidateFingerprint_def
        withScore_def orEmpty_def punctuation_fingerprint)
  have "pickLoop sampleBuiltins [] 0 3 (byScoreDesc cand_score
           (map (withScore unknown)
              (catalogCandidate (0, punctuationTrack (ascii ''A'') 25)
               @ catalogCandidate (1, punctuationTrack (ascii ''B'') 10)))) = []"
    using fp by (rule pickLoop_all_empty)
  then have pick: "pickTopCandidates sampleBuiltins
        (byScoreDesc cand_score
           (map (withScore unknown)
              (catalogCandidate (0, punctuationTrack (ascii ''A'') 25)
               @ catalogCandidate (1, punctuationTrack (ascii ''B'') 10)))) 3 = []"
    by (simp add: pickTopCandidates_def byScoreDesc_def catalogCandidate_punctuationTrack)
  have t: "trim (orEmpty (Some (ascii ''v1''))) = ascii ''v1''"
    by (simp add: trim_def orEmpty_def ascii_def isSpaceCh_def)
  have n: "ascii ''v1'' \<noteq> []"
    by (simp add: ascii_def)
  have route: "fst (lyricsRoute sampleBuiltins punctuationWorld (Some (ascii ''v1'')))
       = Json (noneResult (ascii ''v1''))"
    by (simp add: lyricsRoute_def t n getLyrics_punctuationWorld routeFallback_noneResult)
  have none: "lyricsFile (punctuationWorld \<lparr> calls := [CaptionsFetch, CatalogFetch] \<rparr>) = None"
    by (simp add: punctuationWorld_def)
  show ?thesis
    using pick route none
    by (simp add: ensureVideoCacheDir_punctuationWorld cacheHit_punctuationWorld
        expectedScript_punctuationWorld collectRawCandidates_punctuationWorld
        getLyrics_punctuationWorld)
qed

end
